theory Spec2Isabelle
  imports Complex_Main "HOL-Library.Word" "HOL-Library.Monad_Syntax"
begin

section \<open>ChVSGApp: the scene-graph viewer\<close>

subsection \<open>Pointers and values attached to scene-graph nodes\<close>

text \<open>
  \<open>std::shared_ptr\<close> and \<open>vsg::ref_ptr\<close> are compared by address and may be null.
  A pointer is either \<open>Null\<close> or \<open>Ref\<close> of the identity of the object it points to.
\<close>

datatype 'a ptr = Null | Ref 'a

text \<open>
  A scene-graph child carries auxiliary values under string keys. \<open>getValue key out\<close>
  returns \<open>false\<close> and leaves \<open>out\<close> alone when the key is absent or holds a value of
  another type; the typed readers below return \<open>None\<close> then.
\<close>

datatype ('b, 'a, 't) vsg_value =
    BodyValue "'b ptr"
  | AssetValue "'a ptr"
  | TransformValue "'t ptr"
  | OtherValue

type_synonym ('b, 'a, 't) node = "string \<rightharpoonup> ('b, 'a, 't) vsg_value"

definition getValue_body :: "('b, 'a, 't) node \<Rightarrow> string \<Rightarrow> 'b ptr option" where
  "getValue_body myNode key =
     (case myNode key of Some (BodyValue b) \<Rightarrow> Some b | _ \<Rightarrow> None)"

definition getValue_asset :: "('b, 'a, 't) node \<Rightarrow> string \<Rightarrow> 'a ptr option" where
  "getValue_asset myNode key =
     (case myNode key of Some (AssetValue a) \<Rightarrow> Some a | _ \<Rightarrow> None)"

definition getValue_transform :: "('b, 'a, 't) node \<Rightarrow> string \<Rightarrow> 't ptr option" where
  "getValue_transform myNode key =
     (case myNode key of Some (TransformValue t) \<Rightarrow> Some t | _ \<Rightarrow> None)"

subsection \<open>GetTransform\<close>

text \<open>
  The loop of \<open>ChVSGApp::GetTransform\<close> over the children \<open>iChild = 0 ..< numCh\<close>, with the
  local \<open>transform\<close> as accumulator. A child that matches body and asset but has no
  \<open>"transform"\<close> value only writes a log line ("ill shaped group node") and the loop goes
  on; the log is not modelled.
\<close>

fun GetTransform_loop ::
  "('b, 'a, 't) node list \<Rightarrow> 'b ptr \<Rightarrow> 'a ptr \<Rightarrow> 't ptr \<Rightarrow> 't ptr" where
  "GetTransform_loop [] body asset transform = transform"
| "GetTransform_loop (myNode # rest) body asset transform =
     (if getValue_asset myNode ''assetPtr'' \<noteq> None \<and> getValue_body myNode ''bodyPtr'' \<noteq> None \<and>
         Some body = getValue_body myNode ''bodyPtr'' \<and>
         Some asset = getValue_asset myNode ''assetPtr''
      then (case getValue_transform myNode ''transform'' of
              Some t \<Rightarrow> t
            | None \<Rightarrow> GetTransform_loop rest body asset transform)
      else GetTransform_loop rest body asset transform)"

definition GetTransform ::
  "('b, 'a, 't) node list \<Rightarrow> 'b ptr \<Rightarrow> 'a ptr \<Rightarrow> 't ptr" where
  "GetTransform children body asset = GetTransform_loop children body asset Null"

text \<open>A child carries the pair \<open>(body, asset)\<close>.\<close>

definition carries_pair :: "'b ptr \<Rightarrow> 'a ptr \<Rightarrow> ('b, 'a, 't) node \<Rightarrow> bool" where
  "carries_pair body asset myNode \<longleftrightarrow>
     getValue_body myNode ''bodyPtr'' = Some body \<and>
     getValue_asset myNode ''assetPtr'' = Some asset"

text \<open>A child carries the pair and a \<open>"transform"\<close> value as well.\<close>

definition well_shaped_for :: "'b ptr \<Rightarrow> 'a ptr \<Rightarrow> ('b, 'a, 't) node \<Rightarrow> bool" where
  "well_shaped_for body asset myNode \<longleftrightarrow>
     carries_pair body asset myNode \<and> getValue_transform myNode ''transform'' \<noteq> None"

text \<open>
  The lookup as the specification words it: the \<open>"transform"\<close> value of the first child that
  carries the pair, null when there is no such child (or no such value on it).
\<close>

definition spec_GetTransform ::
  "('b, 'a, 't) node list \<Rightarrow> 'b ptr \<Rightarrow> 'a ptr \<Rightarrow> 't ptr" where
  "spec_GetTransform children body asset =
     (case find (carries_pair body asset) children of
        None \<Rightarrow> Null
      | Some myNode \<Rightarrow>
          (case getValue_transform myNode ''transform'' of None \<Rightarrow> Null | Some t \<Rightarrow> t))"

text \<open>Two children for the same pair, the first of them without a transform.\<close>

definition ill_shaped_child :: "(nat, nat, nat) node" where
  "ill_shaped_child = [''bodyPtr'' \<mapsto> BodyValue (Ref 1), ''assetPtr'' \<mapsto> AssetValue (Ref 1)]"

definition shaped_child :: "(nat, nat, nat) node" where
  "shaped_child =
     [''bodyPtr'' \<mapsto> BodyValue (Ref 1), ''assetPtr'' \<mapsto> AssetValue (Ref 1),
      ''transform'' \<mapsto> TransformValue (Ref 7)]"

subsection \<open>Vectors, quaternions and the operations taken from outside\<close>

text \<open>
  Where only sums and products of numbers are at stake, \<open>double\<close> is modelled by
  \<open>real\<close>, without rounding. \<open>ChVector<>\<close> is a triple of coordinates with the usual
  sum, difference, cross product and Euclidean length.
\<close>

datatype vec = Vec (vx: real) (vy: real) (vz: real)

definition vadd :: "vec \<Rightarrow> vec \<Rightarrow> vec" where
  "vadd a b = Vec (vx a + vx b) (vy a + vy b) (vz a + vz b)"

definition vsub :: "vec \<Rightarrow> vec \<Rightarrow> vec" where
  "vsub a b = Vec (vx a - vx b) (vy a - vy b) (vz a - vz b)"

definition Vcross :: "vec \<Rightarrow> vec \<Rightarrow> vec" where
  "Vcross a b =
     Vec (vy a * vz b - vz a * vy b) (vz a * vx b - vx a * vz b) (vx a * vy b - vy a * vx b)"

definition Length :: "vec \<Rightarrow> real" where
  "Length a = sqrt (vx a * vx a + vy a * vy a + vz a * vz a)"

text \<open>
  Where a value that is no number can arise, the type \<open>double\<close> has the infinities and
  NaN next to the numbers: \<open>atof\<close> turns the text of an edit box into a number, into an
  infinity (for \<open>inf\<close> or a number too large) or into NaN (for \<open>nan\<close>), and a quotient
  of zero by zero is NaN. The comparison \<open><\<close> of two such values is false whenever one
  of them is NaN.
\<close>

datatype double = DNum real | DPosInf | DNegInf | DNaN

fun dless :: "double \<Rightarrow> double \<Rightarrow> bool" where
  "dless DNaN b = False"
| "dless a DNaN = False"
| "dless (DNum a) (DNum b) = (a < b)"
| "dless (DNum a) DPosInf = True"
| "dless (DNum a) DNegInf = False"
| "dless DPosInf b = False"
| "dless DNegInf DNegInf = False"
| "dless DNegInf b = True"

datatype quat = Quat (e0: real) (e1: real) (e2: real) (e3: real)

datatype mat33 = Mat33 (row0: vec) (row1: vec) (row2: vec)

text \<open>
  The quaternion class, the rotation matrix class, the dynamics solver and the window system
  are not among the sources of the viewer. What the viewer calls of them is a parameter of the
  model: \<open>Q_to_AngAxis\<close> (angle and axis of a quaternion), \<open>Rotate\<close> (a vector rotated by
  a quaternion), \<open>qprod\<close> (the operator \<open>%\<close>), \<open>Normalize\<close>, \<open>Get_A_quaternion\<close>
  (the quaternion of a rotation matrix), \<open>DoStepDynamics\<close> and \<open>Window_create\<close>, which
  yields no window when the window cannot be created. The quotient of two numbers as the
  division of \<open>double\<close> rounds it, \<open>double_quotient\<close>, is a parameter as well: it is
  turned into a \<open>size_t\<close>, where the rounding shows.
\<close>

record WindowTraits =
  windowTitle :: string
  traits_width :: int
  traits_height :: int
  traits_x :: int
  traits_y :: int

record Window =
  window_traits :: WindowTraits
  clearColor :: "real list"

record ChVisualization =
  Pos :: vec
  Rot :: mat33

record ChColor =
  col_R :: real
  col_G :: real
  col_B :: real
  col_A :: real

record ChPBRSetting =
  Albedo :: ChColor
  Metallic :: real
  Roughness :: real
  AO :: real

record ChPBRMaps =
  AlbedoMapPath :: string
  NormalMapPath :: string
  MetallicMapPath :: string
  RoughnessMapPath :: string
  AoMapPath :: string

text \<open>
  The assets the viewer tells apart by dynamic cast. The four shapes derive from
  \<open>ChVisualization\<close> and carry its position and rotation next to their geometry: the size of a
  box, the radius of a sphere, the radii of an ellipsoid, the radius and the two end points of
  a cylinder.
\<close>

datatype ChAsset =
    ChColorAsset ChColor
  | ChTexture string
  | ChPBRSettingAsset ChPBRSetting
  | ChPBRMapsAsset ChPBRMaps
  | ChBoxShape ChVisualization vec
  | ChSphereShape ChVisualization real
  | ChEllipsoidShape ChVisualization vec
  | ChCylinderShape ChVisualization real vec vec
  | OtherVisualization ChVisualization
  | OtherAsset

text \<open>
  Bodies and assets live behind shared pointers; the same asset may hang on several bodies.
  The system holds the objects in a store indexed by address, a body lists the addresses of
  its assets, and the body list holds addresses of bodies.
\<close>

record ChBody =
  frame_pos :: vec
  frame_rot :: quat
  assets :: "nat list"

record ChSystem =
  bodylist :: "nat list"
  body_at :: "nat \<Rightarrow> ChBody"
  asset_at :: "nat \<Rightarrow> ChAsset"

record externals =
  Q_to_AngAxis :: "quat \<Rightarrow> real \<times> vec"
  Rotate :: "quat \<Rightarrow> vec \<Rightarrow> vec"
  qprod :: "quat \<Rightarrow> quat \<Rightarrow> quat"
  Normalize :: "quat \<Rightarrow> quat"
  Get_A_quaternion :: "mat33 \<Rightarrow> quat"
  DoStepDynamics :: "real \<Rightarrow> ChSystem \<Rightarrow> ChSystem"
  Window_create :: "WindowTraits \<Rightarrow> Window option"
  getEnvPaths :: "string \<Rightarrow> string list"
  double_quotient :: "real \<Rightarrow> real \<Rightarrow> real"

subsection \<open>Scene-graph children\<close>

text \<open>
  The matrix of a \<open>vsg::MatrixTransform\<close> is set to the product
  \<open>translate * rotate(angle, axis) * scale\<close>; it is kept as its three factors.
\<close>

record vsg_matrix =
  translate :: vec
  rotate_angle :: real
  rotate_axis :: vec
  scale_by :: vec

datatype vsg_material =
    TextureMaterial string
  | ColorMaterial ChColor
  | PBRSetMaterial ChPBRSetting
  | PBRMapsMaterial ChPBRMaps

datatype index_shape = VSGIndexBox | VSGIndexSphere | VSGIndexCylinder

record vsg_child =
  child_values :: "(nat, nat, vsg_matrix) node"
  child_shape :: index_shape
  child_material :: "vsg_material option"

text \<open>
  Modelled from the spec: the classes \<open>VSGIndexBox\<close>, \<open>VSGIndexSphere\<close> and
  \<open>VSGIndexCylinder\<close> are not among the sources. A node made by \<open>createVSGNode\<close> from
  \<open>(body, asset, transform)\<close> is taken to carry the three under the keys that
  \<open>GetTransform\<close> reads, together with the material given to \<open>Initialize\<close>, if any.
\<close>

definition createVSGNode ::
  "index_shape \<Rightarrow> nat \<Rightarrow> nat \<Rightarrow> vsg_matrix \<Rightarrow> vsg_material option \<Rightarrow> vsg_child" where
  "createVSGNode shape body asset transform material =
     \<lparr> child_values =
         [''bodyPtr'' \<mapsto> BodyValue (Ref body), ''assetPtr'' \<mapsto> AssetValue (Ref asset),
          ''transform'' \<mapsto> TransformValue (Ref transform)],
       child_shape = shape,
       child_material = material \<rparr>"

subsection \<open>BuildSceneGraph\<close>

text \<open>
  The first loop over the assets of a body looks for a colour, a texture, PBR settings and PBR
  maps; a later asset of a kind overwrites an earlier one. Each \<open>...Found\<close> flag of the
  source is set together with the value it guards, so flag and value are one option here.
\<close>

record body_looks =
  bodyTexture :: "string option"
  bodyColor :: "ChColor option"
  bodyPBRSet :: "ChPBRSetting option"
  bodyPBRMaps :: "ChPBRMaps option"

definition no_looks :: body_looks where
  "no_looks = \<lparr> bodyTexture = None, bodyColor = None, bodyPBRSet = None, bodyPBRMaps = None \<rparr>"

fun scan_asset :: "body_looks \<Rightarrow> ChAsset \<Rightarrow> body_looks" where
  "scan_asset l (ChColorAsset c) = l\<lparr>bodyColor := Some c\<rparr>"
| "scan_asset l (ChTexture f) = l\<lparr>bodyTexture := Some f\<rparr>"
| "scan_asset l (ChPBRSettingAsset p) = l\<lparr>bodyPBRSet := Some p\<rparr>"
| "scan_asset l (ChPBRMapsAsset m) = l\<lparr>bodyPBRMaps := Some m\<rparr>"
| "scan_asset l _ = l"

text \<open>The chain \<open>if (textureFound) ... else if (colorFound) ... \<close> in front of each node.\<close>

definition chosen_material :: "body_looks \<Rightarrow> vsg_material option" where
  "chosen_material l =
     (case bodyTexture l of Some f \<Rightarrow> Some (TextureMaterial f)
      | None \<Rightarrow>
     (case bodyColor l of Some c \<Rightarrow> Some (ColorMaterial c)
      | None \<Rightarrow>
     (case bodyPBRSet l of Some p \<Rightarrow> Some (PBRSetMaterial p)
      | None \<Rightarrow>
     (case bodyPBRMaps l of Some m \<Rightarrow> Some (PBRMapsMaterial m)
      | None \<Rightarrow> None))))"

text \<open>
  The matrix set for an asset with position and rotation \<open>vis\<close> on a body at \<open>pos\<close> with
  rotation \<open>rot\<close>: the asset position is rotated into the global frame and added to \<open>pos\<close>;
  the local rotation of the asset is multiplied onto the rotation of the body, normalised and
  turned into angle and axis; \<open>size_xyz\<close> is the scale.
\<close>

definition pose_matrix :: "externals \<Rightarrow> vec \<Rightarrow> quat \<Rightarrow> ChVisualization \<Rightarrow> vec \<Rightarrow> vsg_matrix" where
  "pose_matrix ext pos rot vis size_xyz =
     (let center = Rotate ext rot (Pos vis);
          lrot = Normalize ext (qprod ext rot (Get_A_quaternion ext (Rot vis)));
          (angle, axis) = Q_to_AngAxis ext lrot;
          pos_final = vadd pos center
      in \<lparr> translate = pos_final, rotate_angle = angle, rotate_axis = axis, scale_by = size_xyz \<rparr>)"

text \<open>
  The four \<open>dynamic_cast\<close> tests of the second loop: the kind of node and the matrix for a
  shape, nothing for any other asset.
\<close>

fun shape_pose :: "externals \<Rightarrow> vec \<Rightarrow> quat \<Rightarrow> ChAsset \<Rightarrow> (index_shape \<times> vsg_matrix) option" where
  "shape_pose ext pos rot (ChBoxShape vis size_xyz) =
     Some (VSGIndexBox, pose_matrix ext pos rot vis size_xyz)"
| "shape_pose ext pos rot (ChSphereShape vis radius) =
     Some (VSGIndexSphere, pose_matrix ext pos rot vis (Vec radius radius radius))"
| "shape_pose ext pos rot (ChEllipsoidShape vis radius) =
     Some (VSGIndexSphere, pose_matrix ext pos rot vis (Vec (vx radius) (vy radius) (vz radius)))"
| "shape_pose ext pos rot (ChCylinderShape vis radius p1 p2) =
     Some (VSGIndexCylinder,
           pose_matrix ext pos rot vis (Vec radius radius (Length (vsub p1 p2))))"
| "shape_pose ext pos rot _ = None"

text \<open>The second loop over the assets of one body, adding children to the group.\<close>

fun add_asset_nodes ::
  "externals \<Rightarrow> ChSystem \<Rightarrow> nat \<Rightarrow> vsg_material option \<Rightarrow> nat list \<Rightarrow> vsg_child list \<Rightarrow> vsg_child list" where
  "add_asset_nodes ext sys body material [] children = children"
| "add_asset_nodes ext sys body material (asset # rest) children =
     add_asset_nodes ext sys body material rest
       (case shape_pose ext (frame_pos (body_at sys body)) (frame_rot (body_at sys body))
               (asset_at sys asset) of
          None \<Rightarrow> children
        | Some (shape, transform) \<Rightarrow>
            children @ [createVSGNode shape body asset transform material])"

text \<open>The loop over the body list.\<close>

fun add_body_nodes :: "externals \<Rightarrow> ChSystem \<Rightarrow> nat list \<Rightarrow> vsg_child list \<Rightarrow> vsg_child list" where
  "add_body_nodes ext sys [] children = children"
| "add_body_nodes ext sys (body # rest) children =
     add_body_nodes ext sys rest
       (add_asset_nodes ext sys body
          (chosen_material (foldl scan_asset no_looks (map (asset_at sys) (assets (body_at sys body)))))
          (assets (body_at sys body)) children)"

subsection \<open>The application object\<close>

datatype vsg_error = NullPointer | UndefinedConversion

datatype EventHandler = CloseHandler | Trackball

text \<open>
  The viewer as far as \<open>Initialize\<close> configures it: the windows added, the event handlers
  in the order of their registration, whether the command graph has been assigned and whether
  the viewer has been compiled. The camera, computed from the bounds of the scene, is not
  modelled.
\<close>

record Viewer =
  viewer_windows :: "Window list"
  eventHandlers :: "EventHandler list"
  tasks_assigned :: bool
  viewer_compiled :: bool

text \<open>
  What the application does to the outside, in order: a dynamics step of a given size, an
  update of the scene graph. The field \<open>trace\<close> of the application record collects these
  events; it is an observation of the model and no member of the class.
\<close>

datatype app_event = StepDynamics real | SceneUpdate

record ChVSGApp =
  m_timeStep :: real
  m_outputStep :: real
  m_build_graph :: bool
  m_wait_counter :: "64 word"
  m_wait_counter_max :: "64 word"
  m_clearColor :: "real list"
  m_system :: "ChSystem option"
  m_windowTraits :: "WindowTraits option"
  m_searchPaths :: "string list"
  m_scenegraph :: "vsg_child list option"
  m_viewer :: "Viewer option"
  m_window :: "Window option"
  compile_traversal :: bool
  allocatedTextureCount :: nat
  maxNumTextures :: nat
  trace :: "app_event list"

text \<open>The constructor: pointers are null, both steps are 0.001, both counters are 1.\<close>

definition ChVSGApp_new :: ChVSGApp where
  "ChVSGApp_new =
     \<lparr> m_timeStep = 0.001, m_outputStep = 0.001, m_build_graph = True,
       m_wait_counter = 1, m_wait_counter_max = 1, m_clearColor = [1, 1, 1, 1],
       m_system = None, m_windowTraits = None, m_searchPaths = [], m_scenegraph = None,
       m_viewer = None, m_window = None, compile_traversal = False,
       allocatedTextureCount = 0, maxNumTextures = 0, trace = [] \<rparr>"

text \<open>
  \<open>BuildSceneGraph\<close> reads the body list through \<open>m_system\<close> and adds the children to
  \<open>m_scenegraph\<close>; either pointer being null where it is followed is an error.
\<close>

definition BuildSceneGraph :: "externals \<Rightarrow> ChVSGApp \<Rightarrow> vsg_error + ChVSGApp" where
  "BuildSceneGraph ext a =
     (case m_system a of
        None \<Rightarrow> Inl NullPointer
      | Some sys \<Rightarrow>
          (case m_scenegraph a of
             None \<Rightarrow>
               (if add_body_nodes ext sys (bodylist sys) [] = []
                then Inr (a\<lparr>m_build_graph := False\<rparr>)
                else Inl NullPointer)
           | Some children \<Rightarrow>
               Inr (a\<lparr>m_scenegraph := Some (add_body_nodes ext sys (bodylist sys) children),
                      m_build_graph := False\<rparr>)))"

subsection \<open>UpdateSceneGraph\<close>

text \<open>
  \<open>GetTransform(body, asset)->setMatrix(m)\<close>: a null result of the lookup is followed all
  the same, which is an error. Every child holds a \<open>MatrixTransform\<close> of its own, as those
  made by \<open>BuildSceneGraph\<close> do, so the matrix changes on the child the lookup stopped at.
\<close>

fun setMatrix_first :: "nat ptr \<Rightarrow> nat ptr \<Rightarrow> vsg_matrix \<Rightarrow> vsg_child list \<Rightarrow> vsg_child list" where
  "setMatrix_first body asset m [] = []"
| "setMatrix_first body asset m (c # cs) =
     (if well_shaped_for body asset (child_values c)
      then c\<lparr>child_values := (child_values c)(''transform'' \<mapsto> TransformValue (Ref m))\<rparr> # cs
      else c # setMatrix_first body asset m cs)"

definition update_transform ::
  "nat \<Rightarrow> nat \<Rightarrow> vsg_matrix \<Rightarrow> vsg_child list option \<Rightarrow> vsg_error + vsg_child list option" where
  "update_transform body asset m scenegraph =
     (case scenegraph of
        None \<Rightarrow> Inl NullPointer
      | Some children \<Rightarrow>
          (case GetTransform (map child_values children) (Ref body) (Ref asset) of
             Null \<Rightarrow> Inl NullPointer
           | Ref tm \<Rightarrow> Inr (Some (setMatrix_first (Ref body) (Ref asset) m children))))"

fun update_asset_nodes ::
  "externals \<Rightarrow> ChSystem \<Rightarrow> nat \<Rightarrow> nat list \<Rightarrow> vsg_child list option \<Rightarrow> vsg_error + vsg_child list option" where
  "update_asset_nodes ext sys body [] scenegraph = Inr scenegraph"
| "update_asset_nodes ext sys body (asset # rest) scenegraph =
     (case shape_pose ext (frame_pos (body_at sys body)) (frame_rot (body_at sys body))
             (asset_at sys asset) of
        None \<Rightarrow> update_asset_nodes ext sys body rest scenegraph
      | Some (shape, m) \<Rightarrow>
          (case update_transform body asset m scenegraph of
             Inl e \<Rightarrow> Inl e
           | Inr scenegraph' \<Rightarrow> update_asset_nodes ext sys body rest scenegraph'))"

fun update_body_nodes ::
  "externals \<Rightarrow> ChSystem \<Rightarrow> nat list \<Rightarrow> vsg_child list option \<Rightarrow> vsg_error + vsg_child list option" where
  "update_body_nodes ext sys [] scenegraph = Inr scenegraph"
| "update_body_nodes ext sys (body # rest) scenegraph =
     (case update_asset_nodes ext sys body (assets (body_at sys body)) scenegraph of
        Inl e \<Rightarrow> Inl e
      | Inr scenegraph' \<Rightarrow> update_body_nodes ext sys rest scenegraph')"

definition UpdateSceneGraph :: "externals \<Rightarrow> ChVSGApp \<Rightarrow> vsg_error + ChVSGApp" where
  "UpdateSceneGraph ext a =
     (case m_system a of
        None \<Rightarrow> Inl NullPointer
      | Some sys \<Rightarrow>
          (case update_body_nodes ext sys (bodylist sys) (m_scenegraph a) of
             Inl e \<Rightarrow> Inl e
           | Inr scenegraph' \<Rightarrow>
               Inr (a\<lparr>m_scenegraph := scenegraph', trace := trace a @ [SceneUpdate]\<rparr>)))"

subsection \<open>doTimeStep\<close>

text \<open>\<open>m_wait_counter\<close> is a \<open>size_t\<close>; the increment wraps around at \<open>2 ^ 64\<close>.\<close>

definition IncreaseWaitCounter :: "ChVSGApp \<Rightarrow> ChVSGApp" where
  "IncreaseWaitCounter a =
     (let a' = a\<lparr>m_wait_counter := m_wait_counter a + 1\<rparr>
      in if m_wait_counter a' > m_wait_counter_max a' then a'\<lparr>m_wait_counter := 1\<rparr> else a')"

definition doTimeStep :: "externals \<Rightarrow> ChVSGApp \<Rightarrow> vsg_error + ChVSGApp" where
  "doTimeStep ext a =
     (case m_system a of
        None \<Rightarrow> Inl NullPointer
      | Some sys \<Rightarrow>
          (let a1 = a\<lparr>m_system := Some (DoStepDynamics ext (m_timeStep a) sys),
                       trace := trace a @ [StepDynamics (m_timeStep a)]\<rparr>
           in case (if m_wait_counter a1 = m_wait_counter_max a1
                    then UpdateSceneGraph ext a1 else Inr a1) of
                Inl e \<Rightarrow> Inl e
              | Inr a2 \<Rightarrow> Inr (IncreaseWaitCounter a2)))"

text \<open>\<open>n\<close> calls of \<open>doTimeStep\<close> in a row, stopping at the first error.\<close>

fun doTimeSteps :: "externals \<Rightarrow> nat \<Rightarrow> ChVSGApp \<Rightarrow> vsg_error + ChVSGApp" where
  "doTimeSteps ext 0 a = Inr a"
| "doTimeSteps ext (Suc n) a =
     (case doTimeStep ext a of Inl e \<Rightarrow> Inl e | Inr a' \<Rightarrow> doTimeSteps ext n a')"

subsection \<open>Initialize\<close>

text \<open>
  The conversion \<open>size_t(v)\<close> of a \<open>double\<close> truncates towards zero and is undefined
  when the truncated value does not fit; so is the quotient by a zero time step, which is
  no finite number.
\<close>

definition size_t_of_double :: "real \<Rightarrow> 64 word option" where
  "size_t_of_double v =
     (if - 1 < v \<and> v < 2 ^ 64 then Some (word_of_int (if v < 0 then 0 else \<lfloor>v\<rfloor>)) else None)"

definition wait_states :: "externals \<Rightarrow> real \<Rightarrow> real \<Rightarrow> 64 word option" where
  "wait_states ext outputStep timeStep =
     (if outputStep \<le> timeStep then Some 1
      else if timeStep = 0 then None
      else size_t_of_double (double_quotient ext outputStep timeStep))"

definition new_Viewer :: Viewer where
  "new_Viewer =
     \<lparr> viewer_windows = [], eventHandlers = [], tasks_assigned = False, viewer_compiled = False \<rparr>"

text \<open>What \<open>Initialize\<close> does to the viewer once the window exists.\<close>

definition configure_Viewer :: "Window \<Rightarrow> Viewer \<Rightarrow> Viewer" where
  "configure_Viewer w v =
     v\<lparr>viewer_windows := viewer_windows v @ [w],
       eventHandlers := eventHandlers v @ [CloseHandler, Trackball],
       tasks_assigned := True,
       viewer_compiled := True\<rparr>"

definition Initialize ::
  "externals \<Rightarrow> int \<Rightarrow> int \<Rightarrow> string \<Rightarrow> ChSystem option \<Rightarrow> ChVSGApp \<Rightarrow> vsg_error + (bool \<times> ChVSGApp)" where
  "Initialize ext windowWidth windowHeight title system a =
     (case system of
        None \<Rightarrow> Inr (False, a)
      | Some sys \<Rightarrow>
          (let wt = \<lparr> windowTitle = title, traits_width = windowWidth,
                      traits_height = windowHeight, traits_x = 100, traits_y = 100 \<rparr>;
               a1 = a\<lparr>m_system := Some sys, m_windowTraits := Some wt,
                       m_searchPaths := getEnvPaths ext ''VSG_FILE_PATH'',
                       m_scenegraph := Some []\<rparr>
           in case wait_states ext (m_outputStep a1) (m_timeStep a1) of
                None \<Rightarrow> Inl UndefinedConversion
              | Some wmax \<Rightarrow>
                  (case BuildSceneGraph ext (a1\<lparr>m_wait_counter_max := wmax\<rparr>) of
                     Inl e \<Rightarrow> Inl e
                   | Inr a2 \<Rightarrow>
                       (let a3 = a2\<lparr>m_viewer := Some new_Viewer,
                                      m_window := Window_create ext wt\<rparr>
                        in case m_window a3 of
                             None \<Rightarrow> Inr (False, a3)
                           | Some w \<Rightarrow>
                               (let w' = w\<lparr>clearColor := take 4 (m_clearColor a3)\<rparr>
                                in Inr (True,
                                        a3\<lparr>m_window := Some w',
                                           m_viewer := Some (configure_Viewer w' new_Viewer),
                                           compile_traversal := True,
                                           allocatedTextureCount := 0,
                                           maxNumTextures := 128\<rparr>))))))"

subsection \<open>What a built scene graph is expected to hold\<close>

text \<open>
  The matrix of a shape on a body, written out: the translation is the position of the body
  frame plus the asset position rotated by the body rotation; angle and axis are those of the
  normalised product of the body rotation and the rotation of the asset; the scale is the size
  of the shape.
\<close>

definition composed_pose :: "externals \<Rightarrow> ChBody \<Rightarrow> ChVisualization \<Rightarrow> vec \<Rightarrow> vsg_matrix" where
  "composed_pose ext body vis size_xyz =
     \<lparr> translate = vadd (frame_pos body) (Rotate ext (frame_rot body) (Pos vis)),
       rotate_angle =
         fst (Q_to_AngAxis ext
                (Normalize ext (qprod ext (frame_rot body) (Get_A_quaternion ext (Rot vis))))),
       rotate_axis =
         snd (Q_to_AngAxis ext
                (Normalize ext (qprod ext (frame_rot body) (Get_A_quaternion ext (Rot vis))))),
       scale_by = size_xyz \<rparr>"

text \<open>
  The matrix as the specification words it, with angle and axis of the rotation of the body
  alone.
\<close>

definition spec_pose :: "externals \<Rightarrow> ChBody \<Rightarrow> ChVisualization \<Rightarrow> vec \<Rightarrow> vsg_matrix" where
  "spec_pose ext body vis size_xyz =
     \<lparr> translate = vadd (frame_pos body) (Rotate ext (frame_rot body) (Pos vis)),
       rotate_angle = fst (Q_to_AngAxis ext (frame_rot body)),
       rotate_axis = snd (Q_to_AngAxis ext (frame_rot body)),
       scale_by = size_xyz \<rparr>"

fun is_shape :: "ChAsset \<Rightarrow> bool" where
  "is_shape (ChBoxShape vis size_xyz) = True"
| "is_shape (ChSphereShape vis radius) = True"
| "is_shape (ChEllipsoidShape vis radius) = True"
| "is_shape (ChCylinderShape vis radius p1 p2) = True"
| "is_shape _ = False"

text \<open>Position and rotation of a shape, and its size: the scale of its node.\<close>

fun shape_vis :: "ChAsset \<Rightarrow> ChVisualization option" where
  "shape_vis (ChBoxShape vis size_xyz) = Some vis"
| "shape_vis (ChSphereShape vis radius) = Some vis"
| "shape_vis (ChEllipsoidShape vis radius) = Some vis"
| "shape_vis (ChCylinderShape vis radius p1 p2) = Some vis"
| "shape_vis _ = None"

fun shape_size :: "ChAsset \<Rightarrow> vec option" where
  "shape_size (ChBoxShape vis size_xyz) = Some size_xyz"
| "shape_size (ChSphereShape vis radius) = Some (Vec radius radius radius)"
| "shape_size (ChEllipsoidShape vis radius) = Some radius"
| "shape_size (ChCylinderShape vis radius p1 p2) = Some (Vec radius radius (Length (vsub p1 p2)))"
| "shape_size _ = None"

definition expected_matrix :: "externals \<Rightarrow> ChBody \<Rightarrow> ChAsset \<Rightarrow> vsg_matrix ptr option" where
  "expected_matrix ext body asset =
     (case (shape_vis asset, shape_size asset) of
        (Some vis, Some size_xyz) \<Rightarrow> Some (Ref (composed_pose ext body vis size_xyz))
      | _ \<Rightarrow> None)"

text \<open>Body, asset and transform as \<open>GetTransform\<close> would read them from a child.\<close>

definition child_triple ::
  "vsg_child \<Rightarrow> nat ptr option \<times> nat ptr option \<times> vsg_matrix ptr option" where
  "child_triple c =
     (getValue_body (child_values c) ''bodyPtr'',
      getValue_asset (child_values c) ''assetPtr'',
      getValue_transform (child_values c) ''transform'')"

subsection \<open>An instance of the outside operations\<close>

text \<open>
  To run the model on concrete input the parameters need values. The instance below takes
  the quaternion algebra of the textbooks over the reals, a solver that leaves the system as
  it is, a window system that makes a window of any positive size, and the exact quotient.
\<close>

definition plain_qprod :: "quat \<Rightarrow> quat \<Rightarrow> quat" where
  "plain_qprod p q =
     Quat (e0 p * e0 q - e1 p * e1 q - e2 p * e2 q - e3 p * e3 q)
          (e0 p * e1 q + e1 p * e0 q + e2 p * e3 q - e3 p * e2 q)
          (e0 p * e2 q - e1 p * e3 q + e2 p * e0 q + e3 p * e1 q)
          (e0 p * e3 q + e1 p * e2 q - e2 p * e1 q + e3 p * e0 q)"

definition plain_Normalize :: "quat \<Rightarrow> quat" where
  "plain_Normalize q =
     (let n = sqrt (e0 q * e0 q + e1 q * e1 q + e2 q * e2 q + e3 q * e3 q)
      in if n = 0 then q else Quat (e0 q / n) (e1 q / n) (e2 q / n) (e3 q / n))"

definition plain_Rotate :: "quat \<Rightarrow> vec \<Rightarrow> vec" where
  "plain_Rotate q v =
     (let r = plain_qprod (plain_qprod q (Quat 0 (vx v) (vy v) (vz v)))
                (Quat (e0 q) (- e1 q) (- e2 q) (- e3 q))
      in Vec (e1 r) (e2 r) (e3 r))"

definition plain_Q_to_AngAxis :: "quat \<Rightarrow> real \<times> vec" where
  "plain_Q_to_AngAxis q =
     (if \<bar>e0 q\<bar> < 1
      then (2 * arccos (e0 q),
            Vec (e1 q / sqrt (1 - e0 q * e0 q)) (e2 q / sqrt (1 - e0 q * e0 q))
                (e3 q / sqrt (1 - e0 q * e0 q)))
      else (0, Vec 1 0 0))"

definition plain_Get_A_quaternion :: "mat33 \<Rightarrow> quat" where
  "plain_Get_A_quaternion m =
     (let m00 = vx (row0 m); m01 = vy (row0 m); m02 = vz (row0 m);
          m10 = vx (row1 m); m11 = vy (row1 m); m12 = vz (row1 m);
          m20 = vx (row2 m); m21 = vy (row2 m); m22 = vz (row2 m)
      in if m00 + m11 + m22 > 0
         then (let s = 2 * sqrt (m00 + m11 + m22 + 1)
               in Quat (s / 4) ((m21 - m12) / s) ((m02 - m20) / s) ((m10 - m01) / s))
         else if m00 > m11 \<and> m00 > m22
         then (let s = 2 * sqrt (1 + m00 - m11 - m22)
               in Quat ((m21 - m12) / s) (s / 4) ((m01 + m10) / s) ((m02 + m20) / s))
         else if m11 > m22
         then (let s = 2 * sqrt (1 + m11 - m00 - m22)
               in Quat ((m02 - m20) / s) ((m01 + m10) / s) (s / 4) ((m12 + m21) / s))
         else (let s = 2 * sqrt (1 + m22 - m00 - m11)
               in Quat ((m10 - m01) / s) ((m02 + m20) / s) ((m12 + m21) / s) (s / 4)))"

definition plain_Window_create :: "WindowTraits \<Rightarrow> Window option" where
  "plain_Window_create wt =
     (if 0 < traits_width wt \<and> 0 < traits_height wt
      then Some \<lparr> window_traits = wt, clearColor = [0, 0, 0, 1] \<rparr>
      else None)"

definition plain_ext :: externals where
  "plain_ext =
     \<lparr> Q_to_AngAxis = plain_Q_to_AngAxis, Rotate = plain_Rotate, qprod = plain_qprod,
       Normalize = plain_Normalize, Get_A_quaternion = plain_Get_A_quaternion,
       DoStepDynamics = (\<lambda>dt sys. sys), Window_create = plain_Window_create,
       getEnvPaths = (\<lambda>var. []), double_quotient = (\<lambda>a b. a / b) \<rparr>"

text \<open>
  A system of one body at the origin, not rotated, with a colour and a unit box that is turned
  by half a turn about its own x axis.
\<close>

definition half_turn_x :: mat33 where
  "half_turn_x = Mat33 (Vec 1 0 0) (Vec 0 (- 1) 0) (Vec 0 0 (- 1))"

definition tilted_box :: ChAsset where
  "tilted_box = ChBoxShape \<lparr> Pos = Vec 0 0 0, Rot = half_turn_x \<rparr> (Vec 1 1 1)"

definition still_body :: ChBody where
  "still_body = \<lparr> frame_pos = Vec 0 0 0, frame_rot = Quat 1 0 0 0, assets = [0, 1] \<rparr>"

definition tilted_system :: ChSystem where
  "tilted_system =
     \<lparr> bodylist = [0], body_at = (\<lambda>b. still_body),
       asset_at = (\<lambda>i. if i = 0 then ChColorAsset \<lparr> col_R = 0, col_G = 1, col_B = 0, col_A = 1 \<rparr>
                        else tilted_box) \<rparr>"

definition tilted_app :: ChVSGApp where
  "tilted_app = ChVSGApp_new\<lparr>m_system := Some tilted_system, m_scenegraph := Some []\<rparr>"

definition scene_transforms :: "ChVSGApp \<Rightarrow> vsg_matrix ptr option list" where
  "scene_transforms a =
     (case m_scenegraph a of
        None \<Rightarrow> []
      | Some children \<Rightarrow>
          map (\<lambda>c. getValue_transform (child_values c) ''transform'') children)"

subsection \<open>The schedule of scene-graph updates\<close>

text \<open>
  The value of \<open>m_wait_counter\<close> after \<open>k\<close> calls of \<open>doTimeStep\<close> that started with the
  counter at 1, for the bound \<open>M\<close>.
\<close>

definition wait_phase :: "nat \<Rightarrow> nat \<Rightarrow> nat" where
  "wait_phase M k = (if M = 0 then 1 else k mod M + 1)"

text \<open>
  What the \<open>k\<close>-th call is expected to do, counting from 1: a dynamics step of size \<open>dt\<close>,
  followed by an update of the scene graph when \<open>k\<close> is a multiple of \<open>M\<close>.
\<close>

definition call_events :: "real \<Rightarrow> nat \<Rightarrow> nat \<Rightarrow> app_event list" where
  "call_events dt M k = StepDynamics dt # (if M dvd k then [SceneUpdate] else [])"

text \<open>A window that cannot be made, and an application that shows every second step.\<close>

definition slow_app :: ChVSGApp where
  "slow_app = ChVSGApp_new\<lparr>m_outputStep := 0.002\<rparr>"

text \<open>The application after a successful \<open>Initialize\<close>, and after some time steps.\<close>

definition initialized :: "ChVSGApp \<Rightarrow> ChVSGApp" where
  "initialized a =
     (case Initialize plain_ext 800 600 ''demo'' (Some tilted_system) a of
        Inr (r, a') \<Rightarrow> a'
      | Inl e \<Rightarrow> a)"

definition after_steps :: "nat \<Rightarrow> ChVSGApp \<Rightarrow> ChVSGApp" where
  "after_steps n a = (case doTimeSteps plain_ext n a of Inr a' \<Rightarrow> a' | Inl e \<Rightarrow> a)"

section \<open>ChIrrGUI: the Irrlicht GUI and its event receiver\<close>

subsection \<open>Events\<close>

text \<open>
  The key codes and GUI event types that \<open>OnEvent\<close> names, and one more constructor each
  for all the others. An event is a key event with the key and its \<open>PressedDown\<close> flag, a
  GUI event with its type and caller, or an event of another type.
\<close>

datatype EKEY_CODE =
    KEY_KEY_I | KEY_KEY_O | KEY_KEY_U | KEY_SPACE | KEY_F8 | KEY_F6 | KEY_F7 | KEY_F4
  | KEY_F3 | KEY_F2 | KEY_ESCAPE | KEY_F12 | KEY_OTHER nat

datatype EGUI_EVENT_TYPE = EGET_EDITBOX_ENTER | EGET_SCROLL_BAR_CHANGED | EGET_OTHER nat

text \<open>
  The caller of a GUI event: its id, the value \<open>atof\<close> reads from its text (for an edit
  box) and its position (for a scroll bar).
\<close>

record GUICaller =
  getID :: int
  getText_atof :: double
  getPos :: int

datatype SEvent =
    KeyInput EKEY_CODE bool
  | GUIEvent EGUI_EVENT_TYPE GUICaller
  | OtherEvent nat

subsection \<open>The GUI object\<close>

datatype gui_effect =
    WriteJSON string
  | WriteAsciiDump string
  | DumpSystemMatrices string

datatype gui_error = NullGUI

text \<open>
  The members of \<open>ChIrrGUI\<close> that \<open>OnEvent\<close> and the setters touch. A user receiver is a
  function of the event that answers whether it took the event; what else it does is a change
  of a user state \<open>'u\<close>. The utility flag of the visual system, the matrix-write switch of the
  physics system and the closing of the device are fields here; files written are collected
  in \<open>effects\<close>. The text of an edit box is empty or what \<open>sprintf\<close> prints for a value
  with the format \<open>%g\<close>. \<open>postprocess\<close> stands for the build option
  \<open>CHRONO_POSTPROCESS\<close>.
\<close>

datatype edit_text = EmptyText | Printf_g double

record 'u ChIrrGUI =
  m_user_receivers :: "(SEvent \<Rightarrow> 'u \<Rightarrow> bool \<times> 'u) list"
  show_explorer :: bool
  show_infos :: bool
  show_profiler :: bool
  modal_mode_n :: int
  modal_amplitude :: double
  modal_speed :: double
  symbolscale :: double
  camera_auto_rotate_speed :: real
  g_symbolscale :: edit_text
  g_modal_amplitude :: edit_text
  g_modal_speed :: edit_text
  utility_flag :: bool
  solver_matrix_write :: bool
  device_closed :: bool
  postprocess :: bool
  blender_save :: bool
  effects :: "gui_effect list"

text \<open>
  Modelled from the spec: \<open>ChMax\<close> is declared outside the sources. The specification reads
  it as the maximum of its two arguments; it is taken to be written the usual way, as
  \<open>a > b ? a : b\<close>, which is the larger of any two values that compare. Since a
  comparison with NaN is false, the second argument is returned when it is NaN.
\<close>

definition ChMax :: "double \<Rightarrow> double \<Rightarrow> double" where
  "ChMax a b = (if dless b a then a else b)"

definition SetSymbolscale :: "double \<Rightarrow> 'u ChIrrGUI \<Rightarrow> 'u ChIrrGUI" where
  "SetSymbolscale val g =
     (let g' = g\<lparr>symbolscale := ChMax (DNum (10 / 10 ^ 12)) val\<rparr>
      in g'\<lparr>g_symbolscale := Printf_g (symbolscale g')\<rparr>)"

definition SetModalAmplitude :: "double \<Rightarrow> 'u ChIrrGUI \<Rightarrow> 'u ChIrrGUI" where
  "SetModalAmplitude val g =
     (let g' = g\<lparr>modal_amplitude := ChMax (DNum 0.0) val\<rparr>
      in g'\<lparr>g_modal_amplitude := Printf_g (modal_amplitude g')\<rparr>)"

definition SetModalSpeed :: "double \<Rightarrow> 'u ChIrrGUI \<Rightarrow> 'u ChIrrGUI" where
  "SetModalSpeed val g =
     (let g' = g\<lparr>modal_speed := ChMax (DNum 0.0) val\<rparr>
      in g'\<lparr>g_modal_speed := Printf_g (modal_speed g')\<rparr>)"

definition AddUserEventReceiver ::
  "(SEvent \<Rightarrow> 'u \<Rightarrow> bool \<times> 'u) \<Rightarrow> 'u ChIrrGUI \<Rightarrow> 'u ChIrrGUI" where
  "AddUserEventReceiver receiver g = g\<lparr>m_user_receivers := m_user_receivers g @ [receiver]\<rparr>"

subsection \<open>OnEvent\<close>

text \<open>
  The loop over the user receivers: the first one that answers true ends \<open>OnEvent\<close> with
  true.
\<close>

fun offer_event :: "(SEvent \<Rightarrow> 'u \<Rightarrow> bool \<times> 'u) list \<Rightarrow> SEvent \<Rightarrow> 'u \<Rightarrow> bool \<times> 'u" where
  "offer_event [] event u = (False, u)"
| "offer_event (recv # rest) event u =
     (case recv event u of
        (True, u') \<Rightarrow> (True, u')
      | (False, u') \<Rightarrow> offer_event rest event u')"

text \<open>
  The \<open>switch\<close> over the key of a released key: the GUI after the case, or \<open>None\<close> for
  the \<open>default\<close> case, which breaks out of the \<open>switch\<close> without returning.
\<close>

fun key_released :: "EKEY_CODE \<Rightarrow> 'u ChIrrGUI \<Rightarrow> 'u ChIrrGUI option" where
  "key_released KEY_KEY_I g = Some (g\<lparr>show_infos := \<not> show_infos g\<rparr>)"
| "key_released KEY_KEY_O g = Some (g\<lparr>show_profiler := \<not> show_profiler g\<rparr>)"
| "key_released KEY_KEY_U g = Some (g\<lparr>show_explorer := \<not> show_explorer g\<rparr>)"
| "key_released KEY_SPACE g = Some (g\<lparr>utility_flag := \<not> utility_flag g\<rparr>)"
| "key_released KEY_F8 g =
     Some (g\<lparr>effects := effects g @ [WriteJSON ''dump.json'', WriteAsciiDump ''dump.txt'']\<rparr>)"
| "key_released KEY_F6 g = Some (g\<lparr>effects := effects g @ [DumpSystemMatrices ''dump_'']\<rparr>)"
| "key_released KEY_F7 g =
     (if \<not> solver_matrix_write g then Some (g\<lparr>solver_matrix_write := True\<rparr>)
      else Some (g\<lparr>solver_matrix_write := False\<rparr>))"
| "key_released KEY_F4 g =
     (if camera_auto_rotate_speed g \<le> 0 then Some (g\<lparr>camera_auto_rotate_speed := 0.02\<rparr>)
      else Some (g\<lparr>camera_auto_rotate_speed := camera_auto_rotate_speed g * 1.5\<rparr>))"
| "key_released KEY_F3 g = Some (g\<lparr>camera_auto_rotate_speed := 0\<rparr>)"
| "key_released KEY_F2 g =
     (if camera_auto_rotate_speed g \<ge> 0 then Some (g\<lparr>camera_auto_rotate_speed := - 0.02\<rparr>)
      else Some (g\<lparr>camera_auto_rotate_speed := camera_auto_rotate_speed g * 1.5\<rparr>))"
| "key_released KEY_ESCAPE g = Some (g\<lparr>device_closed := True\<rparr>)"
| "key_released KEY_F12 g =
     (if postprocess g
      then (if blender_save g = False then Some (g\<lparr>blender_save := True\<rparr>)
            else Some (g\<lparr>blender_save := False\<rparr>))
      else Some g)"
| "key_released (KEY_OTHER k) g = None"

text \<open>The keys that have a case of their own in the \<open>switch\<close>.\<close>

fun recognized_key :: "EKEY_CODE \<Rightarrow> bool" where
  "recognized_key (KEY_OTHER k) = False"
| "recognized_key key = True"

text \<open>
  The \<open>switch\<close> over the type of a GUI event and the id of its caller: the GUI after the
  case, or \<open>None\<close> when no case applies and the GUI is not touched.
\<close>

definition gui_event :: "EGUI_EVENT_TYPE \<Rightarrow> GUICaller \<Rightarrow> 'u ChIrrGUI \<Rightarrow> 'u ChIrrGUI option" where
  "gui_event ty caller g =
     (case ty of
        EGET_EDITBOX_ENTER \<Rightarrow>
          (if getID caller = 9921 then Some (SetSymbolscale (getText_atof caller) g)
           else if getID caller = 9927 then Some (SetModalAmplitude (getText_atof caller) g)
           else if getID caller = 9928 then Some (SetModalSpeed (getText_atof caller) g)
           else None)
      | EGET_SCROLL_BAR_CHANGED \<Rightarrow>
          (if getID caller = 9926 then Some (g\<lparr>modal_mode_n := getPos caller\<rparr>) else None)
      | EGET_OTHER k \<Rightarrow> None)"

text \<open>
  The part of \<open>OnEvent\<close> after the user receivers, for a receiver whose \<open>m_gui\<close> is not
  null: the answer and the GUI.
\<close>

definition builtin_event :: "SEvent \<Rightarrow> 'u ChIrrGUI \<Rightarrow> bool \<times> 'u ChIrrGUI" where
  "builtin_event event g =
     (case (case event of
              KeyInput key PressedDown \<Rightarrow> (if \<not> PressedDown then key_released key g else None)
            | _ \<Rightarrow> None) of
        Some g' \<Rightarrow> (True, g')
      | None \<Rightarrow>
          (case event of
             GUIEvent ty caller \<Rightarrow>
               (case gui_event ty caller g of Some g' \<Rightarrow> (False, g') | None \<Rightarrow> (False, g))
           | _ \<Rightarrow> (False, g)))"

text \<open>
  \<open>OnEvent\<close> of a receiver with the GUI pointer \<open>m_gui\<close>. Only the loop over the user
  receivers is guarded by \<open>if (m_gui)\<close>; with a null pointer every case that reads the GUI
  is an error.
\<close>

definition OnEvent ::
  "'u ChIrrGUI option \<Rightarrow> SEvent \<Rightarrow> 'u \<Rightarrow> gui_error + (bool \<times> 'u ChIrrGUI option \<times> 'u)" where
  "OnEvent m_gui event u =
     (case m_gui of
        Some g \<Rightarrow>
          (case offer_event (m_user_receivers g) event u of
             (True, u') \<Rightarrow> Inr (True, Some g, u')
           | (False, u') \<Rightarrow>
               (case builtin_event event g of (answer, g') \<Rightarrow> Inr (answer, Some g', u')))
      | None \<Rightarrow>
          (case event of
             KeyInput key PressedDown \<Rightarrow>
               (if \<not> PressedDown \<and> recognized_key key then Inl NullGUI
                else Inr (False, None, u))
           | GUIEvent ty caller \<Rightarrow>
               (if (ty = EGET_EDITBOX_ENTER \<and> getID caller \<in> {9921, 9927, 9928}) \<or>
                   (ty = EGET_SCROLL_BAR_CHANGED \<and> getID caller = 9926)
                then Inl NullGUI else Inr (False, None, u))
           | OtherEvent k \<Rightarrow> Inr (False, None, u)))"

text \<open>The constructor of \<open>ChIrrGUI\<close>.\<close>

definition ChIrrGUI_new :: "'u ChIrrGUI" where
  "ChIrrGUI_new =
     \<lparr> m_user_receivers = [], show_explorer = False, show_infos = False, show_profiler = False,
       modal_mode_n = 0, modal_amplitude = DNum 0.1, modal_speed = DNum 1,
       symbolscale = DNum 1, camera_auto_rotate_speed = 0, g_symbolscale = EmptyText,
       g_modal_amplitude = EmptyText, g_modal_speed = EmptyText,
       utility_flag = False, solver_matrix_write = False,
       device_closed = False, postprocess = False, blender_save = False, effects = [] \<rparr>"

text \<open>
  A user receiver that writes its number into a log, the user state, and gives a fixed answer;
  a GUI with three of them registered; a GUI with two that decline; an edit box with a negative
  number typed in, and one with the text \<open>nan\<close>.
\<close>

definition logging_receiver :: "nat \<Rightarrow> bool \<Rightarrow> SEvent \<Rightarrow> nat list \<Rightarrow> bool \<times> nat list" where
  "logging_receiver i answer event seen = (answer, seen @ [i])"

definition three_receivers_gui :: "nat list ChIrrGUI" where
  "three_receivers_gui =
     foldl (\<lambda>g r. AddUserEventReceiver r g) ChIrrGUI_new
       ([logging_receiver 1 False] @ logging_receiver 2 True # [logging_receiver 3 True])"

definition declining_gui :: "nat list ChIrrGUI" where
  "declining_gui =
     foldl (\<lambda>g r. AddUserEventReceiver r g) ChIrrGUI_new
       [logging_receiver 1 False, logging_receiver 2 False]"

definition box_minus_five :: "int \<Rightarrow> GUICaller" where
  "box_minus_five i = \<lparr> getID = i, getText_atof = DNum (- 5), getPos = 0 \<rparr>"

definition box_nan :: "int \<Rightarrow> GUICaller" where
  "box_nan i = \<lparr> getID = i, getText_atof = DNaN, getPos = 0 \<rparr>"

subsection \<open>What the setters are to keep\<close>

text \<open>
  A value is positive if it is greater than zero, and not negative if it is greater than or
  equal to zero; NaN is neither. An event brings a number if it is no GUI event or the text of
  its caller is not NaN.
\<close>

definition positive :: "double \<Rightarrow> bool" where
  "positive d \<longleftrightarrow> dless (DNum 0) d"

definition not_negative :: "double \<Rightarrow> bool" where
  "not_negative d \<longleftrightarrow> dless (DNum 0) d \<or> d = DNum 0"

fun brings_number :: "SEvent \<Rightarrow> bool" where
  "brings_number (GUIEvent ty caller) = (getText_atof caller \<noteq> DNaN)"
| "brings_number event = True"

section \<open>TrackShoeDoublePin: a track shoe read from JSON\<close>

subsection \<open>JSON values\<close>

text \<open>
  A parsed document. An object keeps its members in the order of the file; looking a name up
  finds the first member of that name. The accessors of the JSON library assert the type of
  the value they are used on, and \<open>operator[]\<close> asserts that the member exists; a failed
  assertion is the result \<open>None\<close>.
\<close>

datatype json =
    JNull
  | JBool bool
  | JInt int
  | JDouble real
  | JString string
  | JArray "json list"
  | JObject "(string \<times> json) list"

fun HasMember :: "string \<Rightarrow> json \<Rightarrow> bool option" where
  "HasMember name (JObject ms) = Some (map_of ms name \<noteq> None)"
| "HasMember name _ = None"

fun get_member :: "string \<Rightarrow> json \<Rightarrow> json option" where
  "get_member name (JObject ms) = map_of ms name"
| "get_member name _ = None"

fun GetDouble :: "json \<Rightarrow> real option" where
  "GetDouble (JInt i) = Some (of_int i)"
| "GetDouble (JDouble r) = Some r"
| "GetDouble _ = None"

fun GetInt :: "json \<Rightarrow> int option" where
  "GetInt (JInt i) = (if - (2 ^ 31) \<le> i \<and> i < 2 ^ 31 then Some i else None)"
| "GetInt _ = None"

fun GetString :: "json \<Rightarrow> string option" where
  "GetString (JString s) = Some s"
| "GetString _ = None"

fun IsArray :: "json \<Rightarrow> bool" where
  "IsArray (JArray xs) = True"
| "IsArray _ = False"

fun elements :: "json \<Rightarrow> json list option" where
  "elements (JArray xs) = Some xs"
| "elements _ = None"

text \<open>
  An \<open>assert\<close> of the track shoe code itself: checked, unless the build defines
  \<open>NDEBUG\<close>.
\<close>

definition chrono_assert :: "bool \<Rightarrow> bool \<Rightarrow> unit option" where
  "chrono_assert ndebug c = (if ndebug \<or> c then Some () else None)"

subsection \<open>The part\<close>

text \<open>
  A collision or visualization shape. The material index is \<open>None\<close> where the constructor
  is called without one and its default applies.
\<close>

record BoxShape =
  box_pos :: vec
  box_rot :: quat
  box_dims :: vec
  box_matID :: "int option"

record CylinderShape =
  cyl_pos :: vec
  cyl_rot :: quat
  cyl_radius :: real
  cyl_length :: real
  cyl_matID :: "int option"

text \<open>
  The helpers \<open>ReadVectorJSON\<close>, \<open>ReadQuaternionJSON\<close> and \<open>ReadMaterialInfoJSON\<close> and the
  method \<open>ChPart::Create\<close> of the base class are not among the sources; they are parameters,
  as is the build option \<open>NDEBUG\<close>. \<open>'mi\<close> is the type of a material description,
  \<open>'p\<close> what the base class keeps.
\<close>

record ('mi, 'p) json_readers =
  ReadVectorJSON :: "json \<Rightarrow> vec option"
  ReadQuaternionJSON :: "json \<Rightarrow> quat option"
  ReadMaterialInfoJSON :: "json \<Rightarrow> 'mi option"
  ChPart_Create :: "json \<Rightarrow> 'p \<Rightarrow> 'p option"
  NDEBUG :: bool

record ('mi, 'p) TrackShoeDoublePin =
  part_base :: 'p
  m_shoe_length :: real
  m_shoe_width :: real
  m_shoe_height :: real
  m_shoe_mass :: real
  m_shoe_inertia :: vec
  m_connector_radius :: real
  m_connector_length :: real
  m_connector_width :: real
  m_connector_mass :: real
  m_connector_inertia :: vec
  m_cyl_mat_info :: "'mi option"
  m_shoe_mat_info :: "'mi list"
  m_coll_boxes :: "BoxShape list"
  m_coll_cylinders :: "CylinderShape list"
  m_vis_boxes :: "BoxShape list"
  m_vis_cylinders :: "CylinderShape list"
  m_has_mesh :: bool
  m_meshFile :: string

subsection \<open>Create\<close>

text \<open>The loop over \<open>"Shoe Materials"\<close>.\<close>

fun read_materials :: "('mi, 'p) json_readers \<Rightarrow> json list \<Rightarrow> 'mi list \<Rightarrow> 'mi list option" where
  "read_materials rd [] infos = Some infos"
| "read_materials rd (m # ms) infos =
     (case ReadMaterialInfoJSON rd m of
        None \<Rightarrow> None
      | Some minfo \<Rightarrow> read_materials rd ms (infos @ [minfo]))"

text \<open>A box and a cylinder read from a shape entry, with the material index given.\<close>

definition read_box :: "('mi, 'p) json_readers \<Rightarrow> json \<Rightarrow> int option \<Rightarrow> BoxShape option" where
  "read_box rd shape matID =
     do {
       pos \<leftarrow> get_member ''Location'' shape \<bind> ReadVectorJSON rd;
       rot \<leftarrow> get_member ''Orientation'' shape \<bind> ReadQuaternionJSON rd;
       dims \<leftarrow> get_member ''Dimensions'' shape \<bind> ReadVectorJSON rd;
       Some \<lparr> box_pos = pos, box_rot = rot, box_dims = dims, box_matID = matID \<rparr>
     }"

definition read_cylinder ::
  "('mi, 'p) json_readers \<Rightarrow> json \<Rightarrow> int option \<Rightarrow> CylinderShape option" where
  "read_cylinder rd shape matID =
     do {
       pos \<leftarrow> get_member ''Location'' shape \<bind> ReadVectorJSON rd;
       rot \<leftarrow> get_member ''Orientation'' shape \<bind> ReadQuaternionJSON rd;
       radius \<leftarrow> get_member ''Radius'' shape \<bind> GetDouble;
       len \<leftarrow> get_member ''Length'' shape \<bind> GetDouble;
       Some \<lparr> cyl_pos = pos, cyl_rot = rot, cyl_radius = radius, cyl_length = len,
              cyl_matID = matID \<rparr>
     }"

text \<open>The loop over \<open>"Shoe Shapes"\<close>, with the number of materials for the assertion.\<close>

fun read_coll_shapes ::
  "('mi, 'p) json_readers \<Rightarrow> int \<Rightarrow> json list \<Rightarrow> ('mi, 'p) TrackShoeDoublePin \<Rightarrow>
   ('mi, 'p) TrackShoeDoublePin option" where
  "read_coll_shapes rd num_mats [] p = Some p"
| "read_coll_shapes rd num_mats (shape # rest) p =
     do {
       ty \<leftarrow> get_member ''Type'' shape \<bind> GetString;
       matID \<leftarrow> get_member ''Material Index'' shape \<bind> GetInt;
       chrono_assert (NDEBUG rd) (matID \<ge> 0 \<and> matID < num_mats);
       p' \<leftarrow> (if ty = ''BOX''
              then do {
                box \<leftarrow> read_box rd shape (Some matID);
                Some (p\<lparr>m_coll_boxes := m_coll_boxes p @ [box]\<rparr>)
              }
              else if ty = ''CYLINDER''
              then do {
                cyl \<leftarrow> read_cylinder rd shape (Some matID);
                Some (p\<lparr>m_coll_cylinders := m_coll_cylinders p @ [cyl]\<rparr>)
              }
              else Some p);
       read_coll_shapes rd num_mats rest p'
     }"

text \<open>The loop over \<open>"Primitives"\<close> of the visualization.\<close>

fun read_vis_shapes ::
  "('mi, 'p) json_readers \<Rightarrow> json list \<Rightarrow> ('mi, 'p) TrackShoeDoublePin \<Rightarrow>
   ('mi, 'p) TrackShoeDoublePin option" where
  "read_vis_shapes rd [] p = Some p"
| "read_vis_shapes rd (shape # rest) p =
     do {
       ty \<leftarrow> get_member ''Type'' shape \<bind> GetString;
       p' \<leftarrow> (if ty = ''BOX''
              then do {
                box \<leftarrow> read_box rd shape None;
                Some (p\<lparr>m_vis_boxes := m_vis_boxes p @ [box]\<rparr>)
              }
              else if ty = ''CYLINDER''
              then do {
                cyl \<leftarrow> read_cylinder rd shape None;
                Some (p\<lparr>m_vis_cylinders := m_vis_cylinders p @ [cyl]\<rparr>)
              }
              else Some p);
       read_vis_shapes rd rest p'
     }"

text \<open>The part of \<open>Create\<close> that reads the \<open>"Shoe"\<close> and \<open>"Connector"\<close> objects.\<close>

definition read_bodies ::
  "('mi, 'p) json_readers \<Rightarrow> json \<Rightarrow> ('mi, 'p) TrackShoeDoublePin \<Rightarrow>
   ('mi, 'p) TrackShoeDoublePin option" where
  "read_bodies rd d p =
     do {
       has_shoe \<leftarrow> HasMember ''Shoe'' d;
       chrono_assert (NDEBUG rd) has_shoe;
       shoe \<leftarrow> get_member ''Shoe'' d;
       shoe_length \<leftarrow> get_member ''Length'' shoe \<bind> GetDouble;
       shoe_width \<leftarrow> get_member ''Width'' shoe \<bind> GetDouble;
       shoe_height \<leftarrow> get_member ''Height'' shoe \<bind> GetDouble;
       shoe_mass \<leftarrow> get_member ''Mass'' shoe \<bind> GetDouble;
       shoe_inertia \<leftarrow> get_member ''Inertia'' shoe \<bind> ReadVectorJSON rd;
       has_connector \<leftarrow> HasMember ''Connector'' d;
       chrono_assert (NDEBUG rd) has_connector;
       connector \<leftarrow> get_member ''Connector'' d;
       connector_radius \<leftarrow> get_member ''Radius'' connector \<bind> GetDouble;
       connector_length \<leftarrow> get_member ''Length'' connector \<bind> GetDouble;
       connector_width \<leftarrow> get_member ''Width'' connector \<bind> GetDouble;
       connector_mass \<leftarrow> get_member ''Mass'' connector \<bind> GetDouble;
       connector_inertia \<leftarrow> get_member ''Inertia'' connector \<bind> ReadVectorJSON rd;
       Some (p\<lparr>m_shoe_length := shoe_length, m_shoe_width := shoe_width,
               m_shoe_height := shoe_height, m_shoe_mass := shoe_mass,
               m_shoe_inertia := shoe_inertia,
               m_connector_radius := connector_radius, m_connector_length := connector_length,
               m_connector_width := connector_width, m_connector_mass := connector_mass,
               m_connector_inertia := connector_inertia\<rparr>)
     }"

text \<open>The part that reads the \<open>"Contact"\<close> object: materials and collision shapes.\<close>

definition read_contact ::
  "('mi, 'p) json_readers \<Rightarrow> json \<Rightarrow> ('mi, 'p) TrackShoeDoublePin \<Rightarrow>
   ('mi, 'p) TrackShoeDoublePin option" where
  "read_contact rd d p =
     do {
       has_contact \<leftarrow> HasMember ''Contact'' d;
       chrono_assert (NDEBUG rd) has_contact;
       contact \<leftarrow> get_member ''Contact'' d;
       has_cm \<leftarrow> HasMember ''Connector Material'' contact;
       chrono_assert (NDEBUG rd) has_cm;
       has_sm \<leftarrow> HasMember ''Shoe Materials'' contact;
       chrono_assert (NDEBUG rd) has_sm;
       has_ss \<leftarrow> HasMember ''Shoe Shapes'' contact;
       chrono_assert (NDEBUG rd) has_ss;
       shoe_materials \<leftarrow> get_member ''Shoe Materials'' contact;
       chrono_assert (NDEBUG rd) (IsArray shoe_materials);
       shoe_shapes \<leftarrow> get_member ''Shoe Shapes'' contact;
       chrono_assert (NDEBUG rd) (IsArray shoe_shapes);
       cyl_mat_info \<leftarrow> get_member ''Connector Material'' contact \<bind> ReadMaterialInfoJSON rd;
       mats \<leftarrow> elements shoe_materials;
       infos \<leftarrow> read_materials rd mats (m_shoe_mat_info p);
       shapes \<leftarrow> elements shoe_shapes;
       read_coll_shapes rd (int (length mats)) shapes
         (p\<lparr>m_cyl_mat_info := Some cyl_mat_info, m_shoe_mat_info := infos\<rparr>)
     }"

text \<open>The part that reads the visualization data, or takes the collision shapes.\<close>

definition read_visualization ::
  "('mi, 'p) json_readers \<Rightarrow> json \<Rightarrow> ('mi, 'p) TrackShoeDoublePin \<Rightarrow>
   ('mi, 'p) TrackShoeDoublePin option" where
  "read_visualization rd d p =
     do {
       has_vis \<leftarrow> HasMember ''Visualization'' d;
       if has_vis
       then do {
         vis \<leftarrow> get_member ''Visualization'' d;
         has_mesh \<leftarrow> HasMember ''Mesh'' vis;
         p1 \<leftarrow> (if has_mesh
                then do {
                  file \<leftarrow> get_member ''Mesh'' vis \<bind> GetString;
                  Some (p\<lparr>m_meshFile := file, m_has_mesh := True\<rparr>)
                }
                else Some p);
         has_prim \<leftarrow> HasMember ''Primitives'' vis;
         if has_prim
         then do {
           prims \<leftarrow> get_member ''Primitives'' vis;
           chrono_assert (NDEBUG rd) (IsArray prims);
           shapes \<leftarrow> elements prims;
           read_vis_shapes rd shapes p1
         }
         else Some p1
       }
       else Some (p\<lparr>m_vis_boxes := m_vis_boxes p @ m_coll_boxes p,
                    m_vis_cylinders := m_vis_cylinders p @ m_coll_cylinders p\<rparr>)
     }"

definition Create ::
  "('mi, 'p) json_readers \<Rightarrow> json \<Rightarrow> ('mi, 'p) TrackShoeDoublePin \<Rightarrow>
   ('mi, 'p) TrackShoeDoublePin option" where
  "Create rd d p =
     do {
       base \<leftarrow> ChPart_Create rd d (part_base p);
       p1 \<leftarrow> read_bodies rd d (p\<lparr>part_base := base\<rparr>);
       p2 \<leftarrow> read_contact rd d p1;
       read_visualization rd d p2
     }"

subsection \<open>What the document says\<close>

text \<open>The type of a shape entry and its material index, as the loops read them.\<close>

definition shape_type :: "json \<Rightarrow> string option" where
  "shape_type shape = get_member ''Type'' shape \<bind> GetString"

definition shape_material :: "json \<Rightarrow> int option" where
  "shape_material shape = get_member ''Material Index'' shape \<bind> GetInt"

text \<open>The entries of \<open>"Primitives"\<close> of a visualization object, none if it has no such member.\<close>

definition primitives :: "json \<Rightarrow> json list" where
  "primitives vis =
     (case get_member ''Primitives'' vis of
        None \<Rightarrow> []
      | Some prims \<Rightarrow> (case elements prims of None \<Rightarrow> [] | Some shapes \<Rightarrow> shapes))"

subsection \<open>A reader instance and two documents\<close>

text \<open>
  Values for the parameters, to run \<open>Create\<close> on a document: a vector is an array of three
  numbers, a quaternion an array of four, a material description is kept as the JSON value it
  is read from, the base class keeps nothing, and assertions are checked.
\<close>

fun plain_ReadVectorJSON :: "json \<Rightarrow> vec option" where
  "plain_ReadVectorJSON (JArray [a, b, c]) =
     do { x \<leftarrow> GetDouble a; y \<leftarrow> GetDouble b; z \<leftarrow> GetDouble c; Some (Vec x y z) }"
| "plain_ReadVectorJSON _ = None"

fun plain_ReadQuaternionJSON :: "json \<Rightarrow> quat option" where
  "plain_ReadQuaternionJSON (JArray [a, b, c, d]) =
     do { q0 \<leftarrow> GetDouble a; q1 \<leftarrow> GetDouble b; q2 \<leftarrow> GetDouble c; q3 \<leftarrow> GetDouble d;
          Some (Quat q0 q1 q2 q3) }"
| "plain_ReadQuaternionJSON _ = None"

definition plain_readers :: "(json, unit) json_readers" where
  "plain_readers =
     \<lparr> ReadVectorJSON = plain_ReadVectorJSON, ReadQuaternionJSON = plain_ReadQuaternionJSON,
       ReadMaterialInfoJSON = Some, ChPart_Create = (\<lambda>d base. Some base), NDEBUG = False \<rparr>"

text \<open>The object as the constructor leaves it before it calls \<open>Create\<close>.\<close>

definition TrackShoeDoublePin_new :: "'p \<Rightarrow> ('mi, 'p) TrackShoeDoublePin" where
  "TrackShoeDoublePin_new base =
     \<lparr> part_base = base, m_shoe_length = 0, m_shoe_width = 0, m_shoe_height = 0,
       m_shoe_mass = 0, m_shoe_inertia = Vec 0 0 0, m_connector_radius = 0,
       m_connector_length = 0, m_connector_width = 0, m_connector_mass = 0,
       m_connector_inertia = Vec 0 0 0, m_cyl_mat_info = None, m_shoe_mat_info = [],
       m_coll_boxes = [], m_coll_cylinders = [], m_vis_boxes = [], m_vis_cylinders = [],
       m_has_mesh = False, m_meshFile = [] \<rparr>"

definition shoe_json :: json where
  "shoe_json =
     JObject [(''Length'', JDouble 0.5), (''Width'', JInt 2), (''Height'', JDouble 0.25),
              (''Mass'', JInt 18), (''Inertia'', JArray [JInt 1, JInt 2, JInt 3])]"

definition connector_json :: json where
  "connector_json =
     JObject [(''Radius'', JDouble 0.5), (''Length'', JInt 3), (''Width'', JInt 4),
              (''Mass'', JInt 2), (''Inertia'', JArray [JInt 4, JInt 5, JInt 6])]"

definition box_json :: json where
  "box_json =
     JObject [(''Type'', JString ''BOX''), (''Material Index'', JInt 0),
              (''Location'', JArray [JInt 0, JInt 0, JInt 0]),
              (''Orientation'', JArray [JInt 1, JInt 0, JInt 0, JInt 0]),
              (''Dimensions'', JArray [JInt 1, JInt 2, JInt 3])]"

definition cylinder_json :: json where
  "cylinder_json =
     JObject [(''Type'', JString ''CYLINDER''), (''Material Index'', JInt 1),
              (''Location'', JArray [JInt 1, JInt 0, JInt 0]),
              (''Orientation'', JArray [JInt 1, JInt 0, JInt 0, JInt 0]),
              (''Radius'', JInt 2), (''Length'', JInt 5)]"

definition sphere_json :: json where
  "sphere_json = JObject [(''Type'', JString ''SPHERE''), (''Material Index'', JInt 1)]"

definition contact_json :: json where
  "contact_json =
     JObject [(''Connector Material'', JString ''steel''),
              (''Shoe Materials'', JArray [JString ''rubber'', JString ''steel'']),
              (''Shoe Shapes'', JArray [box_json, sphere_json, cylinder_json])]"

text \<open>A document without \<open>"Visualization"\<close>, and one with a mesh and one primitive.\<close>

definition plain_shoe_doc :: json where
  "plain_shoe_doc =
     JObject [(''Shoe'', shoe_json), (''Connector'', connector_json),
              (''Contact'', contact_json)]"

definition meshed_shoe_doc :: json where
  "meshed_shoe_doc =
     JObject [(''Shoe'', shoe_json), (''Connector'', connector_json),
              (''Contact'', contact_json),
              (''Visualization'',
                 JObject [(''Mesh'', JString ''shoe.obj''),
                          (''Primitives'', JArray [cylinder_json])])]"

definition created :: "json \<Rightarrow> (json, unit) TrackShoeDoublePin" where
  "created d =
     (case Create plain_readers d (TrackShoeDoublePin_new ()) of
        Some p \<Rightarrow> p
      | None \<Rightarrow> TrackShoeDoublePin_new ())"

section \<open>ChVehicleCosimTireNodeRigid: vertex areas of the tire mesh\<close>

subsection \<open>The mesh\<close>

text \<open>
  The class \<open>RigidTire\<close> is not among the sources. Its contact mesh is taken as the list of
  vertex positions and the list of triangles, each a \<open>ChVector<int>\<close> of three vertex
  indices; the numbers of vertices and triangles are the lengths of the two lists.
\<close>

datatype ivec = IVec (ix: int) (iy: int) (iz: int)

record MeshData =
  verts :: "vec list"
  idx_verts :: "ivec list"

definition mesh_nv :: "MeshData \<Rightarrow> nat" where
  "mesh_nv m = length (verts m)"

definition mesh_nt :: "MeshData \<Rightarrow> nat" where
  "mesh_nt m = length (idx_verts m)"

datatype tire_error = IndexOutOfRange | ZeroDivisor

record TireNode =
  m_mesh_data :: MeshData
  m_adjElements :: "nat list list"
  m_vertexArea :: "real list"

subsection \<open>InitializeTire\<close>

text \<open>An \<open>int\<close> used as index into a vector of \<open>n\<close> elements is valid from 0 to \<open>n - 1\<close>.\<close>

definition valid_index :: "int \<Rightarrow> nat \<Rightarrow> bool" where
  "valid_index i n \<longleftrightarrow> 0 \<le> i \<and> i < int n"

text \<open>\<open>m_adjElements[iv].push_back(ie)\<close>\<close>

definition push_adj :: "nat list list \<Rightarrow> nat \<Rightarrow> nat \<Rightarrow> nat list list" where
  "push_adj adj iv ie = adj[iv := adj ! iv @ [ie]]"

text \<open>
  The body of the first loop for the triangle \<open>ie\<close>: its area goes into \<open>triArea[ie]\<close>, and
  \<open>ie\<close> is appended to the list of each of its three vertices, one after the other.
\<close>

definition triangle_step ::
  "vec list \<Rightarrow> ivec \<Rightarrow> nat \<Rightarrow> real list \<times> nat list list \<Rightarrow> tire_error + (real list \<times> nat list list)" where
  "triangle_step vs t ie st =
     (if valid_index (ix t) (length vs) \<and> valid_index (iy t) (length vs) \<and>
         valid_index (iz t) (length vs) \<and> ie < length (fst st) \<and>
         nat (ix t) < length (snd st) \<and> nat (iy t) < length (snd st) \<and>
         nat (iz t) < length (snd st)
      then
        (let iv1 = nat (ix t); iv2 = nat (iy t); iv3 = nat (iz t);
             v1 = vs ! iv1; v2 = vs ! iv2; v3 = vs ! iv3
         in Inr ((fst st)[ie := 0.5 * Length (Vcross (vsub v2 v1) (vsub v3 v1))],
                 push_adj (push_adj (push_adj (snd st) iv1 ie) iv2 ie) iv3 ie))
      else Inl IndexOutOfRange)"

fun triangle_loop ::
  "vec list \<Rightarrow> ivec list \<Rightarrow> nat \<Rightarrow> real list \<times> nat list list \<Rightarrow> tire_error + (real list \<times> nat list list)" where
  "triangle_loop vs [] ie st = Inr st"
| "triangle_loop vs (t # ts) ie st =
     (case triangle_step vs t ie st of
        Inl e \<Rightarrow> Inl e
      | Inr st' \<Rightarrow> triangle_loop vs ts (Suc ie) st')"

text \<open>
  The second loop: for each vertex the areas of the triangles in its list are added up and
  divided by the length of the list. A zero divisor yields no number and is an error here.
\<close>

fun vertex_loop :: "real list \<Rightarrow> nat list list \<Rightarrow> tire_error + real list" where
  "vertex_loop triArea [] = Inr []"
| "vertex_loop triArea (adj_in # rest) =
     (if length adj_in = 0 then Inl ZeroDivisor
      else (case vertex_loop triArea rest of
              Inl e \<Rightarrow> Inl e
            | Inr areas \<Rightarrow>
                Inr (foldl (\<lambda>area ie. area + triArea ! ie) 0 adj_in / real (length adj_in)
                     # areas)))"

text \<open>
  \<open>InitializeTire\<close> for a new node: \<open>m_adjElements\<close> is resized to \<open>nv\<close> empty lists and
  \<open>triArea\<close> is a vector of \<open>nt\<close> numbers.
\<close>

definition InitializeTire :: "MeshData \<Rightarrow> tire_error + TireNode" where
  "InitializeTire m =
     (case triangle_loop (verts m) (idx_verts m) 0
             (replicate (mesh_nt m) 0, replicate (mesh_nv m) []) of
        Inl e \<Rightarrow> Inl e
      | Inr (triArea, adj) \<Rightarrow>
          (case vertex_loop triArea adj of
             Inl e \<Rightarrow> Inl e
           | Inr areas \<Rightarrow>
               Inr \<lparr> m_mesh_data = m, m_adjElements = adj, m_vertexArea = areas \<rparr>))"

subsection \<open>Triangles at a vertex\<close>

text \<open>The area of a triangle: half the length of the cross product of two of its edges.\<close>

definition tri_area :: "vec list \<Rightarrow> ivec \<Rightarrow> real" where
  "tri_area vs t =
     0.5 * Length (Vcross (vsub (vs ! nat (iy t)) (vs ! nat (ix t)))
                          (vsub (vs ! nat (iz t)) (vs ! nat (ix t))))"

text \<open>How many corners of a triangle are the vertex \<open>v\<close>.\<close>

definition corner_count :: "ivec \<Rightarrow> nat \<Rightarrow> nat" where
  "corner_count t v =
     (if ix t = int v then 1 else 0) + (if iy t = int v then 1 else 0) +
     (if iz t = int v then 1 else 0)"

text \<open>
  The triangles adjacent to \<open>v\<close>, in order: once each, and once for each corner that is
  \<open>v\<close>.
\<close>

definition adjacent :: "ivec list \<Rightarrow> nat \<Rightarrow> nat list" where
  "adjacent ts v = filter (\<lambda>ie. 0 < corner_count (ts ! ie) v) [0 ..< length ts]"

definition corner_entries :: "ivec list \<Rightarrow> nat \<Rightarrow> nat list" where
  "corner_entries ts v =
     concat (map (\<lambda>ie. replicate (corner_count (ts ! ie) v) ie) [0 ..< length ts])"

text \<open>The mean of the areas of a list of triangles.\<close>

definition mean_area :: "MeshData \<Rightarrow> nat list \<Rightarrow> real" where
  "mean_area m ies =
     (\<Sum>ie \<leftarrow> ies. tri_area (verts m) (idx_verts m ! ie)) / real (length ies)"

text \<open>A mesh is well formed if its triangles name vertices of the mesh.\<close>

definition indices_valid :: "MeshData \<Rightarrow> bool" where
  "indices_valid m \<longleftrightarrow>
     list_all (\<lambda>t. valid_index (ix t) (mesh_nv m) \<and> valid_index (iy t) (mesh_nv m) \<and>
                   valid_index (iz t) (mesh_nv m)) (idx_verts m)"

definition all_referenced :: "MeshData \<Rightarrow> bool" where
  "all_referenced m \<longleftrightarrow>
     list_all (\<lambda>v. list_ex (\<lambda>t. 0 < corner_count t v) (idx_verts m)) [0 ..< mesh_nv m]"

definition corners_distinct :: "MeshData \<Rightarrow> bool" where
  "corners_distinct m \<longleftrightarrow>
     list_all (\<lambda>t. ix t \<noteq> iy t \<and> iy t \<noteq> iz t \<and> ix t \<noteq> iz t) (idx_verts m)"

text \<open>
  Three vertices and two triangles, the second with the corner 0 twice; and the first
  triangle alone with a fourth vertex that no triangle uses.
\<close>

definition folded_mesh :: MeshData where
  "folded_mesh =
     \<lparr> verts = [Vec 0 0 0, Vec 1 0 0, Vec 0 1 0], idx_verts = [IVec 0 1 2, IVec 0 0 1] \<rparr>"

definition loose_vertex_mesh :: MeshData where
  "loose_vertex_mesh =
     \<lparr> verts = [Vec 0 0 0, Vec 1 0 0, Vec 0 1 0, Vec 5 5 5], idx_verts = [IVec 0 1 2] \<rparr>"

definition one_triangle_mesh :: MeshData where
  "one_triangle_mesh =
     \<lparr> verts = [Vec 0 0 0, Vec 1 0 0, Vec 0 1 0], idx_verts = [IVec 0 1 2] \<rparr>"

section \<open>Results\<close>

subsection \<open>GetTransform\<close>

lemma GetTransform_loop_find:
  "GetTransform_loop cs body asset acc =
     (case find (well_shaped_for body asset) cs of
        None \<Rightarrow> acc
      | Some myNode \<Rightarrow> the (getValue_transform myNode ''transform''))"
  by (induction cs) (auto simp: well_shaped_for_def carries_pair_def Let_def split: option.splits)

text \<open>
  C1 (as stated, refuted). With an ill-shaped first child and a well-shaped second child for
  the same body and asset, \<open>GetTransform\<close> returns the second child's transform, while the
  first child that carries the pair stores no transform at all.
\<close>

theorem GetTransform_first_pair_counterexample:
  "GetTransform [ill_shaped_child, shaped_child] (Ref 1) (Ref 1) = Ref 7 \<and>
   find (carries_pair (Ref 1) (Ref 1)) [ill_shaped_child, shaped_child] = Some ill_shaped_child \<and>
   getValue_transform ill_shaped_child ''transform'' = None \<and>
   getValue_transform shaped_child ''transform'' = Some (Ref 7) \<and>
   spec_GetTransform [ill_shaped_child, shaped_child] (Ref 1) (Ref 1) = Null"
  by (simp add: GetTransform_def spec_GetTransform_def carries_pair_def ill_shaped_child_def
      shaped_child_def getValue_body_def getValue_asset_def getValue_transform_def)

text \<open>
  C1 (amended). \<open>GetTransform\<close> searches the children in index order and returns the
  \<open>"transform"\<close> value of the first child that stores the given body under \<open>"bodyPtr"\<close>, the
  given asset under \<open>"assetPtr"\<close> and some value under \<open>"transform"\<close>; when there is no such
  child it returns the null reference.
\<close>

theorem GetTransform_first_well_shaped:
  "GetTransform children body asset =
     (case find (well_shaped_for body asset) children of
        None \<Rightarrow> Null
      | Some myNode \<Rightarrow> the (getValue_transform myNode ''transform''))"
  by (simp add: GetTransform_def GetTransform_loop_find)

subsection \<open>BuildSceneGraph\<close>

lemma add_asset_nodes_append:
  "add_asset_nodes ext sys body material as children =
     children @ concat (map (\<lambda>asset.
        case shape_pose ext (frame_pos (body_at sys body)) (frame_rot (body_at sys body))
               (asset_at sys asset) of
          None \<Rightarrow> []
        | Some (shape, transform) \<Rightarrow> [createVSGNode shape body asset transform material]) as)"
  by (induction as arbitrary: children) (auto split: option.splits)

lemma child_triple_createVSGNode:
  "child_triple (createVSGNode shape body asset transform material) =
     (Some (Ref body), Some (Ref asset), Some (Ref transform))"
  by (simp add: child_triple_def createVSGNode_def getValue_body_def getValue_asset_def
      getValue_transform_def)

lemma node_of_asset_triple:
  "map child_triple
     (case shape_pose ext (frame_pos b) (frame_rot b) asset of
        None \<Rightarrow> []
      | Some (shape, transform) \<Rightarrow> [createVSGNode shape body a transform material]) =
   (if is_shape asset then [(Some (Ref body), Some (Ref a), expected_matrix ext b asset)] else [])"
  by (cases asset)
     (simp_all add: child_triple_createVSGNode expected_matrix_def pose_matrix_def
       composed_pose_def Let_def split_beta)

lemma add_asset_nodes_from_empty:
  "add_asset_nodes ext sys body material as children =
     children @ add_asset_nodes ext sys body material as []"
  by (simp add: add_asset_nodes_append [of ext sys body material as children]
      add_asset_nodes_append [of ext sys body material as "[]"])

lemma add_body_nodes_append:
  "add_body_nodes ext sys bodies children =
     children @ concat (map (\<lambda>body.
        add_asset_nodes ext sys body
          (chosen_material (foldl scan_asset no_looks (map (asset_at sys) (assets (body_at sys body)))))
          (assets (body_at sys body)) []) bodies)"
proof (induction bodies arbitrary: children)
  case Nil
  show ?case by simp
next
  case (Cons body bodies)
  show ?case
    using add_asset_nodes_from_empty [of ext sys body _ "assets (body_at sys body)" children]
    by (simp add: Cons.IH)
qed

lemma asset_triples:
  "map child_triple (add_asset_nodes ext sys body material as []) =
     [(Some (Ref body), Some (Ref asset), expected_matrix ext (body_at sys body) (asset_at sys asset)).
        asset \<leftarrow> as, is_shape (asset_at sys asset)]"
  by (simp add: add_asset_nodes_append map_concat comp_def node_of_asset_triple)

lemma body_triples:
  "map child_triple (add_body_nodes ext sys bodies []) =
     [(Some (Ref body), Some (Ref asset), expected_matrix ext (body_at sys body) (asset_at sys asset)).
        body \<leftarrow> bodies, asset \<leftarrow> assets (body_at sys body), is_shape (asset_at sys asset)]"
  by (simp add: add_body_nodes_append [where children = "[]"] map_concat comp_def asset_triples)

text \<open>
  C2 (amended). \<open>BuildSceneGraph\<close> adds, for every body of the body list in order and
  for every asset of that body that is a box, sphere, ellipsoid or cylinder shape, exactly one
  child, which carries the body, the asset and a transform; the transform is built from the
  position of the body frame plus the asset position rotated by the body rotation, from angle
  and axis of the normalised product of the body rotation with the rotation of the asset
  itself, and from the size of the shape. Nothing else is added.
\<close>

theorem BuildSceneGraph_children:
  assumes "m_system a = Some sys" and "m_scenegraph a = Some children"
  shows "\<exists>added.
           BuildSceneGraph ext a =
             Inr (a\<lparr>m_scenegraph := Some (children @ added), m_build_graph := False\<rparr>) \<and>
           map child_triple added =
             [(Some (Ref body), Some (Ref asset),
               expected_matrix ext (body_at sys body) (asset_at sys asset)).
                body \<leftarrow> bodylist sys, asset \<leftarrow> assets (body_at sys body),
                is_shape (asset_at sys asset)]"
proof -
  let ?added = "add_body_nodes ext sys (bodylist sys) []"
  have "add_body_nodes ext sys (bodylist sys) children = children @ ?added"
    using add_body_nodes_append [of ext sys "bodylist sys" children]
          add_body_nodes_append [of ext sys "bodylist sys" "[]"] by simp
  then have "BuildSceneGraph ext a =
      Inr (a\<lparr>m_scenegraph := Some (children @ ?added), m_build_graph := False\<rparr>)"
    using assms by (simp add: BuildSceneGraph_def)
  then show ?thesis using body_triples [of ext sys "bodylist sys"] by blast
qed

text \<open>
  C2 (as stated, refuted). For a box turned by half a turn about its x axis on a body that is
  not rotated, the node gets the angle \<open>pi\<close>, while angle and axis of the rotation of the
  body alone give the angle \<open>0\<close>.
\<close>

theorem BuildSceneGraph_body_rotation_counterexample:
  "map_sum id scene_transforms (BuildSceneGraph plain_ext tilted_app) =
     Inr [Some (Ref \<lparr> translate = Vec 0 0 0, rotate_angle = pi, rotate_axis = Vec 1 0 0,
                      scale_by = Vec 1 1 1 \<rparr>)] \<and>
   spec_pose plain_ext still_body \<lparr> Pos = Vec 0 0 0, Rot = half_turn_x \<rparr> (Vec 1 1 1) =
     \<lparr> translate = Vec 0 0 0, rotate_angle = 0, rotate_axis = Vec 1 0 0, scale_by = Vec 1 1 1 \<rparr>"
  by (simp add: BuildSceneGraph_def tilted_app_def ChVSGApp_new_def tilted_system_def
      still_body_def tilted_box_def half_turn_x_def scene_transforms_def plain_ext_def
      pose_matrix_def createVSGNode_def getValue_transform_def spec_pose_def
      plain_Q_to_AngAxis_def plain_Rotate_def plain_qprod_def plain_Normalize_def
      plain_Get_A_quaternion_def vadd_def Let_def)

text \<open>The system with the tilted box: one child, for the box, with the angle \<open>pi\<close>.\<close>

theorem BuildSceneGraph_children_witness:
  "m_system tilted_app = Some tilted_system \<and> m_scenegraph tilted_app = Some [] \<and>
   (\<exists>added.
      BuildSceneGraph plain_ext tilted_app =
        Inr (tilted_app\<lparr>m_scenegraph := Some ([] @ added), m_build_graph := False\<rparr>) \<and>
      map child_triple added =
        [(Some (Ref 0), Some (Ref 1),
          Some (Ref \<lparr> translate = Vec 0 0 0, rotate_angle = pi, rotate_axis = Vec 1 0 0,
                      scale_by = Vec 1 1 1 \<rparr>))])"
proof -
  have h1: "m_system tilted_app = Some tilted_system"
    and h2: "m_scenegraph tilted_app = Some []"
    by (simp_all add: tilted_app_def)
  have e: "[(Some (Ref body), Some (Ref asset),
               expected_matrix plain_ext (body_at tilted_system body) (asset_at tilted_system asset)).
                body \<leftarrow> bodylist tilted_system, asset \<leftarrow> assets (body_at tilted_system body),
                is_shape (asset_at tilted_system asset)] =
        [(Some (Ref 0), Some (Ref 1),
          Some (Ref \<lparr> translate = Vec 0 0 0, rotate_angle = pi, rotate_axis = Vec 1 0 0,
                      scale_by = Vec 1 1 1 \<rparr>))]"
    by (simp add: tilted_system_def still_body_def tilted_box_def half_turn_x_def
        expected_matrix_def composed_pose_def plain_ext_def
      plain_Q_to_AngAxis_def plain_Rotate_def plain_qprod_def plain_Normalize_def
      plain_Get_A_quaternion_def vadd_def Let_def)
  show ?thesis
    using BuildSceneGraph_children [OF h1 h2, of plain_ext] h1 h2 unfolding e by simp
qed

subsection \<open>doTimeStep\<close>

lemma UpdateSceneGraph_Inr:
  assumes "UpdateSceneGraph ext a = Inr a'"
  shows "\<exists>sg. a' = a\<lparr>m_scenegraph := sg, trace := trace a @ [SceneUpdate]\<rparr>"
  using assms by (auto simp: UpdateSceneGraph_def split: option.splits sum.splits)

lemma doTimeStep_Inr:
  assumes "doTimeStep ext a = Inr a'"
  shows "m_timeStep a' = m_timeStep a \<and>
         m_wait_counter_max a' = m_wait_counter_max a \<and>
         m_wait_counter a' =
           (if m_wait_counter a + 1 > m_wait_counter_max a then 1 else m_wait_counter a + 1) \<and>
         trace a' = trace a @ StepDynamics (m_timeStep a) #
           (if m_wait_counter a = m_wait_counter_max a then [SceneUpdate] else []) \<and>
         m_system a' = map_option (DoStepDynamics ext (m_timeStep a)) (m_system a)"
proof -
  from assms obtain sys where sys: "m_system a = Some sys"
    by (auto simp: doTimeStep_def split: option.splits)
  define a1 where "a1 = a\<lparr>m_system := Some (DoStepDynamics ext (m_timeStep a) sys),
                       trace := trace a @ [StepDynamics (m_timeStep a)]\<rparr>"
  show ?thesis
  proof (cases "m_wait_counter a = m_wait_counter_max a")
    case True
    with assms sys obtain a2 where u: "UpdateSceneGraph ext a1 = Inr a2"
      and a': "a' = IncreaseWaitCounter a2"
      by (auto simp: doTimeStep_def a1_def Let_def split: sum.splits)
    from UpdateSceneGraph_Inr [OF u] obtain sg
      where "a2 = a1\<lparr>m_scenegraph := sg, trace := trace a1 @ [SceneUpdate]\<rparr>" by blast
    then have f: "m_timeStep a2 = m_timeStep a" "m_wait_counter_max a2 = m_wait_counter_max a"
      "m_wait_counter a2 = m_wait_counter a" "m_system a2 = m_system a1"
      "trace a2 = trace a1 @ [SceneUpdate]"
      by (simp_all add: a1_def)
    show ?thesis
      using True f sys by (simp add: a' IncreaseWaitCounter_def Let_def a1_def)
  next
    case False
    with assms sys have a': "a' = IncreaseWaitCounter a1"
      by (auto simp: doTimeStep_def a1_def Let_def split: sum.splits)
    show ?thesis
      using False sys by (simp add: a' IncreaseWaitCounter_def Let_def a1_def)
  qed
qed

lemma wait_phase_Suc:
  "wait_phase M (Suc k) = (if wait_phase M k + 1 > M then 1 else wait_phase M k + 1)"
proof (cases "M = 0")
  case True
  then show ?thesis by (simp add: wait_phase_def)
next
  case False
  define r where "r = k mod M"
  have r: "r < M" using False by (simp add: r_def)
  have "wait_phase M k = r + 1"
    and "wait_phase M (Suc k) = (if Suc r = M then 0 else Suc r) + 1"
    using False by (simp_all add: wait_phase_def mod_Suc r_def)
  then show ?thesis using r by auto
qed

lemma wait_phase_eq_iff: "wait_phase M k = M \<longleftrightarrow> M dvd Suc k"
  by (auto simp: wait_phase_def mod_Suc dvd_eq_mod_eq_0)

lemma wait_phase_le: "wait_phase M k \<le> max 1 M"
  by (auto simp: wait_phase_def Suc_leI)

lemma counter_step:
  fixes c M :: "64 word"
  assumes "M \<noteq> - 1" and "unat c = wait_phase (unat M) k"
  shows "unat (if c + 1 > M then 1 else c + 1) = wait_phase (unat M) (Suc k)"
    and "c = M \<longleftrightarrow> unat M dvd Suc k"
proof -
  have "unat M \<noteq> unat (- 1 :: 64 word)"
    using assms(1) by (simp add: word_unat_eq_iff)
  moreover have "unat M < 2 ^ 64" using unsigned_less [of M, where ?'a = nat] by simp
  ultimately have Mlt: "unat M < 2 ^ 64 - 1"
    by (simp add: unsigned_minus_1_eq_mask mask_eq_exp_minus_1)
  have "unat c \<le> max 1 (unat M)" using assms(2) wait_phase_le by simp
  with Mlt have "unat c + unat (1 :: 64 word) < 2 ^ LENGTH(64)" by simp
  then have u: "unat (c + 1) = unat c + 1"
    using unat_add_lem [of c 1] by simp
  show "unat (if c + 1 > M then 1 else c + 1) = wait_phase (unat M) (Suc k)"
    by (simp add: word_less_nat_alt u assms(2) wait_phase_Suc)
  show "c = M \<longleftrightarrow> unat M dvd Suc k"
    by (simp add: word_unat_eq_iff assms(2) wait_phase_eq_iff)
qed


lemma doTimeSteps_schedule:
  assumes "m_wait_counter_max a \<noteq> - 1"
    and "unat (m_wait_counter a) = wait_phase (unat (m_wait_counter_max a)) k"
    and "doTimeSteps ext n a = Inr a'"
  shows "trace a' = trace a @
           concat (map (call_events (m_timeStep a) (unat (m_wait_counter_max a)))
                     [Suc k ..< Suc (k + n)]) \<and>
         m_system a' = map_option ((DoStepDynamics ext (m_timeStep a)) ^^ n) (m_system a)"
  using assms
proof (induction n arbitrary: a k)
  case 0
  then show ?case by (simp add: option.map_ident)
next
  case (Suc n)
  from Suc.prems(3) obtain a1 where s1: "doTimeStep ext a = Inr a1"
    and rest: "doTimeSteps ext n a1 = Inr a'"
    by (auto split: sum.splits)
  note f = doTimeStep_Inr [OF s1]
  from counter_step [OF Suc.prems(1) Suc.prems(2)] f
  have ph: "unat (m_wait_counter a1) = wait_phase (unat (m_wait_counter_max a1)) (Suc k)"
    and up: "m_wait_counter a = m_wait_counter_max a \<longleftrightarrow> unat (m_wait_counter_max a) dvd Suc k"
    by simp_all
  have mx: "m_wait_counter_max a1 \<noteq> - 1" using f Suc.prems(1) by simp
  from Suc.IH [OF mx ph rest] f
  have t: "trace a' = trace a1 @
           concat (map (call_events (m_timeStep a) (unat (m_wait_counter_max a)))
                     [Suc (Suc k) ..< Suc (Suc k + n)])"
    and s: "m_system a' = map_option ((DoStepDynamics ext (m_timeStep a)) ^^ n) (m_system a1)"
    by simp_all
  have l: "[Suc k ..< Suc (k + Suc n)] = Suc k # [Suc (Suc k) ..< Suc (Suc k + n)]"
    by (simp add: upt_conv_Cons)
  have "trace a1 = trace a @ call_events (m_timeStep a) (unat (m_wait_counter_max a)) (Suc k)"
    using f up by (simp add: call_events_def)
  with t have "trace a' = trace a @
           concat (map (call_events (m_timeStep a) (unat (m_wait_counter_max a)))
                     [Suc k ..< Suc (k + Suc n)])"
    unfolding l by simp
  moreover have "m_system a' =
      map_option ((DoStepDynamics ext (m_timeStep a)) ^^ Suc n) (m_system a)"
    using s f by (simp add: funpow_swap1 option.map_comp comp_def del: funpow.simps)
       (simp add: funpow_Suc_right comp_def del: funpow.simps)
  ultimately show ?case by blast
qed

lemma Initialize_Some_Inr:
  assumes "Initialize ext w h t (Some sys) a = Inr (r, a')"
  shows "wait_states ext (m_outputStep a) (m_timeStep a) = Some (m_wait_counter_max a') \<and>
         m_wait_counter a' = m_wait_counter a \<and> m_timeStep a' = m_timeStep a \<and>
         trace a' = trace a \<and> m_system a' = Some sys \<and>
         m_scenegraph a' = Some (add_body_nodes ext sys (bodylist sys) []) \<and>
         \<not> m_build_graph a' \<and>
         m_window a' =
           map_option (\<lambda>win. win\<lparr>clearColor := take 4 (m_clearColor a)\<rparr>)
             (Window_create ext \<lparr> windowTitle = t, traits_width = w, traits_height = h,
                                    traits_x = 100, traits_y = 100 \<rparr>) \<and>
         m_viewer a' =
           Some (case m_window a' of None \<Rightarrow> new_Viewer
                 | Some win \<Rightarrow> configure_Viewer win new_Viewer) \<and>
         (r \<longleftrightarrow> m_window a' \<noteq> None) \<and>
         (r \<longrightarrow> compile_traversal a' \<and> allocatedTextureCount a' = 0 \<and>
                maxNumTextures a' = 128)"
  using assms
  by (auto simp: Initialize_def BuildSceneGraph_def Let_def split: option.splits sum.splits)

text \<open>
  C3. Started with the wait counter at 1, \<open>n\<close> calls of \<open>doTimeStep\<close> advance the physics
  system by \<open>n\<close> steps of size \<open>m_timeStep\<close>, and the \<open>i\<close>-th call updates the scene
  graph exactly when \<open>i\<close> is a multiple of \<open>m_wait_counter_max\<close>; the bound is any value
  below \<open>2 ^ 64 - 1\<close>, the one value that no conversion of a \<open>double\<close> yields. When the
  output step is at most the time step, \<open>Initialize\<close> sets the bound to 1 and every call
  updates the scene graph.
\<close>

theorem doTimeStep_schedule:
  "(m_wait_counter a = 1 \<and> m_wait_counter_max a \<noteq> - 1 \<and> doTimeSteps ext n a = Inr a' \<longrightarrow>
      trace a' = trace a @
        concat (map (call_events (m_timeStep a) (unat (m_wait_counter_max a))) [1 ..< Suc n]) \<and>
      m_system a' = map_option (DoStepDynamics ext (m_timeStep a) ^^ n) (m_system a)) \<and>
   (m_outputStep b \<le> m_timeStep b \<and> m_wait_counter b = 1 \<and>
    Initialize ext w h t (Some sys) b = Inr (r, b0) \<and> doTimeSteps ext k b0 = Inr b' \<longrightarrow>
      m_wait_counter_max b0 = 1 \<and>
      trace b' = trace b @ concat (replicate k [StepDynamics (m_timeStep b), SceneUpdate]))"
proof (intro conjI impI)
  assume h: "m_wait_counter a = 1 \<and> m_wait_counter_max a \<noteq> - 1 \<and> doTimeSteps ext n a = Inr a'"
  then have "unat (m_wait_counter a) = wait_phase (unat (m_wait_counter_max a)) 0"
    by (simp add: wait_phase_def)
  from doTimeSteps_schedule [OF _ this, of ext n a'] h
  show "trace a' = trace a @
        concat (map (call_events (m_timeStep a) (unat (m_wait_counter_max a))) [1 ..< Suc n])"
    and "m_system a' = map_option (DoStepDynamics ext (m_timeStep a) ^^ n) (m_system a)"
    by simp_all
next
  assume h: "m_outputStep b \<le> m_timeStep b \<and> m_wait_counter b = 1 \<and>
    Initialize ext w h t (Some sys) b = Inr (r, b0) \<and> doTimeSteps ext k b0 = Inr b'"
  then have i: "Initialize ext w h t (Some sys) b = Inr (r, b0)" by simp
  note f = Initialize_Some_Inr [OF i]
  from f h show mx: "m_wait_counter_max b0 = 1"
    by (simp add: wait_states_def)
  have ph: "unat (m_wait_counter b0) = wait_phase (unat (m_wait_counter_max b0)) 0"
    using f h by (simp add: wait_phase_def)
  have ne: "m_wait_counter_max b0 \<noteq> - 1" using mx by simp
  from h have run: "doTimeSteps ext k b0 = Inr b'" by simp
  have "map (call_events (m_timeStep b) 1) [1 ..< Suc k] =
          replicate k [StepDynamics (m_timeStep b), SceneUpdate]"
  proof -
    have "call_events (m_timeStep b) 1 = (\<lambda>k. [StepDynamics (m_timeStep b), SceneUpdate])"
      by (simp add: call_events_def fun_eq_iff)
    then show ?thesis by (simp add: map_replicate_const del: upt_Suc)
  qed
  with doTimeSteps_schedule [OF ne ph run] f mx
  show "trace b' = trace b @ concat (replicate k [StepDynamics (m_timeStep b), SceneUpdate])"
    by simp
qed

lemmas demo_defs = Initialize_def slow_app_def ChVSGApp_new_def wait_states_def size_t_of_double_def
      BuildSceneGraph_def plain_ext_def plain_Window_create_def Let_def initialized_def
      tilted_system_def still_body_def tilted_box_def half_turn_x_def
      pose_matrix_def createVSGNode_def plain_Q_to_AngAxis_def plain_Rotate_def plain_qprod_def
      plain_Normalize_def plain_Get_A_quaternion_def vadd_def

lemma eval_Initialize_slow:
  "Initialize plain_ext 800 600 ''demo'' (Some tilted_system) slow_app = Inr (True, initialized slow_app)"
  by (simp add: demo_defs)

lemma eval_steps_slow:
  "doTimeSteps plain_ext 4 (initialized slow_app) = Inr (after_steps 4 (initialized slow_app))"
proof -
  have "\<exists>a'. doTimeSteps plain_ext 4 (initialized slow_app) = Inr a'"
    by (simp add: demo_defs eval_nat_numeral doTimeStep_def UpdateSceneGraph_def
        IncreaseWaitCounter_def update_transform_def GetTransform_def getValue_body_def
        getValue_asset_def getValue_transform_def well_shaped_for_def carries_pair_def)
  then show ?thesis by (auto simp: after_steps_def)
qed


text \<open>
  The schedule on the system with the tilted box: every second step with an output step of
  0.002, every step with the steps of the constructor.
\<close>

theorem doTimeStep_schedule_witness:
  "m_wait_counter (initialized slow_app) = 1 \<and>
   m_wait_counter_max (initialized slow_app) = 2 \<and>
   doTimeSteps plain_ext 4 (initialized slow_app) = Inr (after_steps 4 (initialized slow_app)) \<and>
   trace (after_steps 4 (initialized slow_app)) =
     [StepDynamics (1 / 1000), StepDynamics (1 / 1000), SceneUpdate,
      StepDynamics (1 / 1000), StepDynamics (1 / 1000), SceneUpdate] \<and>
   m_outputStep ChVSGApp_new \<le> m_timeStep ChVSGApp_new \<and>
   m_wait_counter ChVSGApp_new = 1 \<and>
   Initialize plain_ext 800 600 ''demo'' (Some tilted_system) ChVSGApp_new =
     Inr (True, initialized ChVSGApp_new) \<and>
   doTimeSteps plain_ext 2 (initialized ChVSGApp_new) =
     Inr (after_steps 2 (initialized ChVSGApp_new)) \<and>
   m_wait_counter_max (initialized ChVSGApp_new) = 1 \<and>
   trace (after_steps 2 (initialized ChVSGApp_new)) =
     [StepDynamics (1 / 1000), SceneUpdate, StepDynamics (1 / 1000), SceneUpdate]"
proof -
  have a1: "m_wait_counter (initialized slow_app) = 1"
    and a2: "m_wait_counter_max (initialized slow_app) = 2"
    and a3: "m_timeStep (initialized slow_app) = 1 / 1000"
    and a4: "trace (initialized slow_app) = []"
    by (simp_all add: demo_defs)
  have b1: "m_outputStep ChVSGApp_new \<le> m_timeStep ChVSGApp_new"
    and b2: "m_wait_counter ChVSGApp_new = 1"
    and b3: "m_timeStep ChVSGApp_new = 1 / 1000"
    and b4: "trace ChVSGApp_new = []"
    by (simp_all add: ChVSGApp_new_def)
  have b5: "Initialize plain_ext 800 600 ''demo'' (Some tilted_system) ChVSGApp_new =
     Inr (True, initialized ChVSGApp_new)"
    by (simp add: demo_defs)
  have "\<exists>a'. doTimeSteps plain_ext 2 (initialized ChVSGApp_new) = Inr a'"
    by (simp add: demo_defs eval_nat_numeral doTimeStep_def UpdateSceneGraph_def
        IncreaseWaitCounter_def update_transform_def GetTransform_def getValue_body_def
        getValue_asset_def getValue_transform_def well_shaped_for_def carries_pair_def)
  then have b6: "doTimeSteps plain_ext 2 (initialized ChVSGApp_new) =
     Inr (after_steps 2 (initialized ChVSGApp_new))"
    by (auto simp: after_steps_def)
  have l4: "[1 ..< Suc 4] = [1, 2, 3, 4]" and r2: "replicate 2 x = [x, x]" for x :: "app_event list"
    by (simp_all add: upt_conv_Cons eval_nat_numeral)
  show ?thesis
    using doTimeStep_schedule [where a = "initialized slow_app" and n = 4 and ext = plain_ext
        and a' = "after_steps 4 (initialized slow_app)" and b = ChVSGApp_new and k = 2
        and b0 = "initialized ChVSGApp_new" and b' = "after_steps 2 (initialized ChVSGApp_new)"
        and w = 800 and h = 600 and t = "''demo''" and sys = tilted_system and r = True]
      a1 a2 a3 a4 b1 b2 b3 b4 b5 b6 eval_steps_slow
    unfolding l4 by (simp add: call_events_def r2)
qed

subsection \<open>Initialize\<close>

text \<open>
  C10. \<open>Initialize\<close> called with a null system returns false and leaves the application as
  it was, the system pointer included. With a system and wait states that are defined, it
  returns false when the window cannot be created and true when it can. It returns true only
  for a system and a created window, and then the application holds the system, the scene
  graph built from its bodies, the window with the clear colour, a viewer whose only window
  is that one, whose event handlers are the close handler and the trackball, in this order,
  with the command graph assigned and the viewer compiled, and a texture pool for 128
  textures with none allocated.
\<close>

theorem Initialize_outcome:
  "Initialize ext w h t None a = Inr (False, a) \<and>
   (wait_states ext (m_outputStep a) (m_timeStep a) \<noteq> None \<and>
    Window_create ext \<lparr> windowTitle = t, traits_width = w, traits_height = h,
                          traits_x = 100, traits_y = 100 \<rparr> = None \<longrightarrow>
      (\<exists>a'. Initialize ext w h t (Some sys) a = Inr (False, a'))) \<and>
   (wait_states ext (m_outputStep a) (m_timeStep a) \<noteq> None \<and>
    Window_create ext \<lparr> windowTitle = t, traits_width = w, traits_height = h,
                          traits_x = 100, traits_y = 100 \<rparr> \<noteq> None \<longrightarrow>
      (\<exists>a'. Initialize ext w h t (Some sys) a = Inr (True, a'))) \<and>
   (Initialize ext w h t system a = Inr (True, a') \<longrightarrow>
      (\<exists>sys' win children.
         system = Some sys' \<and>
         Window_create ext \<lparr> windowTitle = t, traits_width = w, traits_height = h,
                               traits_x = 100, traits_y = 100 \<rparr> = Some win \<and>
         m_system a' = Some sys' \<and>
         m_scenegraph a' = Some children \<and> \<not> m_build_graph a' \<and>
         map child_triple children =
           [(Some (Ref body), Some (Ref asset),
             expected_matrix ext (body_at sys' body) (asset_at sys' asset)).
              body \<leftarrow> bodylist sys', asset \<leftarrow> assets (body_at sys' body),
              is_shape (asset_at sys' asset)] \<and>
         m_window a' = Some (win\<lparr>clearColor := take 4 (m_clearColor a)\<rparr>) \<and>
         (\<exists>viewer.
            m_viewer a' = Some viewer \<and>
            viewer_windows viewer = [win\<lparr>clearColor := take 4 (m_clearColor a)\<rparr>] \<and>
            eventHandlers viewer = [CloseHandler, Trackball] \<and>
            tasks_assigned viewer \<and> viewer_compiled viewer) \<and>
         compile_traversal a' \<and> allocatedTextureCount a' = 0 \<and> maxNumTextures a' = 128))"
proof (intro conjI impI)
  show "Initialize ext w h t None a = Inr (False, a)"
    by (simp add: Initialize_def)
next
  assume "wait_states ext (m_outputStep a) (m_timeStep a) \<noteq> None \<and>
    Window_create ext \<lparr> windowTitle = t, traits_width = w, traits_height = h,
                          traits_x = 100, traits_y = 100 \<rparr> = None"
  then show "\<exists>a'. Initialize ext w h t (Some sys) a = Inr (False, a')"
    by (auto simp: Initialize_def BuildSceneGraph_def Let_def)
next
  assume "wait_states ext (m_outputStep a) (m_timeStep a) \<noteq> None \<and>
    Window_create ext \<lparr> windowTitle = t, traits_width = w, traits_height = h,
                          traits_x = 100, traits_y = 100 \<rparr> \<noteq> None"
  then show "\<exists>a'. Initialize ext w h t (Some sys) a = Inr (True, a')"
    by (auto simp: Initialize_def BuildSceneGraph_def Let_def)
next
  assume i: "Initialize ext w h t system a = Inr (True, a')"
  then obtain sys' where s: "system = Some sys'"
    by (cases system) (simp_all add: Initialize_def)
  note f = Initialize_Some_Inr [OF i [unfolded s]]
  from f obtain win where w: "Window_create ext \<lparr> windowTitle = t, traits_width = w,
      traits_height = h, traits_x = 100, traits_y = 100 \<rparr> = Some win"
    by (cases "Window_create ext \<lparr> windowTitle = t, traits_width = w,
      traits_height = h, traits_x = 100, traits_y = 100 \<rparr>") auto
  show "\<exists>sys' win children.
         system = Some sys' \<and>
         Window_create ext \<lparr> windowTitle = t, traits_width = w, traits_height = h,
                               traits_x = 100, traits_y = 100 \<rparr> = Some win \<and>
         m_system a' = Some sys' \<and>
         m_scenegraph a' = Some children \<and> \<not> m_build_graph a' \<and>
         map child_triple children =
           [(Some (Ref body), Some (Ref asset),
             expected_matrix ext (body_at sys' body) (asset_at sys' asset)).
              body \<leftarrow> bodylist sys', asset \<leftarrow> assets (body_at sys' body),
              is_shape (asset_at sys' asset)] \<and>
         m_window a' = Some (win\<lparr>clearColor := take 4 (m_clearColor a)\<rparr>) \<and>
         (\<exists>viewer.
            m_viewer a' = Some viewer \<and>
            viewer_windows viewer = [win\<lparr>clearColor := take 4 (m_clearColor a)\<rparr>] \<and>
            eventHandlers viewer = [CloseHandler, Trackball] \<and>
            tasks_assigned viewer \<and> viewer_compiled viewer) \<and>
         compile_traversal a' \<and> allocatedTextureCount a' = 0 \<and> maxNumTextures a' = 128"
    using s w f body_triples [of ext sys' "bodylist sys'"]
    by (auto simp: configure_Viewer_def new_Viewer_def)
qed

text \<open>A null system, a window of width 0 that cannot be made, and a window that can.\<close>

theorem Initialize_outcome_witness:
  "Initialize plain_ext 800 600 ''demo'' None ChVSGApp_new = Inr (False, ChVSGApp_new) \<and>
   wait_states plain_ext (m_outputStep ChVSGApp_new) (m_timeStep ChVSGApp_new) = Some 1 \<and>
   plain_Window_create \<lparr> windowTitle = ''demo'', traits_width = 0, traits_height = 600,
                           traits_x = 100, traits_y = 100 \<rparr> = None \<and>
   (\<exists>a'. Initialize plain_ext 0 600 ''demo'' (Some tilted_system) ChVSGApp_new = Inr (False, a')) \<and>
   plain_Window_create \<lparr> windowTitle = ''demo'', traits_width = 800, traits_height = 600,
                           traits_x = 100, traits_y = 100 \<rparr> =
     Some \<lparr> window_traits = \<lparr> windowTitle = ''demo'', traits_width = 800,
                                  traits_height = 600, traits_x = 100, traits_y = 100 \<rparr>,
            clearColor = [0, 0, 0, 1] \<rparr> \<and>
   Initialize plain_ext 800 600 ''demo'' (Some tilted_system) ChVSGApp_new =
     Inr (True, initialized ChVSGApp_new) \<and>
   m_system (initialized ChVSGApp_new) = Some tilted_system \<and>
   m_build_graph (initialized ChVSGApp_new) = False \<and>
   map_option (map child_triple) (m_scenegraph (initialized ChVSGApp_new)) =
     Some [(Some (Ref 0), Some (Ref 1),
            Some (Ref \<lparr> translate = Vec 0 0 0, rotate_angle = pi, rotate_axis = Vec 1 0 0,
                        scale_by = Vec 1 1 1 \<rparr>))] \<and>
   map_option viewer_windows (m_viewer (initialized ChVSGApp_new)) =
     Some [\<lparr> window_traits = \<lparr> windowTitle = ''demo'', traits_width = 800,
                                   traits_height = 600, traits_x = 100, traits_y = 100 \<rparr>,
             clearColor = [1, 1, 1, 1] \<rparr>] \<and>
   map_option eventHandlers (m_viewer (initialized ChVSGApp_new)) =
     Some [CloseHandler, Trackball] \<and>
   map_option tasks_assigned (m_viewer (initialized ChVSGApp_new)) = Some True \<and>
   map_option viewer_compiled (m_viewer (initialized ChVSGApp_new)) = Some True \<and>
   maxNumTextures (initialized ChVSGApp_new) = 128"
proof -
  have w1: "wait_states plain_ext (m_outputStep ChVSGApp_new) (m_timeStep ChVSGApp_new) = Some 1"
    by (simp add: wait_states_def ChVSGApp_new_def)
  have w2: "Window_create plain_ext \<lparr> windowTitle = ''demo'', traits_width = 0,
      traits_height = 600, traits_x = 100, traits_y = 100 \<rparr> = None"
    and w3: "Window_create plain_ext \<lparr> windowTitle = ''demo'', traits_width = 800,
      traits_height = 600, traits_x = 100, traits_y = 100 \<rparr> =
     Some \<lparr> window_traits = \<lparr> windowTitle = ''demo'', traits_width = 800,
                                  traits_height = 600, traits_x = 100, traits_y = 100 \<rparr>,
            clearColor = [0, 0, 0, 1] \<rparr>"
    by (simp_all add: plain_ext_def plain_Window_create_def)
  have c: "take 4 (m_clearColor ChVSGApp_new) = [1, 1, 1, 1]"
    by (simp add: ChVSGApp_new_def)
  have i: "Initialize plain_ext 800 600 ''demo'' (Some tilted_system) ChVSGApp_new =
     Inr (True, initialized ChVSGApp_new)"
    by (simp add: demo_defs)
  have e: "[(Some (Ref body), Some (Ref asset),
               expected_matrix plain_ext (body_at tilted_system body) (asset_at tilted_system asset)).
                body \<leftarrow> bodylist tilted_system, asset \<leftarrow> assets (body_at tilted_system body),
                is_shape (asset_at tilted_system asset)] =
        [(Some (Ref 0), Some (Ref 1),
          Some (Ref \<lparr> translate = Vec 0 0 0, rotate_angle = pi, rotate_axis = Vec 1 0 0,
                      scale_by = Vec 1 1 1 \<rparr>))]"
    by (simp add: tilted_system_def still_body_def tilted_box_def half_turn_x_def
        expected_matrix_def composed_pose_def plain_ext_def
      plain_Q_to_AngAxis_def plain_Rotate_def plain_qprod_def plain_Normalize_def
      plain_Get_A_quaternion_def vadd_def Let_def)
  from Initialize_outcome [where ext = plain_ext and w = 0 and h = 600 and t = "''demo''"
      and a = ChVSGApp_new and sys = tilted_system] w1 w2
  have f: "\<exists>a'. Initialize plain_ext 0 600 ''demo'' (Some tilted_system) ChVSGApp_new = Inr (False, a')"
    by simp
  from Initialize_outcome [where ext = plain_ext and w = 800 and h = 600 and t = "''demo''"
      and a = ChVSGApp_new and system = "Some tilted_system" and a' = "initialized ChVSGApp_new",
      THEN conjunct2, THEN conjunct2, THEN conjunct2, THEN mp, OF i]
  obtain sys' win children viewer where r: "Some tilted_system = Some sys'"
    "Window_create plain_ext \<lparr> windowTitle = ''demo'', traits_width = 800,
      traits_height = 600, traits_x = 100, traits_y = 100 \<rparr> = Some win"
    "m_system (initialized ChVSGApp_new) = Some sys'"
    "m_scenegraph (initialized ChVSGApp_new) = Some children"
    "\<not> m_build_graph (initialized ChVSGApp_new)"
    "map child_triple children =
           [(Some (Ref body), Some (Ref asset),
             expected_matrix plain_ext (body_at sys' body) (asset_at sys' asset)).
              body \<leftarrow> bodylist sys', asset \<leftarrow> assets (body_at sys' body),
              is_shape (asset_at sys' asset)]"
    "m_viewer (initialized ChVSGApp_new) = Some viewer"
    "viewer_windows viewer = [win\<lparr>clearColor := take 4 (m_clearColor ChVSGApp_new)\<rparr>]"
    "eventHandlers viewer = [CloseHandler, Trackball]"
    "tasks_assigned viewer" "viewer_compiled viewer"
    "maxNumTextures (initialized ChVSGApp_new) = 128"
    by blast
  from r(1) have s: "sys' = tilted_system" by simp
  from r(2) w3 have w: "win = \<lparr> window_traits = \<lparr> windowTitle = ''demo'', traits_width = 800,
                                  traits_height = 600, traits_x = 100, traits_y = 100 \<rparr>,
            clearColor = [0, 0, 0, 1] \<rparr>"
    by simp
  have g: "m_system (initialized ChVSGApp_new) = Some tilted_system"
    "m_build_graph (initialized ChVSGApp_new) = False"
    "map_option (map child_triple) (m_scenegraph (initialized ChVSGApp_new)) =
     Some [(Some (Ref 0), Some (Ref 1),
            Some (Ref \<lparr> translate = Vec 0 0 0, rotate_angle = pi, rotate_axis = Vec 1 0 0,
                        scale_by = Vec 1 1 1 \<rparr>))]"
    "map_option viewer_windows (m_viewer (initialized ChVSGApp_new)) =
     Some [\<lparr> window_traits = \<lparr> windowTitle = ''demo'', traits_width = 800,
                                   traits_height = 600, traits_x = 100, traits_y = 100 \<rparr>,
             clearColor = [1, 1, 1, 1] \<rparr>]"
    "map_option eventHandlers (m_viewer (initialized ChVSGApp_new)) =
     Some [CloseHandler, Trackball]"
    "map_option tasks_assigned (m_viewer (initialized ChVSGApp_new)) = Some True"
    "map_option viewer_compiled (m_viewer (initialized ChVSGApp_new)) = Some True"
    "maxNumTextures (initialized ChVSGApp_new) = 128"
    using r(3-12) e unfolding s w c by simp_all
  have n: "Initialize plain_ext 800 600 ''demo'' None ChVSGApp_new = Inr (False, ChVSGApp_new)"
    using Initialize_outcome [where ext = plain_ext and w = 800 and h = 600 and t = "''demo''"
        and a = ChVSGApp_new and system = None]
    by simp
  show ?thesis
    using f g i n w1 w2 w3 by (simp add: plain_ext_def)
qed

subsection \<open>OnEvent: keys\<close>

lemma key_released_recognized: "key_released key g \<noteq> None \<longleftrightarrow> recognized_key key"
  by (cases key) simp_all

text \<open>
  C4. For an event that no user receiver takes: a key event with \<open>PressedDown\<close> set changes
  nothing and \<open>OnEvent\<close> returns false; releasing \<open>I\<close>, \<open>O\<close> or \<open>U\<close> toggles
  \<open>show_infos\<close>, \<open>show_profiler\<close> or \<open>show_explorer\<close> and returns true, as releasing
  any key with a case of its own does; every other event makes \<open>OnEvent\<close> return false, and
  when it is no event of a known GUI widget either, the GUI is left as it was.
\<close>

theorem OnEvent_keyboard:
  assumes "offer_event (m_user_receivers g) event u = (False, u')"
  shows "(event = KeyInput key True \<longrightarrow> OnEvent (Some g) event u = Inr (False, Some g, u')) \<and>
         (event = KeyInput KEY_KEY_I False \<longrightarrow>
            OnEvent (Some g) event u = Inr (True, Some (g\<lparr>show_infos := \<not> show_infos g\<rparr>), u')) \<and>
         (event = KeyInput KEY_KEY_O False \<longrightarrow>
            OnEvent (Some g) event u = Inr (True, Some (g\<lparr>show_profiler := \<not> show_profiler g\<rparr>), u')) \<and>
         (event = KeyInput KEY_KEY_U False \<longrightarrow>
            OnEvent (Some g) event u = Inr (True, Some (g\<lparr>show_explorer := \<not> show_explorer g\<rparr>), u')) \<and>
         (event = KeyInput key False \<and> recognized_key key \<longrightarrow>
            (\<exists>g'. OnEvent (Some g) event u = Inr (True, Some g', u'))) \<and>
         ((\<forall>key. recognized_key key \<longrightarrow> event \<noteq> KeyInput key False) \<longrightarrow>
            (\<exists>g'. OnEvent (Some g) event u = Inr (False, Some g', u'))) \<and>
         ((\<forall>key. recognized_key key \<longrightarrow> event \<noteq> KeyInput key False) \<and>
          (\<forall>ty caller. event = GUIEvent ty caller \<longrightarrow> gui_event ty caller g = None) \<longrightarrow>
            OnEvent (Some g) event u = Inr (False, Some g, u'))"
proof (intro conjI impI)
  assume "event = KeyInput key True"
  then show "OnEvent (Some g) event u = Inr (False, Some g, u')"
    using assms by (simp add: OnEvent_def builtin_event_def)
next
  assume "event = KeyInput KEY_KEY_I False"
  then show "OnEvent (Some g) event u = Inr (True, Some (g\<lparr>show_infos := \<not> show_infos g\<rparr>), u')"
    using assms by (simp add: OnEvent_def builtin_event_def)
next
  assume "event = KeyInput KEY_KEY_O False"
  then show "OnEvent (Some g) event u = Inr (True, Some (g\<lparr>show_profiler := \<not> show_profiler g\<rparr>), u')"
    using assms by (simp add: OnEvent_def builtin_event_def)
next
  assume "event = KeyInput KEY_KEY_U False"
  then show "OnEvent (Some g) event u = Inr (True, Some (g\<lparr>show_explorer := \<not> show_explorer g\<rparr>), u')"
    using assms by (simp add: OnEvent_def builtin_event_def)
next
  assume h: "event = KeyInput key False \<and> recognized_key key"
  then obtain g' where "key_released key g = Some g'"
    using key_released_recognized [of key g] by auto
  then show "\<exists>g'. OnEvent (Some g) event u = Inr (True, Some g', u')"
    using assms h by (simp add: OnEvent_def builtin_event_def)
next
  assume h: "\<forall>key. recognized_key key \<longrightarrow> event \<noteq> KeyInput key False"
  show "\<exists>g'. OnEvent (Some g) event u = Inr (False, Some g', u')"
  proof (cases event)
    case (KeyInput key pressed)
    with h have "pressed \<or> \<not> recognized_key key" by auto
    then have "(if \<not> pressed then key_released key g else None) = None"
      using key_released_recognized [of key g] by auto
    then show ?thesis using assms KeyInput by (simp add: OnEvent_def builtin_event_def)
  next
    case (GUIEvent ty caller)
    then show ?thesis using assms
      by (simp add: OnEvent_def builtin_event_def split: option.splits)
  next
    case (OtherEvent k)
    then show ?thesis using assms by (simp add: OnEvent_def builtin_event_def)
  qed
next
  assume h: "(\<forall>key. recognized_key key \<longrightarrow> event \<noteq> KeyInput key False) \<and>
          (\<forall>ty caller. event = GUIEvent ty caller \<longrightarrow> gui_event ty caller g = None)"
  show "OnEvent (Some g) event u = Inr (False, Some g, u')"
  proof (cases event)
    case (KeyInput key pressed)
    with h have "pressed \<or> \<not> recognized_key key" by auto
    then have "(if \<not> pressed then key_released key g else None) = None"
      using key_released_recognized [of key g] by auto
    then show ?thesis using assms KeyInput by (simp add: OnEvent_def builtin_event_def)
  next
    case (GUIEvent ty caller)
    then show ?thesis using assms h
      by (simp add: OnEvent_def builtin_event_def split: option.splits)
  next
    case (OtherEvent k)
    then show ?thesis using assms by (simp add: OnEvent_def builtin_event_def)
  qed
qed

text \<open>Key events for a GUI without user receivers.\<close>

theorem OnEvent_keyboard_witness:
  "OnEvent (Some (ChIrrGUI_new :: unit ChIrrGUI)) (KeyInput KEY_KEY_I True) () =
     Inr (False, Some ChIrrGUI_new, ()) \<and>
   OnEvent (Some (ChIrrGUI_new :: unit ChIrrGUI)) (KeyInput KEY_KEY_I False) () =
     Inr (True, Some (ChIrrGUI_new\<lparr>show_infos := True\<rparr>), ()) \<and>
   OnEvent (Some (ChIrrGUI_new :: unit ChIrrGUI)) (KeyInput KEY_KEY_O False) () =
     Inr (True, Some (ChIrrGUI_new\<lparr>show_profiler := True\<rparr>), ()) \<and>
   OnEvent (Some (ChIrrGUI_new :: unit ChIrrGUI)) (KeyInput KEY_KEY_U False) () =
     Inr (True, Some (ChIrrGUI_new\<lparr>show_explorer := True\<rparr>), ()) \<and>
   OnEvent (Some (ChIrrGUI_new :: unit ChIrrGUI)) (KeyInput (KEY_OTHER 65) False) () =
     Inr (False, Some ChIrrGUI_new, ()) \<and>
   OnEvent (Some (ChIrrGUI_new :: unit ChIrrGUI)) (OtherEvent 0) () =
     Inr (False, Some ChIrrGUI_new, ())"
proof -
  have o: "offer_event (m_user_receivers (ChIrrGUI_new :: unit ChIrrGUI)) event () = (False, ())"
    for event by (simp add: ChIrrGUI_new_def)
  have s: "show_infos (ChIrrGUI_new :: unit ChIrrGUI) = False"
    "show_profiler (ChIrrGUI_new :: unit ChIrrGUI) = False"
    "show_explorer (ChIrrGUI_new :: unit ChIrrGUI) = False"
    by (simp_all add: ChIrrGUI_new_def)
  have k: "\<forall>key. recognized_key key \<longrightarrow> KeyInput (KEY_OTHER 65) False \<noteq> KeyInput key False"
    "\<forall>key. recognized_key key \<longrightarrow> OtherEvent 0 \<noteq> KeyInput key False"
    by auto
  show ?thesis
    using OnEvent_keyboard [OF o, of "KeyInput KEY_KEY_I True" KEY_KEY_I]
      OnEvent_keyboard [OF o, of "KeyInput KEY_KEY_I False" KEY_KEY_I]
      OnEvent_keyboard [OF o, of "KeyInput KEY_KEY_O False" KEY_KEY_O]
      OnEvent_keyboard [OF o, of "KeyInput KEY_KEY_U False" KEY_KEY_U]
      OnEvent_keyboard [OF o, of "KeyInput (KEY_OTHER 65) False" KEY_KEY_U]
      OnEvent_keyboard [OF o, of "OtherEvent 0" KEY_KEY_U] k
    by (simp add: s)
qed

subsection \<open>OnEvent: user receivers\<close>

lemma registered_receivers:
  "m_user_receivers (foldl (\<lambda>g r. AddUserEventReceiver r g) g0 rs) = m_user_receivers g0 @ rs"
  by (induction rs arbitrary: g0) (simp_all add: AddUserEventReceiver_def)

lemma offer_event_declined:
  assumes "\<forall>j < length pre. \<not> fst ((pre ! j) event (foldl (\<lambda>s r. snd (r event s)) u (take j pre)))"
  shows "offer_event (pre @ rest) event u =
           offer_event rest event (foldl (\<lambda>s r. snd (r event s)) u pre)"
  using assms
proof (induction pre arbitrary: u)
  case Nil
  show ?case by simp
next
  case (Cons r pre)
  from Cons.prems [rule_format, of 0] have d: "\<not> fst (r event u)" by simp
  have "\<forall>j < length pre. \<not> fst ((pre ! j) event
          (foldl (\<lambda>s r. snd (r event s)) (snd (r event u)) (take j pre)))"
  proof (intro allI impI)
    fix j assume "j < length pre"
    then show "\<not> fst ((pre ! j) event
          (foldl (\<lambda>s r. snd (r event s)) (snd (r event u)) (take j pre)))"
      using Cons.prems [rule_format, of "Suc j"] by simp
  qed
  from Cons.IH [OF this] d show ?case
    by (simp add: split_beta)
qed

text \<open>
  C5. Let the receivers \<open>rs\<close> be registered by \<open>AddUserEventReceiver\<close> in this order.
  An event is offered to them in this order, each one seeing the user state the ones before
  it left. When a receiver takes the event and all before it decline, \<open>OnEvent\<close> returns
  true with the user state this receiver left, without offering the event to the receivers
  after it and without any change of the GUI. Only when all of them decline does the built-in
  processing of keys and GUI events take place.
\<close>

theorem OnEvent_user_receivers_first:
  assumes "m_user_receivers g0 = []"
    and "g = foldl (\<lambda>g r. AddUserEventReceiver r g) g0 rs"
  shows "(rs = pre @ recv # post \<and>
          (\<forall>j < length pre.
             \<not> fst ((pre ! j) event (foldl (\<lambda>s r. snd (r event s)) u (take j pre)))) \<and>
          fst (recv event (foldl (\<lambda>s r. snd (r event s)) u pre)) \<longrightarrow>
            OnEvent (Some g) event u =
              Inr (True, Some g, snd (recv event (foldl (\<lambda>s r. snd (r event s)) u pre)))) \<and>
         ((\<forall>j < length rs.
             \<not> fst ((rs ! j) event (foldl (\<lambda>s r. snd (r event s)) u (take j rs)))) \<longrightarrow>
            OnEvent (Some g) event u =
              Inr (fst (builtin_event event g), Some (snd (builtin_event event g)),
                   foldl (\<lambda>s r. snd (r event s)) u rs))"
proof (intro conjI impI)
  have r: "m_user_receivers g = rs"
    using assms(1) registered_receivers [of g0 rs] unfolding assms(2) by simp
  {
    assume h: "rs = pre @ recv # post \<and>
          (\<forall>j < length pre.
             \<not> fst ((pre ! j) event (foldl (\<lambda>s r. snd (r event s)) u (take j pre)))) \<and>
          fst (recv event (foldl (\<lambda>s r. snd (r event s)) u pre))"
    then have d: "\<forall>j < length pre.
             \<not> fst ((pre ! j) event (foldl (\<lambda>s r. snd (r event s)) u (take j pre)))"
      by simp
    have "offer_event (pre @ recv # post) event u =
        (True, snd (recv event (foldl (\<lambda>s r. snd (r event s)) u pre)))"
      using offer_event_declined [OF d, of "recv # post"] h
      by (simp add: split_beta)
    then show "OnEvent (Some g) event u =
              Inr (True, Some g, snd (recv event (foldl (\<lambda>s r. snd (r event s)) u pre)))"
      using r h by (simp add: OnEvent_def)
  }
  {
    assume d: "\<forall>j < length rs.
             \<not> fst ((rs ! j) event (foldl (\<lambda>s r. snd (r event s)) u (take j rs)))"
    have "offer_event rs event u = (False, foldl (\<lambda>s r. snd (r event s)) u rs)"
      using offer_event_declined [OF d, of "[]"] by simp
    then show "OnEvent (Some g) event u =
              Inr (fst (builtin_event event g), Some (snd (builtin_event event g)),
                   foldl (\<lambda>s r. snd (r event s)) u rs)"
      using r by (simp add: OnEvent_def split_beta)
  }
qed

text \<open>
  Three logging receivers, the first declining. Releasing \<open>I\<close> is taken by the second; the
  log shows receivers 1 and 2 only, and \<open>show_infos\<close> stays as it was. With two declining
  receivers the log shows both, and \<open>show_infos\<close> is toggled.
\<close>

theorem OnEvent_user_receivers_first_witness:
  "m_user_receivers (ChIrrGUI_new :: nat list ChIrrGUI) = [] \<and>
   \<not> fst (logging_receiver 1 False (KeyInput KEY_KEY_I False) []) \<and>
   fst (logging_receiver 2 True (KeyInput KEY_KEY_I False) [1]) \<and>
   OnEvent (Some three_receivers_gui) (KeyInput KEY_KEY_I False) [] =
     Inr (True, Some three_receivers_gui, [1, 2]) \<and>
   \<not> fst (logging_receiver 2 False (KeyInput KEY_KEY_I False) [1]) \<and>
   OnEvent (Some declining_gui) (KeyInput KEY_KEY_I False) [] =
     Inr (True, Some (declining_gui\<lparr>show_infos := \<not> show_infos declining_gui\<rparr>), [1, 2])"
proof -
  have a: "m_user_receivers (ChIrrGUI_new :: nat list ChIrrGUI) = []"
    by (simp add: ChIrrGUI_new_def)
  have c: "\<forall>j < length [logging_receiver 1 False].
      \<not> fst (([logging_receiver 1 False] ! j) (KeyInput KEY_KEY_I False)
        (foldl (\<lambda>s r. snd (r (KeyInput KEY_KEY_I False) s)) [] (take j [logging_receiver 1 False])))"
    by (simp add: logging_receiver_def)
  have d: "fst (logging_receiver 2 True (KeyInput KEY_KEY_I False)
        (foldl (\<lambda>s r. snd (r (KeyInput KEY_KEY_I False) s)) [] [logging_receiver 1 False]))"
    by (simp add: logging_receiver_def)
  have e: "\<forall>j < length [logging_receiver 1 False, logging_receiver 2 False].
      \<not> fst (([logging_receiver 1 False, logging_receiver 2 False] ! j) (KeyInput KEY_KEY_I False)
        (foldl (\<lambda>s r. snd (r (KeyInput KEY_KEY_I False) s)) []
           (take j [logging_receiver 1 False, logging_receiver 2 False])))"
    by (simp add: logging_receiver_def nth_Cons')
  from OnEvent_user_receivers_first [OF a three_receivers_gui_def,
      where pre = "[logging_receiver 1 False]" and recv = "logging_receiver 2 True"
        and post = "[logging_receiver 3 True]" and event = "KeyInput KEY_KEY_I False" and u = "[]",
      THEN conjunct1] c d
  have f: "OnEvent (Some three_receivers_gui) (KeyInput KEY_KEY_I False) [] =
     Inr (True, Some three_receivers_gui, [1, 2])"
    by (simp add: logging_receiver_def)
  from OnEvent_user_receivers_first [OF a declining_gui_def,
      where event = "KeyInput KEY_KEY_I False" and u = "[]", THEN conjunct2, THEN mp, OF e]
  have g: "OnEvent (Some declining_gui) (KeyInput KEY_KEY_I False) [] =
     Inr (True, Some (declining_gui\<lparr>show_infos := \<not> show_infos declining_gui\<rparr>), [1, 2])"
    by (simp add: logging_receiver_def builtin_event_def)
  show ?thesis using a f g by (simp add: logging_receiver_def)
qed

subsection \<open>The setters\<close>

lemma ChMax_number:
  "ChMax (DNum lo) (DNum r) = DNum (max lo r)"
  "ChMax (DNum lo) DPosInf = DPosInf"
  "ChMax (DNum lo) DNegInf = DNum lo"
  "ChMax (DNum lo) DNaN = DNaN"
  by (auto simp: ChMax_def)

lemma ChMax_positive: "0 < lo \<Longrightarrow> v \<noteq> DNaN \<Longrightarrow> positive (ChMax (DNum lo) v)"
  by (cases v) (auto simp: ChMax_def positive_def)

lemma ChMax_not_negative: "v \<noteq> DNaN \<Longrightarrow> not_negative (ChMax (DNum 0) v)"
  by (cases v) (auto simp: ChMax_def not_negative_def)

lemma key_released_scales:
  "key_released key g = Some g' \<Longrightarrow>
     symbolscale g' = symbolscale g \<and> modal_amplitude g' = modal_amplitude g \<and>
     modal_speed g' = modal_speed g"
  by (cases key) (auto split: if_splits)

lemma gui_event_scales:
  assumes "gui_event ty caller g = Some g'" and "getText_atof caller \<noteq> DNaN"
    and "positive (symbolscale g)" and "not_negative (modal_amplitude g)"
    and "not_negative (modal_speed g)"
  shows "positive (symbolscale g') \<and> not_negative (modal_amplitude g') \<and>
         not_negative (modal_speed g')"
proof -
  have p: "positive (ChMax (DNum (10 / 10 ^ 12)) (getText_atof caller))"
    using assms(2) by (intro ChMax_positive) simp_all
  have n: "not_negative (ChMax (DNum 0) (getText_atof caller))"
    using assms(2) by (rule ChMax_not_negative)
  show ?thesis
    using assms p n
    by (cases ty)
       (auto simp: gui_event_def SetSymbolscale_def SetModalAmplitude_def SetModalSpeed_def
          Let_def split: if_splits)
qed

lemma builtin_event_scales:
  assumes "builtin_event event g = (answer, g')" and "brings_number event"
    and "positive (symbolscale g)" and "not_negative (modal_amplitude g)"
    and "not_negative (modal_speed g)"
  shows "positive (symbolscale g') \<and> not_negative (modal_amplitude g') \<and>
         not_negative (modal_speed g')"
proof (cases event)
  case (KeyInput key pressed)
  show ?thesis
  proof (cases "if \<not> pressed then key_released key g else None")
    case None
    with assms KeyInput show ?thesis by (simp add: builtin_event_def)
  next
    case (Some g1)
    with assms KeyInput have "g' = g1" and "key_released key g = Some g1"
      by (auto simp: builtin_event_def split: if_splits)
    with key_released_scales [of key g g1] assms show ?thesis by simp
  qed
next
  case (GUIEvent ty caller)
  show ?thesis
  proof (cases "gui_event ty caller g")
    case None
    with assms GUIEvent show ?thesis by (simp add: builtin_event_def)
  next
    case (Some g1)
    with assms GUIEvent have "g' = g1" by (simp add: builtin_event_def)
    with gui_event_scales [OF Some] assms GUIEvent show ?thesis by simp
  qed
next
  case (OtherEvent k)
  with assms show ?thesis by (simp add: builtin_event_def)
qed

text \<open>
  C9 (amended). For every value \<open>v\<close> other than NaN: after \<open>SetSymbolscale v\<close> the
  symbol scale is \<open>max(10e-12, v)\<close> and positive; after \<open>SetModalAmplitude v\<close> and
  \<open>SetModalSpeed v\<close> amplitude and speed are \<open>max(0, v)\<close> and not negative. Entering
  a text in the edit boxes 9921, 9927 and 9928 calls these setters with what \<open>atof\<close> reads
  from it, and no event that brings a number makes the symbol scale zero or negative, or
  amplitude or speed negative.
\<close>

theorem setters_clamp:
  "symbolscale (SetSymbolscale (DNum r) g) = DNum (max (10 / 10 ^ 12) r) \<and>
   symbolscale (SetSymbolscale DPosInf g) = DPosInf \<and>
   symbolscale (SetSymbolscale DNegInf g) = DNum (10 / 10 ^ 12) \<and>
   (v \<noteq> DNaN \<longrightarrow> positive (symbolscale (SetSymbolscale v g))) \<and>
   modal_amplitude (SetModalAmplitude (DNum r) g) = DNum (max 0 r) \<and>
   modal_amplitude (SetModalAmplitude DPosInf g) = DPosInf \<and>
   modal_amplitude (SetModalAmplitude DNegInf g) = DNum 0 \<and>
   (v \<noteq> DNaN \<longrightarrow> not_negative (modal_amplitude (SetModalAmplitude v g))) \<and>
   modal_speed (SetModalSpeed (DNum r) g) = DNum (max 0 r) \<and>
   modal_speed (SetModalSpeed DPosInf g) = DPosInf \<and>
   modal_speed (SetModalSpeed DNegInf g) = DNum 0 \<and>
   (v \<noteq> DNaN \<longrightarrow> not_negative (modal_speed (SetModalSpeed v g))) \<and>
   (offer_event (m_user_receivers g) (GUIEvent EGET_EDITBOX_ENTER caller) u = (False, u') \<longrightarrow>
      OnEvent (Some g) (GUIEvent EGET_EDITBOX_ENTER caller) u =
        Inr (False,
             Some (if getID caller = 9921 then SetSymbolscale (getText_atof caller) g
                   else if getID caller = 9927 then SetModalAmplitude (getText_atof caller) g
                   else if getID caller = 9928 then SetModalSpeed (getText_atof caller) g
                   else g), u')) \<and>
   (positive (symbolscale g) \<and> not_negative (modal_amplitude g) \<and>
    not_negative (modal_speed g) \<and> brings_number event \<and>
    OnEvent (Some g) event u = Inr (answer, Some g', u') \<longrightarrow>
      positive (symbolscale g') \<and> not_negative (modal_amplitude g') \<and>
      not_negative (modal_speed g'))"
proof (intro conjI impI)
  assume "offer_event (m_user_receivers g) (GUIEvent EGET_EDITBOX_ENTER caller) u = (False, u')"
  then show "OnEvent (Some g) (GUIEvent EGET_EDITBOX_ENTER caller) u =
        Inr (False,
             Some (if getID caller = 9921 then SetSymbolscale (getText_atof caller) g
                   else if getID caller = 9927 then SetModalAmplitude (getText_atof caller) g
                   else if getID caller = 9928 then SetModalSpeed (getText_atof caller) g
                   else g), u')"
    by (simp add: OnEvent_def builtin_event_def gui_event_def)
next
  assume h: "positive (symbolscale g) \<and> not_negative (modal_amplitude g) \<and>
    not_negative (modal_speed g) \<and> brings_number event \<and>
    OnEvent (Some g) event u = Inr (answer, Some g', u')"
  obtain t u1 where o: "offer_event (m_user_receivers g) event u = (t, u1)"
    by (cases "offer_event (m_user_receivers g) event u")
  have k: "positive (symbolscale g') \<and> not_negative (modal_amplitude g') \<and>
      not_negative (modal_speed g')"
  proof (cases t)
    case True
    with h o have "g' = g" by (simp add: OnEvent_def)
    with h show ?thesis by simp
  next
    case False
    with h o have "builtin_event event g = (answer, g')"
      by (cases "builtin_event event g") (simp add: OnEvent_def)
    from builtin_event_scales [OF this] h show ?thesis by simp
  qed
  from k show "positive (symbolscale g')" by simp
  from k show "not_negative (modal_amplitude g')" by simp
  from k show "not_negative (modal_speed g')" by simp
next
  assume "v \<noteq> DNaN"
  then show "positive (symbolscale (SetSymbolscale v g))"
    using ChMax_positive [of "10 / 10 ^ 12" v] by (simp add: SetSymbolscale_def Let_def)
next
  assume "v \<noteq> DNaN"
  then show "not_negative (modal_amplitude (SetModalAmplitude v g))"
    using ChMax_not_negative [of v] by (simp add: SetModalAmplitude_def Let_def)
next
  assume "v \<noteq> DNaN"
  then show "not_negative (modal_speed (SetModalSpeed v g))"
    using ChMax_not_negative [of v] by (simp add: SetModalSpeed_def Let_def)
qed (simp_all add: SetSymbolscale_def SetModalAmplitude_def SetModalSpeed_def ChMax_number Let_def)

text \<open>
  C9 (as stated, refuted). The text \<open>nan\<close> entered into the edit box 9921 of a new GUI,
  whose symbol scale is positive, calls \<open>SetSymbolscale\<close> with NaN; the symbol scale is
  NaN afterwards, which is not positive. The same holds for amplitude and speed.
\<close>

theorem setters_nan_counterexample:
  "OnEvent (Some (ChIrrGUI_new :: unit ChIrrGUI)) (GUIEvent EGET_EDITBOX_ENTER (box_nan 9921)) () =
     Inr (False, Some (SetSymbolscale DNaN ChIrrGUI_new), ()) \<and>
   positive (symbolscale (ChIrrGUI_new :: unit ChIrrGUI)) \<and>
   symbolscale (SetSymbolscale DNaN (ChIrrGUI_new :: unit ChIrrGUI)) = DNaN \<and>
   \<not> positive (symbolscale (SetSymbolscale DNaN (ChIrrGUI_new :: unit ChIrrGUI))) \<and>
   modal_amplitude (SetModalAmplitude DNaN (ChIrrGUI_new :: unit ChIrrGUI)) = DNaN \<and>
   \<not> not_negative (modal_amplitude (SetModalAmplitude DNaN (ChIrrGUI_new :: unit ChIrrGUI))) \<and>
   modal_speed (SetModalSpeed DNaN (ChIrrGUI_new :: unit ChIrrGUI)) = DNaN \<and>
   \<not> not_negative (modal_speed (SetModalSpeed DNaN (ChIrrGUI_new :: unit ChIrrGUI)))"
  by (simp add: OnEvent_def builtin_event_def gui_event_def box_nan_def ChIrrGUI_new_def
      SetSymbolscale_def SetModalAmplitude_def SetModalSpeed_def ChMax_def positive_def
      not_negative_def Let_def)

text \<open>The number \<open>-5\<close> entered as symbol scale into a new GUI.\<close>

theorem setters_clamp_witness:
  "OnEvent (Some (ChIrrGUI_new :: unit ChIrrGUI)) (GUIEvent EGET_EDITBOX_ENTER (box_minus_five 9921)) () =
     Inr (False, Some (SetSymbolscale (DNum (- 5)) ChIrrGUI_new), ()) \<and>
   symbolscale (SetSymbolscale (DNum (- 5)) (ChIrrGUI_new :: unit ChIrrGUI)) = DNum (1 / 10 ^ 11) \<and>
   modal_amplitude (SetModalAmplitude (DNum (- 5)) (ChIrrGUI_new :: unit ChIrrGUI)) = DNum 0 \<and>
   modal_speed (SetModalSpeed (DNum (- 5)) (ChIrrGUI_new :: unit ChIrrGUI)) = DNum 0 \<and>
   DNum (- 5) \<noteq> DNaN \<and>
   brings_number (GUIEvent EGET_EDITBOX_ENTER (box_minus_five 9921)) \<and>
   positive (symbolscale (ChIrrGUI_new :: unit ChIrrGUI)) \<and>
   not_negative (modal_amplitude (ChIrrGUI_new :: unit ChIrrGUI)) \<and>
   not_negative (modal_speed (ChIrrGUI_new :: unit ChIrrGUI)) \<and>
   positive (symbolscale (SetSymbolscale (DNum (- 5)) (ChIrrGUI_new :: unit ChIrrGUI))) \<and>
   not_negative (modal_amplitude (SetModalAmplitude (DNum (- 5)) (ChIrrGUI_new :: unit ChIrrGUI)))"
proof -
  have o: "offer_event (m_user_receivers (ChIrrGUI_new :: unit ChIrrGUI)) event () = (False, ())"
    for event by (simp add: ChIrrGUI_new_def)
  have i: "positive (symbolscale (ChIrrGUI_new :: unit ChIrrGUI))"
    "not_negative (modal_amplitude (ChIrrGUI_new :: unit ChIrrGUI))"
    "not_negative (modal_speed (ChIrrGUI_new :: unit ChIrrGUI))"
    by (simp_all add: ChIrrGUI_new_def positive_def not_negative_def)
  have b: "brings_number (GUIEvent EGET_EDITBOX_ENTER (box_minus_five 9921))"
    by (simp add: box_minus_five_def)
  note t = setters_clamp [where g = "ChIrrGUI_new :: unit ChIrrGUI" and r = "- 5"
      and v = "DNum (- 5)"
      and caller = "box_minus_five 9921" and u = "()" and u' = "()"
      and event = "GUIEvent EGET_EDITBOX_ENTER (box_minus_five 9921)"
      and answer = False and g' = "SetSymbolscale (DNum (- 5)) ChIrrGUI_new"]
  from t o have e: "OnEvent (Some (ChIrrGUI_new :: unit ChIrrGUI))
      (GUIEvent EGET_EDITBOX_ENTER (box_minus_five 9921)) () =
     Inr (False, Some (SetSymbolscale (DNum (- 5)) ChIrrGUI_new), ())"
    by (simp add: box_minus_five_def)
  show ?thesis using t e i b by (simp add: positive_def not_negative_def)
qed

subsection \<open>TrackShoeDoublePin::Create\<close>

lemma read_materials_Some:
  "read_materials rd ms infos = Some infos' \<Longrightarrow>
     map Some infos' = map Some infos @ map (ReadMaterialInfoJSON rd) ms"
  by (induction ms arbitrary: infos) (auto split: option.splits)

lemma read_coll_shapes_Some:
  "read_coll_shapes rd n shapes p = Some p' \<Longrightarrow>
     p' = p\<lparr>m_coll_boxes := m_coll_boxes p', m_coll_cylinders := m_coll_cylinders p'\<rparr> \<and>
     map Some (m_coll_boxes p') =
       map Some (m_coll_boxes p) @
       [read_box rd s (shape_material s). s \<leftarrow> shapes, shape_type s = Some ''BOX''] \<and>
     map Some (m_coll_cylinders p') =
       map Some (m_coll_cylinders p) @
       [read_cylinder rd s (shape_material s). s \<leftarrow> shapes, shape_type s = Some ''CYLINDER'']"
proof (induction shapes arbitrary: p)
  case Nil
  then show ?case by simp
next
  case (Cons shape rest)
  from Cons.prems obtain ty matID p1 where ty: "shape_type shape = Some ty"
    and mat: "shape_material shape = Some matID"
    and p1: "(if ty = ''BOX''
              then do {
                box \<leftarrow> read_box rd shape (Some matID);
                Some (p\<lparr>m_coll_boxes := m_coll_boxes p @ [box]\<rparr>)
              }
              else if ty = ''CYLINDER''
              then do {
                cyl \<leftarrow> read_cylinder rd shape (Some matID);
                Some (p\<lparr>m_coll_cylinders := m_coll_cylinders p @ [cyl]\<rparr>)
              }
              else Some p) = Some p1"
    and rest: "read_coll_shapes rd n rest p1 = Some p'"
    by (auto simp: shape_type_def shape_material_def split: Option.bind_splits)
  note IH = Cons.IH [OF rest]
  consider (box) "ty = ''BOX''" | (cyl) "ty = ''CYLINDER''" | (other) "ty \<noteq> ''BOX''" "ty \<noteq> ''CYLINDER''"
    by blast
  then show ?case
  proof cases
    case box
    with p1 obtain b where b: "read_box rd shape (Some matID) = Some b"
      and p1': "p1 = p\<lparr>m_coll_boxes := m_coll_boxes p @ [b]\<rparr>"
      by (auto split: Option.bind_splits)
    show ?thesis using IH ty mat b box unfolding p1' by auto
  next
    case cyl
    with p1 obtain c where c: "read_cylinder rd shape (Some matID) = Some c"
      and p1': "p1 = p\<lparr>m_coll_cylinders := m_coll_cylinders p @ [c]\<rparr>"
      by (auto split: Option.bind_splits)
    show ?thesis using IH ty mat c cyl unfolding p1' by auto
  next
    case other
    with p1 have "p1 = p" by simp
    then show ?thesis using IH ty other by auto
  qed
qed


lemma read_vis_shapes_Some:
  "read_vis_shapes rd shapes p = Some p' \<Longrightarrow>
     p' = p\<lparr>m_vis_boxes := m_vis_boxes p', m_vis_cylinders := m_vis_cylinders p'\<rparr> \<and>
     map Some (m_vis_boxes p') =
       map Some (m_vis_boxes p) @
       [read_box rd s None. s \<leftarrow> shapes, shape_type s = Some ''BOX''] \<and>
     map Some (m_vis_cylinders p') =
       map Some (m_vis_cylinders p) @
       [read_cylinder rd s None. s \<leftarrow> shapes, shape_type s = Some ''CYLINDER'']"
proof (induction shapes arbitrary: p)
  case Nil
  then show ?case by simp
next
  case (Cons shape rest)
  from Cons.prems obtain ty p1 where ty: "shape_type shape = Some ty"
    and p1: "(if ty = ''BOX''
              then do {
                box \<leftarrow> read_box rd shape None;
                Some (p\<lparr>m_vis_boxes := m_vis_boxes p @ [box]\<rparr>)
              }
              else if ty = ''CYLINDER''
              then do {
                cyl \<leftarrow> read_cylinder rd shape None;
                Some (p\<lparr>m_vis_cylinders := m_vis_cylinders p @ [cyl]\<rparr>)
              }
              else Some p) = Some p1"
    and rest: "read_vis_shapes rd rest p1 = Some p'"
    by (auto simp: shape_type_def split: Option.bind_splits)
  note IH = Cons.IH [OF rest]
  consider (box) "ty = ''BOX''" | (cyl) "ty = ''CYLINDER''" | (other) "ty \<noteq> ''BOX''" "ty \<noteq> ''CYLINDER''"
    by blast
  then show ?case
  proof cases
    case box
    with p1 obtain b where b: "read_box rd shape None = Some b"
      and p1': "p1 = p\<lparr>m_vis_boxes := m_vis_boxes p @ [b]\<rparr>"
      by (auto split: Option.bind_splits)
    show ?thesis using IH ty b box unfolding p1' by auto
  next
    case cyl
    with p1 obtain c where c: "read_cylinder rd shape None = Some c"
      and p1': "p1 = p\<lparr>m_vis_cylinders := m_vis_cylinders p @ [c]\<rparr>"
      by (auto split: Option.bind_splits)
    show ?thesis using IH ty c cyl unfolding p1' by auto
  next
    case other
    with p1 have "p1 = p" by simp
    then show ?thesis using IH ty other by auto
  qed
qed

lemma read_bodies_Some:
  assumes "read_bodies rd d p = Some p'"
  shows "\<exists>shoe connector.
     get_member ''Shoe'' d = Some shoe \<and> get_member ''Connector'' d = Some connector \<and>
     get_member ''Length'' shoe \<bind> GetDouble = Some (m_shoe_length p') \<and>
     get_member ''Width'' shoe \<bind> GetDouble = Some (m_shoe_width p') \<and>
     get_member ''Height'' shoe \<bind> GetDouble = Some (m_shoe_height p') \<and>
     get_member ''Mass'' shoe \<bind> GetDouble = Some (m_shoe_mass p') \<and>
     get_member ''Inertia'' shoe \<bind> ReadVectorJSON rd = Some (m_shoe_inertia p') \<and>
     get_member ''Radius'' connector \<bind> GetDouble = Some (m_connector_radius p') \<and>
     get_member ''Length'' connector \<bind> GetDouble = Some (m_connector_length p') \<and>
     get_member ''Width'' connector \<bind> GetDouble = Some (m_connector_width p') \<and>
     get_member ''Mass'' connector \<bind> GetDouble = Some (m_connector_mass p') \<and>
     get_member ''Inertia'' connector \<bind> ReadVectorJSON rd = Some (m_connector_inertia p') \<and>
     m_shoe_mat_info p' = m_shoe_mat_info p \<and> m_coll_boxes p' = m_coll_boxes p \<and>
     m_coll_cylinders p' = m_coll_cylinders p \<and> m_vis_boxes p' = m_vis_boxes p \<and>
     m_vis_cylinders p' = m_vis_cylinders p \<and> m_has_mesh p' = m_has_mesh p \<and>
     m_meshFile p' = m_meshFile p"
  using assms unfolding read_bodies_def
  by (clarsimp simp: bind_eq_Some_conv)


lemma read_contact_Some:
  assumes "read_contact rd d p = Some p'"
  shows "\<exists>contact mats shapes.
     get_member ''Contact'' d = Some contact \<and>
     get_member ''Shoe Materials'' contact \<bind> elements = Some mats \<and>
     get_member ''Shoe Shapes'' contact \<bind> elements = Some shapes \<and>
     get_member ''Connector Material'' contact \<bind> ReadMaterialInfoJSON rd = m_cyl_mat_info p' \<and>
     m_cyl_mat_info p' \<noteq> None \<and>
     map Some (m_shoe_mat_info p') =
       map Some (m_shoe_mat_info p) @ map (ReadMaterialInfoJSON rd) mats \<and>
     map Some (m_coll_boxes p') =
       map Some (m_coll_boxes p) @
       [read_box rd s (shape_material s). s \<leftarrow> shapes, shape_type s = Some ''BOX''] \<and>
     map Some (m_coll_cylinders p') =
       map Some (m_coll_cylinders p) @
       [read_cylinder rd s (shape_material s). s \<leftarrow> shapes, shape_type s = Some ''CYLINDER''] \<and>
     m_shoe_length p' = m_shoe_length p \<and> m_shoe_width p' = m_shoe_width p \<and>
     m_shoe_height p' = m_shoe_height p \<and> m_shoe_mass p' = m_shoe_mass p \<and>
     m_shoe_inertia p' = m_shoe_inertia p \<and>
     m_connector_radius p' = m_connector_radius p \<and>
     m_connector_length p' = m_connector_length p \<and>
     m_connector_width p' = m_connector_width p \<and>
     m_connector_mass p' = m_connector_mass p \<and>
     m_connector_inertia p' = m_connector_inertia p \<and>
     m_vis_boxes p' = m_vis_boxes p \<and> m_vis_cylinders p' = m_vis_cylinders p \<and>
     m_has_mesh p' = m_has_mesh p \<and> m_meshFile p' = m_meshFile p"
proof -
  from assms obtain contact sm ss cmi mats infos shapes
    where c: "get_member ''Contact'' d = Some contact"
      and sm: "get_member ''Shoe Materials'' contact = Some sm"
      and ss: "get_member ''Shoe Shapes'' contact = Some ss"
      and cmi: "get_member ''Connector Material'' contact \<bind> ReadMaterialInfoJSON rd = Some cmi"
      and mats: "elements sm = Some mats"
      and infos: "read_materials rd mats (m_shoe_mat_info p) = Some infos"
      and shapes: "elements ss = Some shapes"
      and run: "read_coll_shapes rd (int (length mats)) shapes
         (p\<lparr>m_cyl_mat_info := Some cmi, m_shoe_mat_info := infos\<rparr>) = Some p'"
    unfolding read_contact_def by (clarsimp simp: bind_eq_Some_conv)
  define p1 where "p1 = p\<lparr>m_cyl_mat_info := Some cmi, m_shoe_mat_info := infos\<rparr>"
  from read_coll_shapes_Some [OF run [folded p1_def]]
  have eq: "p' = p1\<lparr>m_coll_boxes := m_coll_boxes p', m_coll_cylinders := m_coll_cylinders p'\<rparr>"
    and bx: "map Some (m_coll_boxes p') =
       map Some (m_coll_boxes p1) @
       [read_box rd s (shape_material s). s \<leftarrow> shapes, shape_type s = Some ''BOX'']"
    and cy: "map Some (m_coll_cylinders p') =
       map Some (m_coll_cylinders p1) @
       [read_cylinder rd s (shape_material s). s \<leftarrow> shapes, shape_type s = Some ''CYLINDER'']"
    by blast+
  obtain bs cs where eq': "p' = p1\<lparr>m_coll_boxes := bs, m_coll_cylinders := cs\<rparr>"
    using eq by blast
  have f: "m_cyl_mat_info p' = Some cmi" "m_shoe_mat_info p' = infos"
    "m_shoe_length p' = m_shoe_length p" "m_shoe_width p' = m_shoe_width p"
    "m_shoe_height p' = m_shoe_height p" "m_shoe_mass p' = m_shoe_mass p"
    "m_shoe_inertia p' = m_shoe_inertia p"
    "m_connector_radius p' = m_connector_radius p"
    "m_connector_length p' = m_connector_length p"
    "m_connector_width p' = m_connector_width p"
    "m_connector_mass p' = m_connector_mass p"
    "m_connector_inertia p' = m_connector_inertia p"
    "m_vis_boxes p' = m_vis_boxes p" "m_vis_cylinders p' = m_vis_cylinders p"
    "m_has_mesh p' = m_has_mesh p" "m_meshFile p' = m_meshFile p"
    unfolding eq' p1_def by simp_all
  have g: "m_coll_boxes p1 = m_coll_boxes p" "m_coll_cylinders p1 = m_coll_cylinders p"
    by (simp_all add: p1_def)
  show ?thesis
    using c sm ss cmi mats shapes read_materials_Some [OF infos] bx cy f g
    by simp
qed

lemma read_visualization_Some:
  assumes "read_visualization rd d p = Some p'"
  shows "(HasMember ''Visualization'' d = Some False \<longrightarrow>
            m_vis_boxes p' = m_vis_boxes p @ m_coll_boxes p \<and>
            m_vis_cylinders p' = m_vis_cylinders p @ m_coll_cylinders p \<and>
            m_has_mesh p' = m_has_mesh p \<and> m_meshFile p' = m_meshFile p) \<and>
         (HasMember ''Visualization'' d = Some True \<longrightarrow>
            (\<exists>vis. get_member ''Visualization'' d = Some vis \<and>
               map Some (m_vis_boxes p') =
                 map Some (m_vis_boxes p) @
                 [read_box rd s None. s \<leftarrow> primitives vis, shape_type s = Some ''BOX''] \<and>
               map Some (m_vis_cylinders p') =
                 map Some (m_vis_cylinders p) @
                 [read_cylinder rd s None. s \<leftarrow> primitives vis,
                    shape_type s = Some ''CYLINDER''] \<and>
               (if HasMember ''Mesh'' vis = Some True
                then m_has_mesh p' \<and> get_member ''Mesh'' vis \<bind> GetString = Some (m_meshFile p')
                else m_has_mesh p' = m_has_mesh p \<and> m_meshFile p' = m_meshFile p))) \<and>
         (HasMember ''Visualization'' d = Some False \<or> HasMember ''Visualization'' d = Some True) \<and>
         m_coll_boxes p' = m_coll_boxes p \<and> m_coll_cylinders p' = m_coll_cylinders p \<and>
         m_shoe_mat_info p' = m_shoe_mat_info p \<and> m_cyl_mat_info p' = m_cyl_mat_info p \<and>
         m_shoe_length p' = m_shoe_length p \<and> m_shoe_width p' = m_shoe_width p \<and>
         m_shoe_height p' = m_shoe_height p \<and> m_shoe_mass p' = m_shoe_mass p \<and>
         m_shoe_inertia p' = m_shoe_inertia p \<and>
         m_connector_radius p' = m_connector_radius p \<and>
         m_connector_length p' = m_connector_length p \<and>
         m_connector_width p' = m_connector_width p \<and>
         m_connector_mass p' = m_connector_mass p \<and>
         m_connector_inertia p' = m_connector_inertia p"
proof -
  from assms obtain has_vis where hv: "HasMember ''Visualization'' d = Some has_vis"
    unfolding read_visualization_def by (auto simp: bind_eq_Some_conv)
  show ?thesis
  proof (cases has_vis)
    case False
    with assms hv have "p' = p\<lparr>m_vis_boxes := m_vis_boxes p @ m_coll_boxes p,
                    m_vis_cylinders := m_vis_cylinders p @ m_coll_cylinders p\<rparr>"
      unfolding read_visualization_def by simp
    then show ?thesis using hv False by simp
  next
    case True
    with assms hv obtain vis has_mesh p1 has_prim
      where vis: "get_member ''Visualization'' d = Some vis"
        and hm: "HasMember ''Mesh'' vis = Some has_mesh"
        and p1: "(if has_mesh
                then do {
                  file \<leftarrow> get_member ''Mesh'' vis \<bind> GetString;
                  Some (p\<lparr>m_meshFile := file, m_has_mesh := True\<rparr>)
                }
                else Some p) = Some p1"
        and hp: "HasMember ''Primitives'' vis = Some has_prim"
        and fin: "(if has_prim
         then do {
           prims \<leftarrow> get_member ''Primitives'' vis;
           chrono_assert (NDEBUG rd) (IsArray prims);
           shapes \<leftarrow> elements prims;
           read_vis_shapes rd shapes p1
         }
         else Some p1) = Some p'"
      unfolding read_visualization_def by (clarsimp simp: bind_eq_Some_conv)
    have m: "\<exists>file on. p1 = p\<lparr>m_meshFile := file, m_has_mesh := on\<rparr> \<and>
        (if has_mesh then on \<and> get_member ''Mesh'' vis \<bind> GetString = Some file
         else on = m_has_mesh p \<and> file = m_meshFile p)"
    proof (cases has_mesh)
      case True
      with p1 show ?thesis by (auto simp: bind_eq_Some_conv)
    next
      case False
      with p1 have "p1 = p\<lparr>m_meshFile := m_meshFile p, m_has_mesh := m_has_mesh p\<rparr>" by simp
      with False show ?thesis
        by (intro exI [of _ "m_meshFile p"] exI [of _ "m_has_mesh p"]) simp
    qed
    have r: "read_vis_shapes rd (primitives vis) p1 = Some p'"
    proof (cases has_prim)
      case True
      with fin show ?thesis by (auto simp: bind_eq_Some_conv primitives_def)
    next
      case False
      with hp have "get_member ''Primitives'' vis = None"
        by (cases vis) simp_all
      with False fin show ?thesis by (simp add: primitives_def)
    qed
    from read_vis_shapes_Some [OF r] obtain bs cs
      where eq: "p' = p1\<lparr>m_vis_boxes := bs, m_vis_cylinders := cs\<rparr>"
        and bx: "map Some (m_vis_boxes p') =
                 map Some (m_vis_boxes p1) @
                 [read_box rd s None. s \<leftarrow> primitives vis, shape_type s = Some ''BOX'']"
        and cy: "map Some (m_vis_cylinders p') =
                 map Some (m_vis_cylinders p1) @
                 [read_cylinder rd s None. s \<leftarrow> primitives vis,
                    shape_type s = Some ''CYLINDER'']"
      by blast
    from m obtain fname flag where p1': "p1 = p\<lparr>m_meshFile := fname, m_has_mesh := flag\<rparr>"
      and mm: "if has_mesh then flag \<and> get_member ''Mesh'' vis \<bind> GetString = Some fname
         else flag = m_has_mesh p \<and> fname = m_meshFile p"
      by blast
    have hm': "HasMember ''Mesh'' vis = Some True \<longleftrightarrow> has_mesh" using hm by simp
    show ?thesis
      using hv True vis bx cy mm unfolding eq p1' by (simp add: hm split: if_splits)
  qed
qed

lemma length_selected:
  "length (concat (map (\<lambda>s. if P s then [f s] else []) xs)) = length (filter P xs)"
  by (induction xs) simp_all

text \<open>
  C6. When \<open>Create\<close> returns, length, width, height, mass and inertia of the shoe are the
  values of these members of \<open>"Shoe"\<close>; radius, length, width, mass and inertia of the
  connector are the values of these members of \<open>"Connector"\<close>; the material list has got
  one entry per element of \<open>"Shoe Materials"\<close>, in order; the collision boxes have got one
  box per element of \<open>"Shoe Shapes"\<close> of type \<open>"BOX"\<close> and the collision cylinders
  one cylinder per element of type \<open>"CYLINDER"\<close>, in order and with the material index of
  the element; elements of any other type add nothing.
\<close>

theorem Create_populates:
  assumes "Create rd d p = Some p'"
  shows "\<exists>shoe connector contact mats shapes.
     get_member ''Shoe'' d = Some shoe \<and> get_member ''Connector'' d = Some connector \<and>
     get_member ''Contact'' d = Some contact \<and>
     get_member ''Length'' shoe \<bind> GetDouble = Some (m_shoe_length p') \<and>
     get_member ''Width'' shoe \<bind> GetDouble = Some (m_shoe_width p') \<and>
     get_member ''Height'' shoe \<bind> GetDouble = Some (m_shoe_height p') \<and>
     get_member ''Mass'' shoe \<bind> GetDouble = Some (m_shoe_mass p') \<and>
     get_member ''Inertia'' shoe \<bind> ReadVectorJSON rd = Some (m_shoe_inertia p') \<and>
     get_member ''Radius'' connector \<bind> GetDouble = Some (m_connector_radius p') \<and>
     get_member ''Length'' connector \<bind> GetDouble = Some (m_connector_length p') \<and>
     get_member ''Width'' connector \<bind> GetDouble = Some (m_connector_width p') \<and>
     get_member ''Mass'' connector \<bind> GetDouble = Some (m_connector_mass p') \<and>
     get_member ''Inertia'' connector \<bind> ReadVectorJSON rd = Some (m_connector_inertia p') \<and>
     get_member ''Shoe Materials'' contact \<bind> elements = Some mats \<and>
     get_member ''Shoe Shapes'' contact \<bind> elements = Some shapes \<and>
     map Some (m_shoe_mat_info p') =
       map Some (m_shoe_mat_info p) @ map (ReadMaterialInfoJSON rd) mats \<and>
     length (m_shoe_mat_info p') = length (m_shoe_mat_info p) + length mats \<and>
     map Some (m_coll_boxes p') =
       map Some (m_coll_boxes p) @
       [read_box rd s (shape_material s). s \<leftarrow> shapes, shape_type s = Some ''BOX''] \<and>
     length (m_coll_boxes p') =
       length (m_coll_boxes p) + length [s \<leftarrow> shapes. shape_type s = Some ''BOX''] \<and>
     map Some (m_coll_cylinders p') =
       map Some (m_coll_cylinders p) @
       [read_cylinder rd s (shape_material s). s \<leftarrow> shapes, shape_type s = Some ''CYLINDER''] \<and>
     length (m_coll_cylinders p') =
       length (m_coll_cylinders p) + length [s \<leftarrow> shapes. shape_type s = Some ''CYLINDER'']"
proof -
  from assms obtain base p1 p2 where b: "read_bodies rd d (p\<lparr>part_base := base\<rparr>) = Some p1"
    and c: "read_contact rd d p1 = Some p2"
    and v: "read_visualization rd d p2 = Some p'"
    unfolding Create_def by (auto simp: bind_eq_Some_conv)
  from read_bodies_Some [OF b] obtain shoe connector where
    sc: "get_member ''Shoe'' d = Some shoe" "get_member ''Connector'' d = Some connector"
     and b1: "get_member ''Length'' shoe \<bind> GetDouble = Some (m_shoe_length p1)"
     "get_member ''Width'' shoe \<bind> GetDouble = Some (m_shoe_width p1)"
     "get_member ''Height'' shoe \<bind> GetDouble = Some (m_shoe_height p1)"
     "get_member ''Mass'' shoe \<bind> GetDouble = Some (m_shoe_mass p1)"
     "get_member ''Inertia'' shoe \<bind> ReadVectorJSON rd = Some (m_shoe_inertia p1)"
     "get_member ''Radius'' connector \<bind> GetDouble = Some (m_connector_radius p1)"
     "get_member ''Length'' connector \<bind> GetDouble = Some (m_connector_length p1)"
     "get_member ''Width'' connector \<bind> GetDouble = Some (m_connector_width p1)"
     "get_member ''Mass'' connector \<bind> GetDouble = Some (m_connector_mass p1)"
     "get_member ''Inertia'' connector \<bind> ReadVectorJSON rd = Some (m_connector_inertia p1)"
     and b2: "m_shoe_mat_info p1 = m_shoe_mat_info p" "m_coll_boxes p1 = m_coll_boxes p"
     "m_coll_cylinders p1 = m_coll_cylinders p"
    by auto
  from read_contact_Some [OF c] obtain contact mats shapes where
    ct: "get_member ''Contact'' d = Some contact"
     "get_member ''Shoe Materials'' contact \<bind> elements = Some mats"
     "get_member ''Shoe Shapes'' contact \<bind> elements = Some shapes"
    and c1: "map Some (m_shoe_mat_info p2) =
       map Some (m_shoe_mat_info p1) @ map (ReadMaterialInfoJSON rd) mats"
     "map Some (m_coll_boxes p2) =
       map Some (m_coll_boxes p1) @
       [read_box rd s (shape_material s). s \<leftarrow> shapes, shape_type s = Some ''BOX'']"
     "map Some (m_coll_cylinders p2) =
       map Some (m_coll_cylinders p1) @
       [read_cylinder rd s (shape_material s). s \<leftarrow> shapes, shape_type s = Some ''CYLINDER'']"
    and c2: "m_shoe_length p2 = m_shoe_length p1" "m_shoe_width p2 = m_shoe_width p1"
     "m_shoe_height p2 = m_shoe_height p1" "m_shoe_mass p2 = m_shoe_mass p1"
     "m_shoe_inertia p2 = m_shoe_inertia p1"
     "m_connector_radius p2 = m_connector_radius p1"
     "m_connector_length p2 = m_connector_length p1"
     "m_connector_width p2 = m_connector_width p1"
     "m_connector_mass p2 = m_connector_mass p1"
     "m_connector_inertia p2 = m_connector_inertia p1"
    by auto
  from read_visualization_Some [OF v] have
    v1: "m_coll_boxes p' = m_coll_boxes p2" "m_coll_cylinders p' = m_coll_cylinders p2"
     "m_shoe_mat_info p' = m_shoe_mat_info p2"
     "m_shoe_length p' = m_shoe_length p2" "m_shoe_width p' = m_shoe_width p2"
     "m_shoe_height p' = m_shoe_height p2" "m_shoe_mass p' = m_shoe_mass p2"
     "m_shoe_inertia p' = m_shoe_inertia p2"
     "m_connector_radius p' = m_connector_radius p2"
     "m_connector_length p' = m_connector_length p2"
     "m_connector_width p' = m_connector_width p2"
     "m_connector_mass p' = m_connector_mass p2"
     "m_connector_inertia p' = m_connector_inertia p2"
    by simp_all
  have m: "map Some (m_shoe_mat_info p') =
       map Some (m_shoe_mat_info p) @ map (ReadMaterialInfoJSON rd) mats"
    and bx: "map Some (m_coll_boxes p') =
       map Some (m_coll_boxes p) @
       [read_box rd s (shape_material s). s \<leftarrow> shapes, shape_type s = Some ''BOX'']"
    and cy: "map Some (m_coll_cylinders p') =
       map Some (m_coll_cylinders p) @
       [read_cylinder rd s (shape_material s). s \<leftarrow> shapes, shape_type s = Some ''CYLINDER'']"
    using c1 b2 v1 by simp_all
  have lm: "length (m_shoe_mat_info p') = length (m_shoe_mat_info p) + length mats"
    using arg_cong [OF m, of length] by simp
  have lb: "length (m_coll_boxes p') =
       length (m_coll_boxes p) + length [s \<leftarrow> shapes. shape_type s = Some ''BOX'']"
    using arg_cong [OF bx, of length] by (simp add: length_selected)
  have lc: "length (m_coll_cylinders p') =
       length (m_coll_cylinders p) + length [s \<leftarrow> shapes. shape_type s = Some ''CYLINDER'']"
    using arg_cong [OF cy, of length] by (simp add: length_selected)
  show ?thesis
    using sc ct b1 m bx cy lm lb lc unfolding v1 c2 by blast
qed

text \<open>
  C7. When \<open>Create\<close> returns for a document without \<open>"Visualization"\<close>, every
  collision box has been appended to the visualization boxes and every collision cylinder to
  the visualization cylinders. For a document with \<open>"Visualization"\<close>, the visualization
  lists have got the boxes and cylinders of its \<open>"Primitives"\<close> and nothing else, and the
  mesh file is set from \<open>"Mesh"\<close> if there is one.
\<close>

theorem Create_visualization:
  assumes "Create rd d p = Some p'"
  shows "(HasMember ''Visualization'' d = Some False \<longrightarrow>
            m_vis_boxes p' = m_vis_boxes p @ m_coll_boxes p' \<and>
            m_vis_cylinders p' = m_vis_cylinders p @ m_coll_cylinders p') \<and>
         (HasMember ''Visualization'' d = Some True \<longrightarrow>
            (\<exists>vis. get_member ''Visualization'' d = Some vis \<and>
               map Some (m_vis_boxes p') =
                 map Some (m_vis_boxes p) @
                 [read_box rd s None. s \<leftarrow> primitives vis, shape_type s = Some ''BOX''] \<and>
               map Some (m_vis_cylinders p') =
                 map Some (m_vis_cylinders p) @
                 [read_cylinder rd s None. s \<leftarrow> primitives vis,
                    shape_type s = Some ''CYLINDER''] \<and>
               (if HasMember ''Mesh'' vis = Some True
                then m_has_mesh p' \<and> get_member ''Mesh'' vis \<bind> GetString = Some (m_meshFile p')
                else m_has_mesh p' = m_has_mesh p \<and> m_meshFile p' = m_meshFile p)))"
proof -
  from assms obtain base p1 p2 where b: "read_bodies rd d (p\<lparr>part_base := base\<rparr>) = Some p1"
    and c: "read_contact rd d p1 = Some p2"
    and v: "read_visualization rd d p2 = Some p'"
    unfolding Create_def by (auto simp: bind_eq_Some_conv)
  from read_bodies_Some [OF b] have
    b2: "m_vis_boxes p1 = m_vis_boxes p" "m_vis_cylinders p1 = m_vis_cylinders p"
      "m_has_mesh p1 = m_has_mesh p" "m_meshFile p1 = m_meshFile p"
    by auto
  from read_contact_Some [OF c] have
    c2: "m_vis_boxes p2 = m_vis_boxes p1" "m_vis_cylinders p2 = m_vis_cylinders p1"
      "m_has_mesh p2 = m_has_mesh p1" "m_meshFile p2 = m_meshFile p1"
    by auto
  note f = read_visualization_Some [OF v]
  from f have k: "m_coll_boxes p' = m_coll_boxes p2" "m_coll_cylinders p' = m_coll_cylinders p2"
    by simp_all
  show ?thesis
    using f unfolding k c2 b2 by blast
qed

lemmas shoe_doc_defs = Create_def read_bodies_def read_contact_def read_visualization_def
  read_box_def read_cylinder_def chrono_assert_def plain_readers_def TrackShoeDoublePin_new_def
  plain_shoe_doc_def meshed_shoe_doc_def shoe_json_def connector_json_def contact_json_def
  box_json_def cylinder_json_def sphere_json_def

lemma eval_Create_plain:
  "Create plain_readers plain_shoe_doc (TrackShoeDoublePin_new ()) = Some (created plain_shoe_doc)"
proof -
  have "\<exists>p. Create plain_readers plain_shoe_doc (TrackShoeDoublePin_new ()) = Some p"
    by (simp add: shoe_doc_defs)
  then show ?thesis by (auto simp: created_def)
qed

lemma eval_Create_meshed:
  "Create plain_readers meshed_shoe_doc (TrackShoeDoublePin_new ()) = Some (created meshed_shoe_doc)"
proof -
  have "\<exists>p. Create plain_readers meshed_shoe_doc (TrackShoeDoublePin_new ()) = Some p"
    by (simp add: shoe_doc_defs)
  then show ?thesis by (auto simp: created_def)
qed

text \<open>
  A document with two materials and three shapes, one of them a sphere, read into a new part.
\<close>

theorem Create_populates_witness:
  "Create plain_readers plain_shoe_doc (TrackShoeDoublePin_new ()) = Some (created plain_shoe_doc) \<and>
   m_shoe_length (created plain_shoe_doc) = 1 / 2 \<and>
   m_shoe_mass (created plain_shoe_doc) = 18 \<and>
   m_connector_inertia (created plain_shoe_doc) = Vec 4 5 6 \<and>
   m_shoe_mat_info (created plain_shoe_doc) = [JString ''rubber'', JString ''steel''] \<and>
   length (m_coll_boxes (created plain_shoe_doc)) = 1 \<and>
   length (m_coll_cylinders (created plain_shoe_doc)) = 1"
proof -
  from Create_populates [OF eval_Create_plain]
  obtain shoe connector contact mats shapes where
    m: "get_member ''Shoe'' plain_shoe_doc = Some shoe"
       "get_member ''Connector'' plain_shoe_doc = Some connector"
       "get_member ''Contact'' plain_shoe_doc = Some contact"
       "get_member ''Shoe Materials'' contact \<bind> elements = Some mats"
       "get_member ''Shoe Shapes'' contact \<bind> elements = Some shapes"
    and f: "get_member ''Length'' shoe \<bind> GetDouble = Some (m_shoe_length (created plain_shoe_doc))"
       "get_member ''Mass'' shoe \<bind> GetDouble = Some (m_shoe_mass (created plain_shoe_doc))"
       "get_member ''Inertia'' connector \<bind> ReadVectorJSON plain_readers =
          Some (m_connector_inertia (created plain_shoe_doc))"
       "map Some (m_shoe_mat_info (created plain_shoe_doc)) =
          map Some (m_shoe_mat_info (TrackShoeDoublePin_new () :: (json, unit) TrackShoeDoublePin)) @
          map (ReadMaterialInfoJSON plain_readers) mats"
       "length (m_coll_boxes (created plain_shoe_doc)) =
          length (m_coll_boxes (TrackShoeDoublePin_new () :: (json, unit) TrackShoeDoublePin)) +
          length [s \<leftarrow> shapes. shape_type s = Some ''BOX'']"
       "length (m_coll_cylinders (created plain_shoe_doc)) =
          length (m_coll_cylinders (TrackShoeDoublePin_new () :: (json, unit) TrackShoeDoublePin)) +
          length [s \<leftarrow> shapes. shape_type s = Some ''CYLINDER'']"
    by blast
  from m have v: "shoe = shoe_json" "connector = connector_json" "contact = contact_json"
    by (simp_all add: plain_shoe_doc_def)
  from m(4,5) have w: "mats = [JString ''rubber'', JString ''steel'']"
    "shapes = [box_json, sphere_json, cylinder_json]"
    unfolding v by (simp_all add: contact_json_def)
  have x: "map Some xs = map Some ys \<longleftrightarrow> xs = ys" for xs ys :: "json list"
    by (simp add: inj_map_eq_map)
  show ?thesis
    using f eval_Create_plain unfolding v w
    by (simp add: shoe_json_def connector_json_def plain_readers_def TrackShoeDoublePin_new_def
        shape_type_def box_json_def sphere_json_def cylinder_json_def x [symmetric])
qed

text \<open>The same document without and with a \<open>"Visualization"\<close> member.\<close>

theorem Create_visualization_witness:
  "HasMember ''Visualization'' plain_shoe_doc = Some False \<and>
   Create plain_readers plain_shoe_doc (TrackShoeDoublePin_new ()) = Some (created plain_shoe_doc) \<and>
   m_vis_boxes (created plain_shoe_doc) = m_coll_boxes (created plain_shoe_doc) \<and>
   m_vis_cylinders (created plain_shoe_doc) = m_coll_cylinders (created plain_shoe_doc) \<and>
   HasMember ''Visualization'' meshed_shoe_doc = Some True \<and>
   Create plain_readers meshed_shoe_doc (TrackShoeDoublePin_new ()) = Some (created meshed_shoe_doc) \<and>
   m_vis_boxes (created meshed_shoe_doc) = [] \<and>
   length (m_vis_cylinders (created meshed_shoe_doc)) = 1 \<and>
   m_has_mesh (created meshed_shoe_doc) \<and>
   m_meshFile (created meshed_shoe_doc) = ''shoe.obj''"
proof -
  have h1: "HasMember ''Visualization'' plain_shoe_doc = Some False"
    and h2: "HasMember ''Visualization'' meshed_shoe_doc = Some True"
    by (simp_all add: plain_shoe_doc_def meshed_shoe_doc_def)
  have n: "m_vis_boxes (TrackShoeDoublePin_new () :: (json, unit) TrackShoeDoublePin) = []"
    "m_vis_cylinders (TrackShoeDoublePin_new () :: (json, unit) TrackShoeDoublePin) = []"
    by (simp_all add: TrackShoeDoublePin_new_def)
  from Create_visualization [OF eval_Create_plain] h1 n
  have a: "m_vis_boxes (created plain_shoe_doc) = m_coll_boxes (created plain_shoe_doc)"
    "m_vis_cylinders (created plain_shoe_doc) = m_coll_cylinders (created plain_shoe_doc)"
    by simp_all
  from Create_visualization [OF eval_Create_meshed] h2 n
  obtain vis where vis: "get_member ''Visualization'' meshed_shoe_doc = Some vis"
    and b: "map Some (m_vis_boxes (created meshed_shoe_doc)) =
                 [read_box plain_readers s None. s \<leftarrow> primitives vis, shape_type s = Some ''BOX'']"
      "map Some (m_vis_cylinders (created meshed_shoe_doc)) =
                 [read_cylinder plain_readers s None. s \<leftarrow> primitives vis,
                    shape_type s = Some ''CYLINDER'']"
      "if HasMember ''Mesh'' vis = Some True
                then m_has_mesh (created meshed_shoe_doc) \<and>
                  get_member ''Mesh'' vis \<bind> GetString = Some (m_meshFile (created meshed_shoe_doc))
                else m_has_mesh (created meshed_shoe_doc) =
                  m_has_mesh (TrackShoeDoublePin_new () :: (json, unit) TrackShoeDoublePin) \<and>
                  m_meshFile (created meshed_shoe_doc) =
                  m_meshFile (TrackShoeDoublePin_new () :: (json, unit) TrackShoeDoublePin)"
    by auto
  from vis have v: "vis = JObject [(''Mesh'', JString ''shoe.obj''),
                          (''Primitives'', JArray [cylinder_json])]"
    by (simp add: meshed_shoe_doc_def)
  have c: "m_vis_boxes (created meshed_shoe_doc) = []"
    "length (m_vis_cylinders (created meshed_shoe_doc)) = 1"
    "m_has_mesh (created meshed_shoe_doc)"
    "m_meshFile (created meshed_shoe_doc) = ''shoe.obj''"
    using b(1) arg_cong [OF b(2), of length] b(3) unfolding v
    by (simp_all add: primitives_def shape_type_def cylinder_json_def)
  show ?thesis
    using h1 h2 a c eval_Create_plain eval_Create_meshed by simp
qed

subsection \<open>InitializeTire\<close>

lemma push_adj_length [simp]: "length (push_adj adj iv ie) = length adj"
  by (simp add: push_adj_def)

lemma push_adj_nth:
  "v < length adj \<Longrightarrow>
     push_adj adj iv ie ! v = adj ! v @ (if iv = v then [ie] else [])"
  by (simp add: push_adj_def nth_list_update)

lemma nat_eq_corner: "valid_index i n \<Longrightarrow> (nat i = v) = (i = int v)"
  by (auto simp: valid_index_def)

lemma triangle_step_Inr:
  assumes "valid_index (ix t) (length vs)" "valid_index (iy t) (length vs)"
    "valid_index (iz t) (length vs)" "ie < length triArea" "length adj = length vs"
  shows "\<exists>triArea' adj'.
           triangle_step vs t ie (triArea, adj) = Inr (triArea', adj') \<and>
           triArea' = triArea[ie := tri_area vs t] \<and> length adj' = length adj \<and>
           (\<forall>v < length adj. adj' ! v = adj ! v @ replicate (corner_count t v) ie)"
proof -
  have r: "nat (ix t) < length adj" "nat (iy t) < length adj" "nat (iz t) < length adj"
    using assms by (auto simp: valid_index_def)
  have "\<forall>v < length adj.
      push_adj (push_adj (push_adj adj (nat (ix t)) ie) (nat (iy t)) ie) (nat (iz t)) ie ! v =
      adj ! v @ replicate (corner_count t v) ie"
    using assms(1-3)
    by (auto simp: push_adj_nth corner_count_def nat_eq_corner)
  then show ?thesis
    using assms r by (simp add: triangle_step_def tri_area_def Let_def)
qed

lemma triangle_loop_Inr:
  assumes "list_all (\<lambda>t. valid_index (ix t) (length vs) \<and> valid_index (iy t) (length vs) \<and>
                   valid_index (iz t) (length vs)) ts"
    and "ie + length ts \<le> length triArea" and "length adj = length vs"
  shows "\<exists>triArea' adj'.
           triangle_loop vs ts ie (triArea, adj) = Inr (triArea', adj') \<and>
           length triArea' = length triArea \<and> length adj' = length adj \<and>
           (\<forall>i < length ts. triArea' ! (ie + i) = tri_area vs (ts ! i)) \<and>
           (\<forall>j < ie. triArea' ! j = triArea ! j) \<and>
           (\<forall>v < length adj. adj' ! v = adj ! v @
               concat (map (\<lambda>i. replicate (corner_count (ts ! i) v) (ie + i)) [0 ..< length ts]))"
  using assms
proof (induction ts arbitrary: ie triArea adj)
  case Nil
  then show ?case by simp
next
  case (Cons t ts)
  from Cons.prems have v: "valid_index (ix t) (length vs)" "valid_index (iy t) (length vs)"
    "valid_index (iz t) (length vs)" and ie: "ie < length triArea" by simp_all
  from triangle_step_Inr [OF v ie Cons.prems(3)] obtain triArea1 adj1
    where s: "triangle_step vs t ie (triArea, adj) = Inr (triArea1, adj1)"
      and t1: "triArea1 = triArea[ie := tri_area vs t]"
      and l1: "length adj1 = length adj"
      and a1: "\<forall>v < length adj. adj1 ! v = adj ! v @ replicate (corner_count t v) ie"
    by blast
  have p: "list_all (\<lambda>t. valid_index (ix t) (length vs) \<and> valid_index (iy t) (length vs) \<and>
                   valid_index (iz t) (length vs)) ts"
    "Suc ie + length ts \<le> length triArea1" "length adj1 = length vs"
    using Cons.prems t1 l1 by simp_all
  from Cons.IH [OF p] obtain triArea' adj'
    where r: "triangle_loop vs ts (Suc ie) (triArea1, adj1) = Inr (triArea', adj')"
      and lt: "length triArea' = length triArea1" and la: "length adj' = length adj1"
      and ar: "\<forall>i < length ts. triArea' ! (Suc ie + i) = tri_area vs (ts ! i)"
      and keep: "\<forall>j < Suc ie. triArea' ! j = triArea1 ! j"
      and ad: "\<forall>v < length adj1. adj' ! v = adj1 ! v @
               concat (map (\<lambda>i. replicate (corner_count (ts ! i) v) (Suc ie + i)) [0 ..< length ts])"
    by blast
  have 1: "triangle_loop vs (t # ts) ie (triArea, adj) = Inr (triArea', adj')"
    using s r by simp
  have 2: "length triArea' = length triArea" "length adj' = length adj"
    using lt la t1 l1 by simp_all
  have 3: "\<forall>i < length (t # ts). triArea' ! (ie + i) = tri_area vs ((t # ts) ! i)"
  proof (intro allI impI)
    fix i assume "i < length (t # ts)"
    show "triArea' ! (ie + i) = tri_area vs ((t # ts) ! i)"
    proof (cases i)
      case 0
      then show ?thesis using keep t1 ie by simp
    next
      case (Suc k)
      with \<open>i < length (t # ts)\<close> have "k < length ts" by simp
      with ar Suc show ?thesis by simp
    qed
  qed
  have 4: "\<forall>j < ie. triArea' ! j = triArea ! j"
    using keep t1 by simp
  have 5: "\<forall>v < length adj. adj' ! v = adj ! v @
               concat (map (\<lambda>i. replicate (corner_count ((t # ts) ! i) v) (ie + i))
                         [0 ..< length (t # ts)])"
  proof (intro allI impI)
    fix v assume v: "v < length adj"
    have "[0 ..< length (t # ts)] = 0 # map Suc [0 ..< length ts]"
      by (simp add: upt_conv_Cons map_Suc_upt del: upt_Suc)
    then have "concat (map (\<lambda>i. replicate (corner_count ((t # ts) ! i) v) (ie + i))
                         [0 ..< length (t # ts)]) =
        replicate (corner_count t v) ie @
        concat (map (\<lambda>i. replicate (corner_count (ts ! i) v) (Suc ie + i)) [0 ..< length ts])"
      by (simp add: comp_def del: upt_Suc)
    then show "adj' ! v = adj ! v @
               concat (map (\<lambda>i. replicate (corner_count ((t # ts) ! i) v) (ie + i))
                         [0 ..< length (t # ts)])"
      using ad a1 v l1 by simp
  qed
  show ?case using 1 2 3 4 5 by blast
qed

lemma foldl_add_sum:
  "foldl (\<lambda>area ie. area + f ie) a xs = a + (\<Sum>ie \<leftarrow> xs. f ie)" for a :: real
  by (induction xs arbitrary: a) simp_all

lemma vertex_loop_Inr:
  "list_all (\<lambda>a. a \<noteq> []) adj \<Longrightarrow>
     vertex_loop triArea adj =
       Inr (map (\<lambda>a. (\<Sum>ie \<leftarrow> a. triArea ! ie) / real (length a)) adj)"
  by (induction adj) (simp_all add: foldl_add_sum)

lemma vertex_loop_zero:
  "\<not> list_all (\<lambda>a. a \<noteq> []) adj \<Longrightarrow> vertex_loop triArea adj = Inl ZeroDivisor"
  by (induction adj) auto

lemma corner_entries_set: "set (corner_entries ts v) \<subseteq> {0 ..< length ts}"
  by (auto simp: corner_entries_def)

lemma corner_entries_empty_iff:
  "corner_entries ts v = [] \<longleftrightarrow> \<not> list_ex (\<lambda>t. 0 < corner_count t v) ts"
proof -
  have "corner_entries ts v = [] \<longleftrightarrow> (\<forall>ie < length ts. corner_count (ts ! ie) v = 0)"
    by (auto simp: corner_entries_def)
  also have "\<dots> \<longleftrightarrow> \<not> list_ex (\<lambda>t. 0 < corner_count t v) ts"
    by (auto simp: list_ex_iff in_set_conv_nth) (metis nth_mem)
  finally show ?thesis .
qed

lemma select_concat:
  "concat (map (\<lambda>ie. if P ie then [ie] else []) xs) = filter P xs"
  by (induction xs) simp_all

lemma corner_entries_distinct:
  assumes "list_all (\<lambda>t. ix t \<noteq> iy t \<and> iy t \<noteq> iz t \<and> ix t \<noteq> iz t) ts"
  shows "corner_entries ts v = adjacent ts v"
proof -
  have "replicate (corner_count (ts ! ie) v) ie =
          (if 0 < corner_count (ts ! ie) v then [ie] else [])" if "ie \<in> set [0 ..< length ts]" for ie
  proof -
    from that have "ts ! ie \<in> set ts" by simp
    with assms have "ix (ts ! ie) \<noteq> iy (ts ! ie) \<and> iy (ts ! ie) \<noteq> iz (ts ! ie) \<and>
        ix (ts ! ie) \<noteq> iz (ts ! ie)"
      by (simp add: list_all_iff)
    then show ?thesis by (auto simp: corner_count_def)
  qed
  then have "map (\<lambda>ie. replicate (corner_count (ts ! ie) v) ie) [0 ..< length ts] =
      map (\<lambda>ie. if 0 < corner_count (ts ! ie) v then [ie] else []) [0 ..< length ts]"
    unfolding map_eq_conv by blast
  then have "concat (map (\<lambda>ie. replicate (corner_count (ts ! ie) v) ie) [0 ..< length ts]) =
      concat (map (\<lambda>ie. if 0 < corner_count (ts ! ie) v then [ie] else []) [0 ..< length ts])"
    by (rule arg_cong)
  then show ?thesis
    unfolding corner_entries_def adjacent_def select_concat .
qed

lemma first_loop:
  assumes "indices_valid m"
  shows "\<exists>triArea adj.
           triangle_loop (verts m) (idx_verts m) 0
             (replicate (mesh_nt m) 0, replicate (mesh_nv m) []) = Inr (triArea, adj) \<and>
           length adj = mesh_nv m \<and>
           (\<forall>ie < mesh_nt m. triArea ! ie = tri_area (verts m) (idx_verts m ! ie)) \<and>
           (\<forall>v < mesh_nv m. adj ! v = corner_entries (idx_verts m) v)"
proof -
  have a: "list_all (\<lambda>t. valid_index (ix t) (length (verts m)) \<and>
                   valid_index (iy t) (length (verts m)) \<and>
                   valid_index (iz t) (length (verts m))) (idx_verts m)"
    using assms by (simp add: indices_valid_def mesh_nv_def)
  have b: "0 + length (idx_verts m) \<le> length (replicate (mesh_nt m) (0::real))"
    and c: "length (replicate (mesh_nv m) ([]::nat list)) = length (verts m)"
    by (simp_all add: mesh_nt_def mesh_nv_def)
  from triangle_loop_Inr [OF a b c] show ?thesis
    by (auto simp: corner_entries_def mesh_nt_def mesh_nv_def)
qed

lemma sum_entries:
  assumes "\<forall>ie < mesh_nt m. triArea ! ie = tri_area (verts m) (idx_verts m ! ie)"
  shows "(\<Sum>ie \<leftarrow> corner_entries (idx_verts m) v. triArea ! ie) =
         (\<Sum>ie \<leftarrow> corner_entries (idx_verts m) v. tri_area (verts m) (idx_verts m ! ie))"
proof -
  have "map (\<lambda>ie. triArea ! ie) (corner_entries (idx_verts m) v) =
        map (\<lambda>ie. tri_area (verts m) (idx_verts m ! ie)) (corner_entries (idx_verts m) v)"
    unfolding map_eq_conv
    using assms corner_entries_set [of "idx_verts m" v]
    by (auto simp: mesh_nt_def)
  then show ?thesis by (rule arg_cong)
qed

text \<open>
  C8 (amended). For a mesh whose triangles name vertices of the mesh and in which every vertex
  is a corner of some triangle, \<open>InitializeTire\<close> returns, no divisor being zero, and
  \<open>m_vertexArea[v]\<close> is the sum of the areas of the entries of \<open>m_adjElements[v]\<close>
  divided by their number, where a triangle is entered once for each of its corners that is
  \<open>v\<close> and its area is half the length of the cross product of its two edge vectors; when
  the three corners of every triangle are different vertices, this is the arithmetic mean of
  the areas of the triangles adjacent to \<open>v\<close>. For a vertex that is no corner of any
  triangle the list \<open>m_adjElements[v]\<close> is empty and the divisor is zero.
\<close>

theorem InitializeTire_vertex_area:
  "(indices_valid m \<and> all_referenced m \<longrightarrow>
      (\<exists>node. InitializeTire m = Inr node \<and>
         length (m_vertexArea node) = mesh_nv m \<and>
         (\<forall>v < mesh_nv m.
            m_adjElements node ! v = corner_entries (idx_verts m) v \<and>
            m_vertexArea node ! v = mean_area m (corner_entries (idx_verts m) v) \<and>
            (corners_distinct m \<longrightarrow>
               m_vertexArea node ! v = mean_area m (adjacent (idx_verts m) v))))) \<and>
   (indices_valid m \<and> v < mesh_nv m \<and>
    \<not> list_ex (\<lambda>t. 0 < corner_count t v) (idx_verts m) \<longrightarrow>
      corner_entries (idx_verts m) v = [] \<and> InitializeTire m = Inl ZeroDivisor)"
proof (intro conjI impI)
  assume h: "indices_valid m \<and> all_referenced m"
  from first_loop obtain triArea adj
    where l: "triangle_loop (verts m) (idx_verts m) 0
             (replicate (mesh_nt m) 0, replicate (mesh_nv m) []) = Inr (triArea, adj)"
      and la: "length adj = mesh_nv m"
      and ta: "\<forall>ie < mesh_nt m. triArea ! ie = tri_area (verts m) (idx_verts m ! ie)"
      and ad: "\<forall>v < mesh_nv m. adj ! v = corner_entries (idx_verts m) v"
    using h by blast
  have ne: "list_all (\<lambda>a. a \<noteq> []) adj"
  proof -
    have "adj ! v \<noteq> []" if "v < length adj" for v
    proof -
      from that la h have "list_ex (\<lambda>t. 0 < corner_count t v) (idx_verts m)"
        by (simp add: all_referenced_def list_all_iff)
      then show ?thesis using ad that la by (simp add: corner_entries_empty_iff)
    qed
    then show ?thesis by (auto simp: list_all_iff in_set_conv_nth)
  qed
  define node where "node = \<lparr> m_mesh_data = m, m_adjElements = adj,
      m_vertexArea = map (\<lambda>a. (\<Sum>ie \<leftarrow> a. triArea ! ie) / real (length a)) adj \<rparr>"
  have i: "InitializeTire m = Inr node"
    using l vertex_loop_Inr [OF ne, of triArea] by (simp add: InitializeTire_def node_def)
  have n: "length (m_vertexArea node) = mesh_nv m" by (simp add: node_def la)
  have p: "m_adjElements node ! v = corner_entries (idx_verts m) v \<and>
            m_vertexArea node ! v = mean_area m (corner_entries (idx_verts m) v) \<and>
            (corners_distinct m \<longrightarrow>
               m_vertexArea node ! v = mean_area m (adjacent (idx_verts m) v))"
    if "v < mesh_nv m" for v
  proof -
    have a: "adj ! v = corner_entries (idx_verts m) v" using ad that by simp
    have b: "m_vertexArea node ! v = mean_area m (corner_entries (idx_verts m) v)"
      using that la a sum_entries [OF ta, of v] by (simp add: node_def mean_area_def)
    have "corner_entries (idx_verts m) v = adjacent (idx_verts m) v" if "corners_distinct m"
      using that corner_entries_distinct [of "idx_verts m" v] by (simp add: corners_distinct_def)
    with a b show ?thesis by (simp add: node_def)
  qed
  show "\<exists>node. InitializeTire m = Inr node \<and>
         length (m_vertexArea node) = mesh_nv m \<and>
         (\<forall>v < mesh_nv m.
            m_adjElements node ! v = corner_entries (idx_verts m) v \<and>
            m_vertexArea node ! v = mean_area m (corner_entries (idx_verts m) v) \<and>
            (corners_distinct m \<longrightarrow>
               m_vertexArea node ! v = mean_area m (adjacent (idx_verts m) v)))"
    using i n p by blast
next
  assume h: "indices_valid m \<and> v < mesh_nv m \<and>
    \<not> list_ex (\<lambda>t. 0 < corner_count t v) (idx_verts m)"
  then show e: "corner_entries (idx_verts m) v = []"
    by (simp add: corner_entries_empty_iff)
  from first_loop obtain triArea adj
    where l: "triangle_loop (verts m) (idx_verts m) 0
             (replicate (mesh_nt m) 0, replicate (mesh_nv m) []) = Inr (triArea, adj)"
      and la: "length adj = mesh_nv m"
      and ad: "\<forall>v < mesh_nv m. adj ! v = corner_entries (idx_verts m) v"
    using h by blast
  have "adj ! v = []" and "v < length adj" using ad e h la by simp_all
  then have "\<not> list_all (\<lambda>a. a \<noteq> []) adj"
    by (auto simp: list_all_iff in_set_conv_nth)
  from vertex_loop_zero [OF this, of triArea] l
  show "InitializeTire m = Inl ZeroDivisor"
    by (simp add: InitializeTire_def)
qed

lemmas tire_defs = indices_valid_def all_referenced_def corners_distinct_def mesh_nv_def
  mesh_nt_def valid_index_def corner_count_def folded_mesh_def loose_vertex_mesh_def
  one_triangle_mesh_def
  InitializeTire_def triangle_step_def push_adj_def Length_def Vcross_def vsub_def
  mean_area_def adjacent_def corner_entries_def tri_area_def

text \<open>
  C8 (as stated, refuted). In the mesh with the triangles \<open>(0, 1, 2)\<close> and \<open>(0, 0, 1)\<close>
  every vertex is referenced. The two triangles adjacent to vertex 0 have the areas 1/2 and 0,
  with mean 1/4; the vertex area computed is 1/6, the second triangle being counted twice.
\<close>

theorem InitializeTire_mean_counterexample:
  "indices_valid folded_mesh \<and> all_referenced folded_mesh \<and>
   map_sum id m_vertexArea (InitializeTire folded_mesh) = Inr [1 / 6, 1 / 4, 1 / 2] \<and>
   adjacent (idx_verts folded_mesh) 0 = [0, 1] \<and>
   mean_area folded_mesh (adjacent (idx_verts folded_mesh) 0) = 1 / 4"
  by (simp add: tire_defs upt_conv_Cons eval_nat_numeral)

text \<open>A single triangle, and the same triangle with a vertex that nothing refers to.\<close>

theorem InitializeTire_vertex_area_witness:
  "indices_valid one_triangle_mesh \<and> all_referenced one_triangle_mesh \<and>
   corners_distinct one_triangle_mesh \<and>
   map_sum id (\<lambda>node. m_vertexArea node ! 0) (InitializeTire one_triangle_mesh) = Inr (1 / 2) \<and>
   indices_valid loose_vertex_mesh \<and> 3 < mesh_nv loose_vertex_mesh \<and>
   \<not> list_ex (\<lambda>t. 0 < corner_count t 3) (idx_verts loose_vertex_mesh) \<and>
   InitializeTire loose_vertex_mesh = Inl ZeroDivisor"
proof -
  have a: "indices_valid one_triangle_mesh \<and> all_referenced one_triangle_mesh"
    and d: "corners_distinct one_triangle_mesh"
    and n: "0 < mesh_nv one_triangle_mesh"
    and e: "mean_area one_triangle_mesh (adjacent (idx_verts one_triangle_mesh) 0) = 1 / 2"
    by (simp_all add: indices_valid_def all_referenced_def corners_distinct_def mesh_nv_def
        valid_index_def corner_count_def one_triangle_mesh_def upt_conv_Cons eval_nat_numeral
        mean_area_def adjacent_def tri_area_def Length_def Vcross_def vsub_def)
  have b: "indices_valid loose_vertex_mesh \<and> 3 < mesh_nv loose_vertex_mesh \<and>
      \<not> list_ex (\<lambda>t. 0 < corner_count t 3) (idx_verts loose_vertex_mesh)"
    by (simp add: indices_valid_def mesh_nv_def valid_index_def corner_count_def
        loose_vertex_mesh_def)
  from InitializeTire_vertex_area [of one_triangle_mesh, THEN conjunct1, THEN mp, OF a]
  obtain node where i: "InitializeTire one_triangle_mesh = Inr node"
    and v: "\<forall>v < mesh_nv one_triangle_mesh.
            m_adjElements node ! v = corner_entries (idx_verts one_triangle_mesh) v \<and>
            m_vertexArea node ! v =
              mean_area one_triangle_mesh (corner_entries (idx_verts one_triangle_mesh) v) \<and>
            (corners_distinct one_triangle_mesh \<longrightarrow>
               m_vertexArea node ! v =
                 mean_area one_triangle_mesh (adjacent (idx_verts one_triangle_mesh) v))"
    by blast
  from v n d have "m_vertexArea node ! 0 =
      mean_area one_triangle_mesh (adjacent (idx_verts one_triangle_mesh) 0)"
    by blast
  with e have "m_vertexArea node ! 0 = 1 / 2" by simp
  with i have c: "map_sum id (\<lambda>node. m_vertexArea node ! 0) (InitializeTire one_triangle_mesh) =
      Inr (1 / 2)"
    by simp
  from InitializeTire_vertex_area [of loose_vertex_mesh 3, THEN conjunct2, THEN mp, OF b]
  have "InitializeTire loose_vertex_mesh = Inl ZeroDivisor" by simp
  with a b c d show ?thesis by simp
qed

end
